(* ===== verification/Prelude.thy ===== *)
theory Prelude
  imports Main "HOL-Library.Word"
begin

text \<open>
  Shared vocabulary of the development: bytes, the exceptions of the Python source as values, the
  result type \<open>exn + 'a\<close> with its sequencing operator, and the pieces of the Python standard
  library (\<^verbatim>\<open>int.to_bytes\<close>, \<^verbatim>\<open>int.from_bytes\<close>, \<^verbatim>\<open>struct\<close>, slices) that several components use.
\<close>

unbundle bit_operations_syntax

section \<open>Collections of facts\<close>

named_theorems result_simps \<open>rewriting of the result type\<close>
named_theorems byte_simps \<open>rewriting of byte strings and fixed-width integers\<close>

section \<open>Bytes, exceptions and results\<close>

type_synonym byte = "8 word"
type_synonym bytes = "byte list"

text \<open>
  Every exception class the modelled code raises or catches. The constructors keep the class names
  of the source; messages are dropped. \<open>StructError\<close> is \<^verbatim>\<open>struct.error\<close>. The two class hierarchies of
  \<^verbatim>\<open>hathor/transaction/exceptions.py\<close>, validation errors and script errors, are datatypes of their
  own, so that \<^verbatim>\<open>except ScriptError\<close> is a match on one constructor.
\<close>

datatype tx_validation_error =
    ParentDoesNotExist
  | IncorrectParents
  | TimestampError
  | DoubleSpend
  | InputOutputMismatch
  | InvalidInputData
  | InvalidInputDataSize
  | TooFewInputs
  | InvalidScriptError
  | TooManySigOps
  | TooManyInputs
  | TooManyHeaders
  | HeaderNotSupported
  | InexistentInput
  | ConflictingInputs
  | TooManyOutputs
  | InvalidOutputValue
  | InvalidOutputScriptSize
  | PowError
  | AuxPowError
  | AuxPowNoMagicError
  | AuxPowUnexpectedMagicError
  | AuxPowLongMerklePathError
  | WeightError
  | PoaValidationError
  | InvalidBlockReward
  | DuplicatedParents
  | InvalidToken
  | BlockError
  | TransactionDataError
  | RewardLocked
  | InvalidVersionError
  | BlockWithInputs
  | BlockWithTokensError
  | CheckpointError
  | BlockMustSignalError

datatype script_error =
    ScriptErrorBase
  | OutOfData
  | MissingStackItems
  | EqualVerifyFailed
  | FinalStackInvalid
  | OracleChecksigFailed
  | DataIndexError
  | InvalidStackData
  | VerifyFailed
  | TimeLocked

datatype exn =
    ValueError
  | OverflowError
  | AssertionError
  | IndexError
  | KeyError
  | TypeError
  | StructError
  | UnicodeEncodeError
  | UnicodeDecodeError
  | OutOfDataError
  | BadDataError
  | TooLongError
  | MaxBytesExceededError
  | AttributeError
  | NotImplementedError
  | RecursionError
  | InvalidAddress
  | TransactionDoesNotExist
  | NCInvalidAction
  | NCInvalidSignature
  | NCInsufficientFunds
  | NCFail
  | NanoContractDoesNotExist
  | BlueprintDoesNotExist
  | NCAttributeError
  | NCInvalidContext
  | NCRecursionError
  | NCNumberOfCallsExceeded
  | NCInvalidContractId
  | NCInvalidMethodCall
  | NCInvalidInitializeMethodCall
  | NCInvalidPublicMethodCallFromView
  | NCAlreadyInitializedContractError
  | NCUninitializedContractError
  | NCInvalidSyscall
  | NCViewMethodError
  | NCMethodNotFound
  | NCTokenAlreadyExists
  | NCForbiddenAction
  | NCSerializationArgTooLong
  | InitializationError
  | InvalidNewTransaction
  | ZeroDivisionError
  | UnboundLocalError
  | OutOfFuel
  | TxValidationError tx_validation_error
  | ScriptError script_error

type_synonym 'a result = "exn + 'a"

definition bindE :: "'a result \<Rightarrow> ('a \<Rightarrow> 'b result) \<Rightarrow> 'b result" where
  "bindE m f = (case m of Inl e \<Rightarrow> Inl e | Inr x \<Rightarrow> f x)"

text \<open>\<open>guardE b e\<close> is \<^verbatim>\<open>if not b: raise e\<close>.\<close>

definition guardE :: "bool \<Rightarrow> exn \<Rightarrow> unit result" where
  "guardE b e = (if b then Inr () else Inl e)"

text \<open>\<open>catchE m h\<close> is \<^verbatim>\<open>try: m except ...: h\<close>; the handler re-raises what it does not handle.\<close>

definition catchE :: "'a result \<Rightarrow> (exn \<Rightarrow> 'a result) \<Rightarrow> 'a result" where
  "catchE m h = (case m of Inl e \<Rightarrow> h e | Inr x \<Rightarrow> Inr x)"

lemma bindE_Inl [simp]: "bindE (Inl e) f = Inl e"
  by (simp add: bindE_def)

lemma bindE_Inr [simp]: "bindE (Inr x) f = f x"
  by (simp add: bindE_def)

lemma bindE_eq_Inr [result_simps]: "bindE m f = Inr y \<longleftrightarrow> (\<exists>x. m = Inr x \<and> f x = Inr y)"
  by (cases m) auto

lemma bindE_eq_Inl [result_simps]: "bindE m f = Inl e \<longleftrightarrow> m = Inl e \<or> (\<exists>x. m = Inr x \<and> f x = Inl e)"
  by (cases m) auto

lemma bindE_assoc: "bindE (bindE m f) g = bindE m (\<lambda>x. bindE (f x) g)"
  by (cases m) auto

lemma bindE_cong [fundef_cong]:
  "m = m' \<Longrightarrow> (\<And>x. m' = Inr x \<Longrightarrow> f x = f' x) \<Longrightarrow> bindE m f = bindE m' f'"
  by (cases m') auto

lemma guardE_eq_Inr [simp]: "guardE b e = Inr u \<longleftrightarrow> b"
  by (simp add: guardE_def)

lemma guardE_eq_Inl [simp]: "guardE b e = Inl e' \<longleftrightarrow> \<not> b \<and> e = e'"
  by (simp add: guardE_def)

lemma bindE_guardE [simp]: "bindE (guardE b e) f = (if b then f () else Inl e)"
  by (simp add: guardE_def)

lemma catchE_Inl [simp]: "catchE (Inl e) h = h e"
  by (simp add: catchE_def)

lemma catchE_Inr [simp]: "catchE (Inr x) h = Inr x"
  by (simp add: catchE_def)

section \<open>Big-endian integers: \<^verbatim>\<open>int.to_bytes\<close>, \<^verbatim>\<open>int.from_bytes\<close>, \<^verbatim>\<open>struct\<close>\<close>

fun be_bytes :: "nat \<Rightarrow> int \<Rightarrow> bytes" where
  "be_bytes 0 v = []"
| "be_bytes (Suc n) v = be_bytes n (v div 256) @ [word_of_int v]"

definition be_val :: "bytes \<Rightarrow> int" where
  "be_val bs = foldl (\<lambda>acc b. acc * 256 + uint b) 0 bs"

definition int_fits :: "nat \<Rightarrow> bool \<Rightarrow> int \<Rightarrow> bool" where
  "int_fits n sgnd v =
     (if sgnd then - (2 ^ (8 * n)) \<le> 2 * v \<and> 2 * v < 2 ^ (8 * n)
      else 0 \<le> v \<and> v < 2 ^ (8 * n))"

definition int_to_bytes :: "nat \<Rightarrow> bool \<Rightarrow> int \<Rightarrow> bytes result" where
  "int_to_bytes n sgnd v = (if int_fits n sgnd v then Inr (be_bytes n v) else Inl OverflowError)"

definition int_from_bytes :: "bool \<Rightarrow> bytes \<Rightarrow> int" where
  "int_from_bytes sgnd bs =
     (let u = be_val bs
      in if sgnd \<and> 2 ^ (8 * length bs) \<le> 2 * u then u - 2 ^ (8 * length bs) else u)"

text \<open>
  \<^verbatim>\<open>struct.pack\<close> and \<^verbatim>\<open>struct.unpack\<close> with one integer format of the network byte order, given by
  its size and signedness: \<^verbatim>\<open>!b\<close> is \<open>1 True\<close>, \<^verbatim>\<open>!B\<close> is \<open>1 False\<close>, \<^verbatim>\<open>!H\<close> is \<open>2 False\<close>, \<^verbatim>\<open>!I\<close> is
  \<open>4 False\<close>, \<^verbatim>\<open>!i\<close> is \<open>4 True\<close>, \<^verbatim>\<open>!q\<close> is \<open>8 True\<close>, \<^verbatim>\<open>!Q\<close> is \<open>8 False\<close>.
\<close>

definition struct_pack :: "nat \<Rightarrow> bool \<Rightarrow> int \<Rightarrow> bytes result" where
  "struct_pack n sgnd v = (if int_fits n sgnd v then Inr (be_bytes n v) else Inl StructError)"

definition struct_unpack :: "nat \<Rightarrow> bool \<Rightarrow> bytes \<Rightarrow> int result" where
  "struct_unpack n sgnd bs =
     (if length bs = n then Inr (int_from_bytes sgnd bs) else Inl StructError)"

lemma length_be_bytes [simp, byte_simps]: "length (be_bytes n v) = n"
  by (induction n arbitrary: v) auto

lemma be_val_Nil [simp, byte_simps]: "be_val [] = 0"
  by (simp add: be_val_def)

lemma be_val_snoc [simp, byte_simps]: "be_val (bs @ [b]) = be_val bs * 256 + uint b"
  by (simp add: be_val_def)

lemma uint_byte_of_int [byte_simps]: "uint (word_of_int v :: byte) = v mod 256"
  by (simp add: uint_word_of_int)

lemma uint_byte_range [simp]: "uint (b :: byte) < 256"
  using uint_lt2p [of b] by simp

lemma unat_byte_range [simp]: "unat (b :: byte) < 256"
  using unsigned_less [of b] by simp

lemma be_val_be_bytes [byte_simps]: "be_val (be_bytes n v) = v mod 2 ^ (8 * n)"
proof (induction n arbitrary: v)
  case 0
  then show ?case by simp
next
  case (Suc n)
  have "v mod (256 * 2 ^ (8 * n)) = 256 * (v div 256 mod 2 ^ (8 * n)) + v mod 256"
    by (rule zmod_zmult2_eq) simp
  then show ?case
    by (simp add: Suc.IH uint_byte_of_int power_add mult.commute)
qed

lemma be_val_nonneg [simp]: "0 \<le> be_val bs"
  by (induction bs rule: rev_induct) auto

lemma be_val_less: "be_val bs < 2 ^ (8 * length bs)"
proof (induction bs rule: rev_induct)
  case Nil
  then show ?case by simp
next
  case (snoc b bs)
  have "be_val bs * 256 + uint b < (be_val bs + 1) * 256"
    using uint_byte_range [of b] by simp
  also have "\<dots> \<le> 2 ^ (8 * length bs) * 256"
    using snoc.IH by (intro mult_right_mono) auto
  finally show ?case by (simp add: power_add)
qed

lemma be_bytes_be_val: "be_bytes (length bs) (be_val bs) = bs"
proof (induction bs rule: rev_induct)
  case Nil
  then show ?case by simp
next
  case (snoc b bs)
  have "(be_val bs * 256 + uint b) div 256 = be_val bs"
    using uint_byte_range [of b] by (simp add: div_add1_eq)
  moreover have "word_of_int (be_val bs * 256 + uint b) = b"
  proof (rule word_uint_eqI)
    show "uint (word_of_int (be_val bs * 256 + uint b) :: byte) = uint b"
      using uint_byte_range [of b] by (simp only: uint_byte_of_int) simp
  qed
  ultimately show ?case by (simp add: snoc.IH)
qed

lemma int_from_bytes_be_bytes:
  assumes "int_fits n sgnd v"
  shows "int_from_bytes sgnd (be_bytes n v) = v"
proof (cases "0 \<le> v")
  case True
  then have "v mod 2 ^ (8 * n) = v"
    using assms by (auto simp: int_fits_def split: if_splits)
  then show ?thesis
    using assms True by (auto simp: int_from_bytes_def be_val_be_bytes int_fits_def split: if_splits)
next
  case False
  then have s: "sgnd" and lo: "- (2 ^ (8 * n)) \<le> 2 * v"
    using assms by (auto simp: int_fits_def split: if_splits)
  have "v mod 2 ^ (8 * n) = (v + 2 ^ (8 * n)) mod 2 ^ (8 * n)" by simp
  also have "\<dots> = v + 2 ^ (8 * n)"
    using False lo by (intro mod_pos_pos_trivial) auto
  finally show ?thesis
    using s lo by (simp add: int_from_bytes_def be_val_be_bytes)
qed

lemma int_fits_int_from_bytes: "int_fits (length bs) sgnd (int_from_bytes sgnd bs)"
proof -
  have lo: "- (2 ^ (8 * length bs)) \<le> 2 * be_val bs"
    using be_val_nonneg [of bs] zero_le_power [of "2 :: int" "8 * length bs"] by linarith
  show ?thesis
    using be_val_less [of bs] be_val_nonneg [of bs]
    by (auto simp: int_fits_def int_from_bytes_def Let_def intro: lo)
qed

lemma be_bytes_int_from_bytes: "be_bytes (length bs) (int_from_bytes sgnd bs) = bs"
proof -
  have "be_val (be_bytes (length bs) (int_from_bytes sgnd bs)) = be_val bs"
  proof -
    have "(be_val bs - 2 ^ (8 * length bs)) mod 2 ^ (8 * length bs) = be_val bs mod 2 ^ (8 * length bs)"
      by simp
    moreover have "be_val bs mod 2 ^ (8 * length bs) = be_val bs"
      using be_val_less by (intro mod_pos_pos_trivial) auto
    ultimately show ?thesis
      by (simp only: be_val_be_bytes int_from_bytes_def Let_def split: if_split) auto
  qed
  then show ?thesis
    by (metis be_bytes_be_val length_be_bytes)
qed

lemma struct_unpack_pack:
  assumes "struct_pack n sgnd v = Inr bs"
  shows "struct_unpack n sgnd bs = Inr v"
  using assms
  by (auto simp: struct_pack_def struct_unpack_def int_from_bytes_be_bytes split: if_splits)

lemma be_bytes_Suc_Cons: "be_bytes (Suc n) v = word_of_int (v div 256 ^ n) # be_bytes n v"
proof (induction n arbitrary: v)
  case 0
  then show ?case by simp
next
  case (Suc n)
  have "be_bytes (Suc (Suc n)) v = be_bytes (Suc n) (v div 256) @ [word_of_int v]"
    by simp
  also have "\<dots> = (word_of_int (v div 256 div 256 ^ n) # be_bytes n (v div 256)) @ [word_of_int v]"
    by (simp only: Suc.IH)
  finally show ?case
    by (simp add: div_mult2_eq [symmetric] zdiv_zmult2_eq mult.commute)
qed

lemma int_from_bytes_single:
  "int_from_bytes True [word_of_int v] < 0 \<longleftrightarrow> 128 \<le> v mod 256"
proof -
  have "be_val [word_of_int v] = v mod 256"
    using be_val_snoc [of "[]" "word_of_int v"] by (simp add: uint_byte_of_int)
  then show ?thesis by (simp add: int_from_bytes_def Let_def not_less)
qed

lemma int_div_less:
  fixes v m k :: int
  assumes "0 < k" and "v < m * k"
  shows "v div k < m"
proof -
  have "v div k * k \<le> v"
    using div_mult_mod_eq [of v k] pos_mod_sign [OF assms(1), of v] by linarith
  then have "v div k * k < m * k"
    using assms(2) by linarith
  then show ?thesis
    using assms(1) by (simp add: mult_less_cancel_right)
qed

lemma int_le_div:
  fixes v m k :: int
  assumes "0 < k" and "m * k \<le> v"
  shows "m \<le> v div k"
  using zdiv_mono1 [OF assms(2,1)] assms(1) by simp

lemma neg_mod_256: "-128 \<le> q \<Longrightarrow> q < 0 \<Longrightarrow> 128 \<le> (q :: int) mod 256"
  by presburger

lemma first_byte_sign:
  assumes "int_fits (Suc n) True v"
  shows "int_from_bytes True (take 1 (be_bytes (Suc n) v @ rest)) < 0 \<longleftrightarrow> v < 0"
proof -
  have p: "(2 :: int) ^ (8 * Suc n) = 256 * 256 ^ n"
    by (simp add: power_add power_mult)
  have f: "- (128 * 256 ^ n) \<le> v" "v < 128 * 256 ^ n"
    using assms unfolding int_fits_def p if_True by linarith+
  have "(128 \<le> v div 256 ^ n mod 256) = (v < 0)"
  proof (cases "0 \<le> v")
    case True
    then have "0 \<le> v div 256 ^ n" "v div 256 ^ n < 128"
      using f by (auto intro: int_div_less simp: pos_imp_zdiv_nonneg_iff)
    then show ?thesis using True by simp
  next
    case False
    then have "-128 \<le> v div 256 ^ n" "v div 256 ^ n < 0"
      using f by (auto intro: int_le_div simp: pos_imp_zdiv_neg_iff)
    then show ?thesis using False neg_mod_256 by simp
  qed
  then show ?thesis
    by (simp add: be_bytes_Suc_Cons int_from_bytes_single del: be_bytes.simps)
qed

section \<open>List indexing\<close>

text \<open>\<^verbatim>\<open>xs[i]\<close>, with negative indexes counting from the end and \<^verbatim>\<open>IndexError\<close> out of range.\<close>

definition py_nth :: "'a list \<Rightarrow> int \<Rightarrow> 'a result" where
  "py_nth xs i =
     (let n = int (length xs) in
      if 0 \<le> i \<and> i < n then Inr (xs ! nat i)
      else if - n \<le> i \<and> i < 0 then Inr (xs ! nat (n + i))
      else Inl IndexError)"

end
