(* ===== verification/Serialization.thy ===== *)
theory Serialization
  imports Prelude
begin

text \<open>
  The byte-level (de)serializers of \<^verbatim>\<open>hathor/serialization\<close>: the in-memory \<^verbatim>\<open>BytesSerializer\<close> and
  \<^verbatim>\<open>BytesDeserializer\<close>, and the \<^verbatim>\<open>MaxBytes\<close> adapters stacked on them. A (de)serializer object is
  a value of a datatype with one constructor per concrete class; a method is a function that
  returns the updated object, or the exception. An adapter that raises is never used again (the
  source documents so), hence the state after an exception is not kept.

  The last section states the contracts of the two sides as locales: \<open>consuming\<close> for a decoder
  (it only advances the input) and \<open>codec\<close> for an encoder with its decoder.
\<close>

section \<open>Serializers\<close>

text \<open>\<open>BytesSerializer parts pos\<close> and \<open>MaxBytesSerializer inner bytes_left\<close>.\<close>

datatype serializer =
    BytesSerializer "bytes list" int
  | MaxBytesSerializer serializer int

definition build_bytes_serializer :: serializer where
  "build_bytes_serializer = BytesSerializer [] 0"

fun ser_finalize :: "serializer \<Rightarrow> bytes" where
  "ser_finalize (BytesSerializer parts pos) = concat parts"
| "ser_finalize (MaxBytesSerializer inner left) = ser_finalize inner"

fun cur_pos :: "serializer \<Rightarrow> int" where
  "cur_pos (BytesSerializer parts pos) = pos"
| "cur_pos (MaxBytesSerializer inner left) = cur_pos inner"

fun ser_check_update_exceeds :: "int \<Rightarrow> int \<Rightarrow> int result" where
  "ser_check_update_exceeds left write_size =
     (if left - write_size < 0 then Inl MaxBytesExceededError else Inr (left - write_size))"

fun write_byte :: "serializer \<Rightarrow> int \<Rightarrow> serializer result" where
  "write_byte (BytesSerializer parts pos) data =
     bindE (int_to_bytes 1 False data) (\<lambda>bs. Inr (BytesSerializer (parts @ [bs]) (pos + 1)))"
| "write_byte (MaxBytesSerializer inner left) data =
     bindE (ser_check_update_exceeds left 1) (\<lambda>left'.
     bindE (write_byte inner data) (\<lambda>inner'. Inr (MaxBytesSerializer inner' left')))"

fun write_bytes :: "serializer \<Rightarrow> bytes \<Rightarrow> serializer result" where
  "write_bytes (BytesSerializer parts pos) data =
     Inr (BytesSerializer (parts @ [data]) (pos + int (length data)))"
| "write_bytes (MaxBytesSerializer inner left) data =
     bindE (ser_check_update_exceeds left (int (length data))) (\<lambda>left'.
     bindE (write_bytes inner data) (\<lambda>inner'. Inr (MaxBytesSerializer inner' left')))"

definition write_struct :: "serializer \<Rightarrow> nat \<Rightarrow> bool \<Rightarrow> int \<Rightarrow> serializer result" where
  "write_struct s sz sgnd v = bindE (struct_pack sz sgnd v) (\<lambda>bs. write_bytes s bs)"

definition ser_with_max_bytes :: "serializer \<Rightarrow> int \<Rightarrow> serializer" where
  "ser_with_max_bytes s max_bytes = MaxBytesSerializer s max_bytes"

definition ser_with_optional_max_bytes :: "serializer \<Rightarrow> int option \<Rightarrow> serializer" where
  "ser_with_optional_max_bytes s max_bytes =
     (case max_bytes of None \<Rightarrow> s | Some m \<Rightarrow> ser_with_max_bytes s m)"

section \<open>Deserializers\<close>

text \<open>\<open>BytesDeserializer view\<close> and \<open>MaxBytesDeserializer inner bytes_left\<close>.\<close>

datatype deserializer =
    BytesDeserializer bytes
  | MaxBytesDeserializer deserializer int

definition build_bytes_deserializer :: "bytes \<Rightarrow> deserializer" where
  "build_bytes_deserializer data = BytesDeserializer data"

fun is_empty :: "deserializer \<Rightarrow> bool" where
  "is_empty (BytesDeserializer view) = (view = [])"
| "is_empty (MaxBytesDeserializer inner left) = is_empty inner"

fun des_finalize :: "deserializer \<Rightarrow> unit result" where
  "des_finalize (BytesDeserializer view) =
     (if \<not> is_empty (BytesDeserializer view) then Inl ValueError else Inr ())"
| "des_finalize (MaxBytesDeserializer inner left) = des_finalize inner"

fun peek_byte :: "deserializer \<Rightarrow> byte result" where
  "peek_byte (BytesDeserializer view) = (case view of [] \<Rightarrow> Inl OutOfDataError | b # _ \<Rightarrow> Inr b)"
| "peek_byte (MaxBytesDeserializer inner left) = peek_byte inner"

fun peek_bytes :: "deserializer \<Rightarrow> int \<Rightarrow> bool \<Rightarrow> bytes result" where
  "peek_bytes (BytesDeserializer view) n exact =
     (if n < 0 then Inl ValueError
      else if exact \<and> int (length view) < n then Inl OutOfDataError
      else Inr (take (nat n) view))"
| "peek_bytes (MaxBytesDeserializer inner left) n exact = peek_bytes inner n exact"

fun des_check_update_exceeds :: "int \<Rightarrow> int \<Rightarrow> int result" where
  "des_check_update_exceeds left read_size =
     (if left - read_size < 0 then Inl MaxBytesExceededError else Inr (left - read_size))"

fun read_byte :: "deserializer \<Rightarrow> (byte \<times> deserializer) result" where
  "read_byte (BytesDeserializer view) =
     bindE (peek_byte (BytesDeserializer view)) (\<lambda>b. Inr (b, BytesDeserializer (drop 1 view)))"
| "read_byte (MaxBytesDeserializer inner left) =
     bindE (des_check_update_exceeds left 1) (\<lambda>left'.
     bindE (read_byte inner) (\<lambda>(b, inner'). Inr (b, MaxBytesDeserializer inner' left')))"

fun read_bytes :: "deserializer \<Rightarrow> int \<Rightarrow> bool \<Rightarrow> (bytes \<times> deserializer) result" where
  "read_bytes (BytesDeserializer view) n exact =
     bindE (peek_bytes (BytesDeserializer view) n exact) (\<lambda>b.
       if exact \<and> int (length view) < n then Inl OutOfDataError
       else Inr (b, BytesDeserializer (drop (nat n) view)))"
| "read_bytes (MaxBytesDeserializer inner left) n exact =
     bindE (des_check_update_exceeds left n) (\<lambda>left'.
     bindE (read_bytes inner n exact) (\<lambda>(b, inner'). Inr (b, MaxBytesDeserializer inner' left')))"

fun read_all :: "deserializer \<Rightarrow> (bytes \<times> deserializer) result" where
  "read_all (BytesDeserializer view) = Inr (view, BytesDeserializer [])"
| "read_all (MaxBytesDeserializer inner left) =
     bindE (read_bytes inner left False) (\<lambda>(b, inner').
       if \<not> is_empty inner' then Inl MaxBytesExceededError
       else Inr (b, MaxBytesDeserializer inner' left))"

definition peek_struct :: "deserializer \<Rightarrow> nat \<Rightarrow> bool \<Rightarrow> int result" where
  "peek_struct d sz sgnd = bindE (peek_bytes d (int sz) True) (\<lambda>bs. struct_unpack sz sgnd bs)"

text \<open>
  \<^verbatim>\<open>read_struct\<close> uses \<^verbatim>\<open>unpack_from\<close>, which differs from \<^verbatim>\<open>unpack\<close> only on a buffer longer than the
  format; \<^verbatim>\<open>read_bytes(size)\<close> returns exactly \<open>size\<close> bytes.
\<close>

definition read_struct :: "deserializer \<Rightarrow> nat \<Rightarrow> bool \<Rightarrow> (int \<times> deserializer) result" where
  "read_struct d sz sgnd =
     bindE (read_bytes d (int sz) True) (\<lambda>(bs, d').
     bindE (struct_unpack sz sgnd (take sz bs)) (\<lambda>v. Inr (v, d')))"

definition des_with_max_bytes :: "deserializer \<Rightarrow> int \<Rightarrow> deserializer" where
  "des_with_max_bytes d max_bytes = MaxBytesDeserializer d max_bytes"

definition des_with_optional_max_bytes :: "deserializer \<Rightarrow> int option \<Rightarrow> deserializer" where
  "des_with_optional_max_bytes d max_bytes =
     (case max_bytes of None \<Rightarrow> d | Some m \<Rightarrow> des_with_max_bytes d m)"

section \<open>What a serializer has written, what a deserializer has left\<close>

text \<open>
  \<open>wrote s bs s'\<close>: \<open>s'\<close> is \<open>s\<close> after exactly the bytes \<open>bs\<close> were emitted. \<open>allows n s\<close>: no adapter
  of \<open>s\<close> objects to \<open>n\<close> more bytes.
\<close>

fun ser_inv :: "serializer \<Rightarrow> bool" where
  "ser_inv (BytesSerializer parts pos) = (pos = int (length (concat parts)))"
| "ser_inv (MaxBytesSerializer inner left) = (ser_inv inner \<and> 0 \<le> left)"

fun allows :: "nat \<Rightarrow> serializer \<Rightarrow> bool" where
  "allows n (BytesSerializer parts pos) = True"
| "allows n (MaxBytesSerializer inner left) = (allows n inner \<and> int n \<le> left)"

fun wrote :: "serializer \<Rightarrow> bytes \<Rightarrow> serializer \<Rightarrow> bool" where
  "wrote (BytesSerializer parts pos) bs s' =
     (\<exists>parts'. s' = BytesSerializer parts' (pos + int (length bs)) \<and> concat parts' = concat parts @ bs)"
| "wrote (MaxBytesSerializer inner left) bs s' =
     (\<exists>inner'. s' = MaxBytesSerializer inner' (left - int (length bs)) \<and> wrote inner bs inner')"

text \<open>
  \<open>remaining d\<close> are the unread bytes, \<open>within n d\<close> says no adapter objects to reading \<open>n\<close> more, and
  \<open>advance n d\<close> is \<open>d\<close> after \<open>n\<close> bytes were read.
\<close>

fun remaining :: "deserializer \<Rightarrow> bytes" where
  "remaining (BytesDeserializer view) = view"
| "remaining (MaxBytesDeserializer inner left) = remaining inner"

fun within :: "nat \<Rightarrow> deserializer \<Rightarrow> bool" where
  "within n (BytesDeserializer view) = True"
| "within n (MaxBytesDeserializer inner left) = (within n inner \<and> int n \<le> left)"

fun advance :: "nat \<Rightarrow> deserializer \<Rightarrow> deserializer" where
  "advance n (BytesDeserializer view) = BytesDeserializer (drop n view)"
| "advance n (MaxBytesDeserializer inner left) =
     MaxBytesDeserializer (advance n inner) (left - int n)"

lemma wrote_Nil [simp]: "wrote s [] s"
  by (induction s) auto

lemma wrote_trans: "wrote s bs t \<Longrightarrow> wrote t cs u \<Longrightarrow> wrote s (bs @ cs) u"
  by (induction s arbitrary: t u) (fastforce simp: algebra_simps)+

lemma allows_mono: "allows n s \<Longrightarrow> m \<le> n \<Longrightarrow> allows m s"
  by (induction s) auto

lemma wrote_allows: "wrote s bs t \<Longrightarrow> allows (length bs + n) s \<Longrightarrow> allows n t"
  by (induction s arbitrary: t) auto

lemma wrote_finalize: "wrote s bs t \<Longrightarrow> ser_finalize t = ser_finalize s @ bs"
  by (induction s arbitrary: t) auto

lemma wrote_cur_pos: "wrote s bs t \<Longrightarrow> cur_pos t = cur_pos s + int (length bs)"
  by (induction s arbitrary: t) auto

lemma wrote_ser_inv: "wrote s bs t \<Longrightarrow> ser_inv s \<Longrightarrow> allows (length bs) s \<Longrightarrow> ser_inv t"
  by (induction s arbitrary: t) auto

lemma ser_inv_cur_pos: "ser_inv s \<Longrightarrow> cur_pos s = int (length (ser_finalize s))"
  by (induction s) auto

lemma ser_inv_allows_0: "ser_inv s \<Longrightarrow> allows 0 s"
  by (induction s) auto

lemma write_bytes_ok:
  "allows (length bs) s \<Longrightarrow> \<exists>t. write_bytes s bs = Inr t \<and> wrote s bs t"
  by (induction s) auto

lemma write_bytes_wrote: "write_bytes s bs = Inr t \<Longrightarrow> wrote s bs t \<and> allows (length bs) s"
  by (induction s arbitrary: t) (auto simp: result_simps split: if_splits)

lemma be_bytes_1: "be_bytes 1 v = [word_of_int v]"
  by (simp add: numeral_eq_Suc)

lemma write_byte_ok:
  "allows 1 s \<Longrightarrow> 0 \<le> v \<Longrightarrow> v < 256 \<Longrightarrow>
     \<exists>t. write_byte s v = Inr t \<and> wrote s [word_of_int v] t"
  by (induction s) (auto simp: int_to_bytes_def int_fits_def be_bytes_1)

lemma write_byte_wrote:
  "write_byte s v = Inr t \<Longrightarrow> wrote s [word_of_int v] t \<and> allows 1 s"
  by (induction s arbitrary: t)
    (auto simp: result_simps int_to_bytes_def int_fits_def be_bytes_1 split: if_splits)

lemma write_byte_too_long:
  "ser_inv s \<Longrightarrow> \<not> allows 1 s \<Longrightarrow> 0 \<le> v \<Longrightarrow> v < 256 \<Longrightarrow>
     write_byte s v = Inl MaxBytesExceededError"
  by (induction s) (auto simp: result_simps)

lemma write_bytes_too_long:
  "\<not> allows (length bs) s \<Longrightarrow> write_bytes s bs = Inl MaxBytesExceededError"
  by (induction s) (auto simp: result_simps)

lemma remaining_advance [simp]: "remaining (advance n d) = drop n (remaining d)"
  by (induction d) auto

lemma advance_0 [simp]: "advance 0 d = d"
  by (induction d) auto

lemma advance_advance [simp]: "advance m (advance n d) = advance (n + m) d"
  by (induction d) (auto simp: add.commute)

lemma within_advance: "within (n + m) d \<Longrightarrow> within m (advance n d)"
  by (induction d) auto

lemma within_advance_iff: "within n d \<Longrightarrow> within m (advance n d) \<longleftrightarrow> within (n + m) d"
  by (induction d) auto

lemma within_mono: "within n d \<Longrightarrow> m \<le> n \<Longrightarrow> within m d"
  by (induction d) auto

lemma is_empty_remaining: "is_empty d \<longleftrightarrow> remaining d = []"
  by (induction d) auto

lemma peek_byte_remaining:
  "peek_byte d = (case remaining d of [] \<Rightarrow> Inl OutOfDataError | b # _ \<Rightarrow> Inr b)"
  by (induction d) auto

lemma peek_bytes_remaining:
  "peek_bytes d n exact =
     (if n < 0 then Inl ValueError
      else if exact \<and> int (length (remaining d)) < n then Inl OutOfDataError
      else Inr (take (nat n) (remaining d)))"
  by (induction d) auto

text \<open>The two readers, characterised by the abstraction.\<close>

lemma read_byte_ok: "within 1 d \<Longrightarrow> remaining d = b # rest \<Longrightarrow> read_byte d = Inr (b, advance 1 d)"
  by (induction d) auto

lemma read_byte_Inr:
  "read_byte d = Inr (b, d') \<Longrightarrow>
     within 1 d \<and> (\<exists>rest. remaining d = b # rest) \<and> d' = advance 1 d"
  by (induction d arbitrary: d')
    (auto simp: result_simps split: if_splits list.splits)

lemma read_bytes_ok:
  "within n d \<Longrightarrow> n \<le> length (remaining d) \<Longrightarrow>
     read_bytes d (int n) exact = Inr (take n (remaining d), advance n d)"
  by (induction d) auto

lemma read_bytes_Inr:
  "read_bytes d n True = Inr (bs, d') \<Longrightarrow>
     0 \<le> n \<and> within (nat n) d \<and> nat n \<le> length (remaining d) \<and>
     bs = take (nat n) (remaining d) \<and> d' = advance (nat n) d"
  by (induction d arbitrary: d') (auto simp: result_simps split: if_splits)

lemma read_struct_ok:
  assumes "within n d" and "remaining d = bs @ rest" and "length bs = n"
  shows "read_struct d n sgnd = Inr (int_from_bytes sgnd bs, advance n d)"
proof -
  have "read_bytes d (int n) True = Inr (bs, advance n d)"
    using assms by (simp add: read_bytes_ok)
  then show ?thesis
    using assms(3) by (simp add: read_struct_def struct_unpack_def)
qed

section \<open>Contracts of decoders and codecs\<close>

text \<open>
  A decoder only moves forward, by a number of bytes that the input has and that every adapter
  allows.
\<close>

definition consumed :: "nat \<Rightarrow> deserializer \<Rightarrow> deserializer \<Rightarrow> bool" where
  "consumed n d d' \<longleftrightarrow> n \<le> length (remaining d) \<and> (n = 0 \<or> within n d) \<and> d' = advance n d"

locale consuming =
  fixes dec :: "deserializer \<Rightarrow> ('a \<times> deserializer) result"
  assumes consumes: "dec d = Inr (v, d') \<Longrightarrow> \<exists>n. consumed n d d'"
begin

lemma suffix_left: "dec d = Inr (v, d') \<Longrightarrow> \<exists>n. remaining d' = drop n (remaining d)"
  using consumes by (fastforce simp: consumed_def)

lemma max_bytes_respected:
  assumes "dec (MaxBytesDeserializer d m) = Inr (v, d')" and "0 \<le> m"
  shows "int (length (remaining d)) - int (length (remaining d')) \<le> m"
  using consumes [OF assms(1)] assms(2) by (auto simp: consumed_def)

end

lemma consumed_0 [simp]: "consumed 0 d d"
  by (simp add: consumed_def)

lemma consumed_trans:
  assumes "consumed m d d1" and "consumed n d1 d2"
  shows "consumed (m + n) d d2"
proof (cases "m = 0 \<or> n = 0")
  case True
  then show ?thesis using assms by (auto simp: consumed_def)
next
  case False
  then have m: "m \<le> length (remaining d)" "within m d" "d1 = advance m d"
    and n: "n \<le> length (remaining d1)" "within n d1" "d2 = advance n d1"
    using assms by (auto simp: consumed_def)
  then have "within (m + n) d"
    by (simp add: within_advance_iff)
  then show ?thesis using m n by (simp add: consumed_def)
qed

lemma consumed_read_byte: "read_byte d = Inr (b, d') \<Longrightarrow> consumed 1 d d'"
  by (auto simp: consumed_def dest!: read_byte_Inr)

lemma consumed_read_bytes: "read_bytes d n True = Inr (bs, d') \<Longrightarrow> consumed (nat n) d d'"
  by (auto simp: consumed_def dest!: read_bytes_Inr)

text \<open>The contract of a decoder is closed under sequencing, so compound decoders inherit it.\<close>

lemma consuming_bind:
  assumes "consuming dec1" and "\<And>v. consuming (dec2 v)"
  shows "consuming (\<lambda>d. bindE (dec1 d) (\<lambda>(v, d'). dec2 v d'))"
proof
  fix d w d'
  assume "bindE (dec1 d) (\<lambda>(v, d1). dec2 v d1) = Inr (w, d')"
  then obtain v d1 where d1: "dec1 d = Inr (v, d1)" and d2: "dec2 v d1 = Inr (w, d')"
    by (auto simp: result_simps)
  then show "\<exists>k. consumed k d d'"
    using consuming.consumes [OF assms(1) d1] consuming.consumes [OF assms(2) d2]
    by (blast intro: consumed_trans)
qed

lemma consuming_return: "consuming (\<lambda>d. Inr (v, d))"
  by unfold_locales (auto intro: exI [of _ 0])

lemma consuming_raise: "consuming (\<lambda>d. Inl e)"
  by unfold_locales simp

lemma consuming_read_byte: "consuming read_byte"
  by unfold_locales (blast intro: consumed_read_byte)

lemma consuming_read_bytes: "consuming (\<lambda>d. read_bytes d n True)"
  by unfold_locales (blast intro: consumed_read_bytes)

text \<open>
  A codec: on the valid values the encoder emits a fixed image and the decoder reads that image
  back, whatever follows it and whatever adapters are stacked below, as long as they have room.
\<close>

locale codec =
  fixes enc :: "serializer \<Rightarrow> 'a \<Rightarrow> serializer result"
    and dec :: "deserializer \<Rightarrow> ('a \<times> deserializer) result"
    and img :: "'a \<Rightarrow> bytes"
    and valid :: "'a \<Rightarrow> bool"
  assumes enc_ok: "valid v \<Longrightarrow> allows (length (img v)) s \<Longrightarrow> \<exists>t. enc s v = Inr t \<and> wrote s (img v) t"
    and dec_ok: "valid v \<Longrightarrow> within (length (img v)) d \<Longrightarrow> remaining d = img v @ rest \<Longrightarrow>
      dec d = Inr (v, advance (length (img v)) d)"
begin

lemma round_trip:
  assumes "valid v"
  shows "\<exists>t. enc build_bytes_serializer v = Inr t \<and>
    dec (build_bytes_deserializer (ser_finalize t @ rest)) = Inr (v, BytesDeserializer rest)"
proof -
  from enc_ok [OF assms, of build_bytes_serializer] obtain t
    where t: "enc build_bytes_serializer v = Inr t" "wrote build_bytes_serializer (img v) t"
    by (auto simp: build_bytes_serializer_def)
  then have "ser_finalize t = img v"
    by (auto dest: wrote_finalize simp: build_bytes_serializer_def)
  with t(1) show ?thesis
    using dec_ok [OF assms, of "BytesDeserializer (img v @ rest)" rest]
    by (simp add: build_bytes_deserializer_def)
qed

lemma prefix_free:
  assumes "valid v" and "valid w" and "img v @ xs = img w @ ys"
  shows "v = w \<and> xs = ys"
proof -
  have "dec (BytesDeserializer (img v @ xs)) = Inr (v, BytesDeserializer xs)"
    using dec_ok [OF assms(1), of "BytesDeserializer (img v @ xs)" xs] by simp
  moreover have "dec (BytesDeserializer (img v @ xs)) = Inr (w, BytesDeserializer ys)"
    using dec_ok [OF assms(2), of "BytesDeserializer (img w @ ys)" ys] assms(3) by simp
  ultimately show ?thesis by simp
qed

lemma img_inject: "valid v \<Longrightarrow> valid w \<Longrightarrow> img v = img w \<Longrightarrow> v = w"
  using prefix_free [of v w "[]" "[]"] by simp

lemma enc_finalize:
  assumes "valid v" and "enc build_bytes_serializer v = Inr t"
  shows "ser_finalize t = img v"
  using enc_ok [OF assms(1), of build_bytes_serializer] assms(2)
  by (auto dest: wrote_finalize simp: build_bytes_serializer_def)

end

lemma enc_seq:
  assumes "\<exists>t. m = Inr t \<and> wrote s xs t"
    and "\<And>t. wrote s xs t \<Longrightarrow> \<exists>u. f t = Inr u \<and> wrote t ys u"
  shows "\<exists>u. bindE m f = Inr u \<and> wrote s (xs @ ys) u"
  using assms by (fastforce intro: wrote_trans)

end
