(* ===== verification/Encodings.thy ===== *)
theory Encodings
  imports Serialization
begin

text \<open>
  The simple encodings of \<^verbatim>\<open>hathor/serialization/encoding\<close>: LEB128 integers, fixed-size integers,
  booleans, length-prefixed byte strings, UTF-8 strings and the 4-or-8-byte output values; and the
  \<^verbatim>\<open>hathor/utils/leb128.py\<close> wrappers. Each pair is shown to be a \<open>codec\<close>, each decoder \<open>consuming\<close>.
\<close>

unbundle bit_operations_syntax

section \<open>LEB128\<close>

text \<open>
  \<^verbatim>\<open>encode_leb128\<close> loops while it emits continuation bytes; the recursion is that loop. The sign test
  of the first line is part of every round, where it cannot fire again: \<open>value >> 7\<close> keeps the sign.
\<close>

lemma drop_bit_7: "drop_bit 7 (v :: int) = v div 128"
  by (simp add: drop_bit_eq_div)

lemma and_127: "(v :: int) AND 127 = v mod 128"
  using take_bit_eq_mask [of 7 v] by (simp add: take_bit_eq_mod mask_eq_exp_minus_1)

function encode_leb128 :: "bool \<Rightarrow> serializer \<Rightarrow> int \<Rightarrow> serializer result" where
  "encode_leb128 sgnd s v =
     (if \<not> sgnd \<and> v < 0 then Inl ValueError
      else
        (let byte = v AND 127;
             value = drop_bit 7 v;
             cont = (if sgnd
                     then (value = 0 \<and> byte AND 64 = 0) \<or> (value = -1 \<and> byte AND 64 \<noteq> 0)
                     else value = 0 \<and> byte AND 128 = 0)
         in if cont then write_byte s byte
            else bindE (write_byte s (byte OR 128)) (\<lambda>s'. encode_leb128 sgnd s' value)))"
  by pat_completeness auto
termination
proof (relation "measure (\<lambda>(sgnd, s, v). nat \<bar>v\<bar>)", goal_cases)
  case 1
  then show ?case by simp
next
  case (2 sgnd s v byte val cont s1)
  have "v \<noteq> 0"
  proof
    assume "v = 0"
    with 2 show False by (cases sgnd) simp_all
  qed
  moreover have "v \<noteq> -1"
  proof
    assume "v = -1"
    with 2 show False by (cases sgnd) simp_all
  qed
  ultimately show ?case
    using 2(3) by (auto simp: drop_bit_7)
qed

declare encode_leb128.simps [simp del]

lemma or_push_bit:
  fixes r x :: int
  assumes "0 \<le> r" and "r < 2 ^ n"
  shows "r OR push_bit n x = r + x * 2 ^ n"
proof -
  have t: "take_bit n r = r"
    using assms by (simp add: take_bit_int_eq_self_iff)
  have "\<not> bit r k \<or> \<not> bit (push_bit n x) k" for k
    by (subst t [symmetric]) (auto simp: bit_take_bit_iff bit_push_bit_iff_int)
  then have "r + push_bit n x = r OR push_bit n x"
    by (rule disjunctive_add)
  then show ?thesis by (simp add: push_bit_eq_mult)
qed

lemma and_pow2: "((v :: int) AND 2 ^ n = 0) = (v mod (2 ^ n * 2) < 2 ^ n)"
proof -
  have m: "v mod (2 ^ n * 2) = 2 ^ n * (v div 2 ^ n mod 2) + v mod 2 ^ n"
    by (rule zmod_zmult2_eq) simp
  show ?thesis
  proof (cases "even (v div 2 ^ n)")
    case True
    then show ?thesis
      using m by (simp add: and_exp_eq_0_iff_not_bit bit_iff_odd)
  next
    case False
    then show ?thesis
      using m by (simp add: and_exp_eq_0_iff_not_bit bit_iff_odd odd_iff_mod_2_eq_one not_less)
  qed
qed

lemma and_64: "((v :: int) AND 64 = 0) = (v mod 128 < 64)"
  using and_pow2 [of v 6] by simp

lemma and_128: "((v :: int) AND 128 = 0) = (v mod 256 < 128)"
  using and_pow2 [of v 7] by simp

lemma or_128: "0 \<le> v \<Longrightarrow> v < 128 \<Longrightarrow> (v :: int) OR 128 = v + 128"
  using or_push_bit [of v 7 1] by simp

lemma or_128_mod: "(v :: int) mod 128 OR 128 = v mod 128 + 128"
  by (simp add: or_128)

lemmas bits_arith = drop_bit_7 and_127 and_64 and_128 or_128_mod

text \<open>The decoder's loop; every round reads a byte, so the unread input shrinks.\<close>

function decode_leb128_loop ::
  "bool \<Rightarrow> int \<Rightarrow> nat \<Rightarrow> deserializer \<Rightarrow> (int \<times> deserializer) result" where
  "decode_leb128_loop sgnd acc shift d =
     bindE (read_byte d) (\<lambda>(b, d').
       let byte = uint b;
           acc' = acc OR push_bit shift (byte AND 127);
           shift' = shift + 7
       in if shift' mod 7 \<noteq> 0 then Inl AssertionError
          else if byte AND 128 = 0 then
            (if sgnd \<and> byte AND 64 \<noteq> 0 then Inr (acc' OR - push_bit shift' 1, d')
             else Inr (acc', d'))
          else decode_leb128_loop sgnd acc' shift' d')"
  by pat_completeness auto
termination
  by (relation "measure (\<lambda>(sgnd, acc, shift, d). length (remaining d))")
    (auto dest!: read_byte_Inr)

declare decode_leb128_loop.simps [simp del]

definition decode_leb128 :: "bool \<Rightarrow> deserializer \<Rightarrow> (int \<times> deserializer) result" where
  "decode_leb128 sgnd d = decode_leb128_loop sgnd 0 0 d"

subsection \<open>The encoded form, arithmetically\<close>

definition leb128_last :: "bool \<Rightarrow> int \<Rightarrow> bool" where
  "leb128_last sgnd v = (if sgnd then -64 \<le> v \<and> v < 64 else v < 128)"

definition leb128_valid :: "bool \<Rightarrow> int \<Rightarrow> bool" where
  "leb128_valid sgnd v = (sgnd \<or> 0 \<le> v)"

function leb128_img :: "bool \<Rightarrow> int \<Rightarrow> bytes" where
  "leb128_img sgnd v =
     (if leb128_last sgnd v then [word_of_int (v mod 128)]
      else word_of_int (v mod 128 + 128) # leb128_img sgnd (v div 128))"
  by pat_completeness auto
termination
  by (relation "measure (\<lambda>(sgnd, v). nat \<bar>v\<bar>)") (auto simp: leb128_last_def split: if_splits)

declare leb128_img.simps [simp del]

lemma leb128_valid_div: "leb128_valid sgnd v \<Longrightarrow> leb128_valid sgnd (v div 128)"
  by (auto simp: leb128_valid_def pos_imp_zdiv_nonneg_iff)

lemma signed_last_iff:
  fixes v :: int
  shows "(v div 128 = 0 \<and> v mod 128 < 64 \<or> v div 128 = -1 \<and> 64 \<le> v mod 128) \<longleftrightarrow> -64 \<le> v \<and> v < 64"
  by presburger

lemma unsigned_last_iff: "0 \<le> v \<Longrightarrow> (v :: int) div 128 = 0 \<longleftrightarrow> v < 128"
  by presburger

lemma encode_leb128_step:
  assumes "leb128_valid sgnd v"
  shows "encode_leb128 sgnd s v =
    (if leb128_last sgnd v then write_byte s (v mod 128)
     else bindE (write_byte s (v mod 128 + 128)) (\<lambda>s'. encode_leb128 sgnd s' (v div 128)))"
proof (cases sgnd)
  case True
  have "encode_leb128 sgnd s v =
    (if v div 128 = 0 \<and> v mod 128 < 64 \<or> v div 128 = -1 \<and> 64 \<le> v mod 128
     then write_byte s (v mod 128)
     else bindE (write_byte s (v mod 128 + 128)) (\<lambda>s'. encode_leb128 sgnd s' (v div 128)))"
    using True by (subst encode_leb128.simps) 
      (simp only: Let_def bits_arith not_less simp_thms if_True if_False mod_mod_trivial)
  then show ?thesis
    using True by (simp only: signed_last_iff leb128_last_def if_True)
next
  case False
  with assms have "0 \<le> v" by (simp add: leb128_valid_def)
  moreover have "v mod 128 mod 256 < 128"
    using pos_mod_bound [of 128 v] pos_mod_sign [of 128 v] by simp
  ultimately show ?thesis
    using False
    by (subst encode_leb128.simps) (simp add: Let_def bits_arith leb128_last_def unsigned_last_iff)
qed

lemma encode_leb128_ok:
  assumes "leb128_valid sgnd v" and "allows (length (leb128_img sgnd v)) s"
  shows "\<exists>t. encode_leb128 sgnd s v = Inr t \<and> wrote s (leb128_img sgnd v) t"
  using assms
proof (induction sgnd v arbitrary: s rule: leb128_img.induct)
  case (1 sgnd v)
  show ?case
  proof (cases "leb128_last sgnd v")
    case True
    then show ?thesis
      using 1(2,3) write_byte_ok [of s "v mod 128"]
      by (simp add: encode_leb128_step leb128_img.simps [of sgnd v])
  next
    case False
    let ?b = "word_of_int (v mod 128 + 128) :: byte"
    have room: "allows (length [?b] + length (leb128_img sgnd (v div 128))) s"
      using 1(3) False by (simp add: leb128_img.simps [of sgnd v])
    have m: "v mod 128 + 128 < 256" by (simp add: algebra_simps)
    have "\<exists>u. bindE (write_byte s (v mod 128 + 128)) (\<lambda>t. encode_leb128 sgnd t (v div 128)) = Inr u \<and>
      wrote s ([?b] @ leb128_img sgnd (v div 128)) u"
    proof (rule enc_seq)
      show "\<exists>t. write_byte s (v mod 128 + 128) = Inr t \<and> wrote s [?b] t"
        using room m by (intro write_byte_ok) (auto elim: allows_mono)
    next
      fix t assume "wrote s [?b] t"
      then show "\<exists>u. encode_leb128 sgnd t (v div 128) = Inr u \<and> wrote t (leb128_img sgnd (v div 128)) u"
        using 1(1) [OF False leb128_valid_div [OF 1(2)]] room by (blast intro: wrote_allows)
    qed
    then show ?thesis
      using False 1(2) by (simp add: encode_leb128_step leb128_img.simps [of sgnd v])
  qed
qed

lemma mod_128_byte: "0 \<le> x \<Longrightarrow> x < 256 \<Longrightarrow> (x :: int) mod 128 = (if x < 128 then x else x - 128)"
  by presburger

lemma decode_leb128_step:
  assumes "read_byte d = Inr (b, d')" and "0 \<le> acc" and "acc < 2 ^ shift" and "shift mod 7 = 0"
  shows "decode_leb128_loop sgnd acc shift d =
    (if uint b < 128 then
       Inr (acc + (if sgnd \<and> 64 \<le> uint b then uint b - 128 else uint b) * 2 ^ shift, d')
     else decode_leb128_loop sgnd (acc + (uint b - 128) * 2 ^ shift) (shift + 7) d')"
proof -
  let ?m = "uint b mod 128"
  have b: "0 \<le> uint b" "uint b < 256" by simp_all
  have acc': "acc OR push_bit shift ?m = acc + ?m * 2 ^ shift"
    using assms(2,3) by (rule or_push_bit)
  have "acc + ?m * 2 ^ shift < (?m + 1) * 2 ^ shift"
    using assms(3) by (simp add: algebra_simps)
  also have "\<dots> \<le> 128 * 2 ^ shift"
    by (intro mult_right_mono) (simp_all add: add1_zle_eq)
  finally have bound: "acc + ?m * 2 ^ shift < 2 ^ (shift + 7)"
    by (simp add: power_add)
  have nonneg: "0 \<le> acc + ?m * 2 ^ shift"
    using assms(2) by simp
  have neg: "(acc + ?m * 2 ^ shift) OR - push_bit (shift + 7) 1 = acc + ?m * 2 ^ shift - 2 ^ (shift + 7)"
    using or_push_bit [OF nonneg bound, of "-1"] by (simp add: push_bit_eq_mult)
  have m: "?m = (if uint b < 128 then uint b else uint b - 128)"
    using b by (rule mod_128_byte)
  have s7: "(shift + 7) mod 7 = 0" using assms(4) by simp
  have "decode_leb128_loop sgnd acc shift d =
    (if uint b AND 128 = 0 then
       (if sgnd \<and> uint b AND 64 \<noteq> 0 then Inr (acc + ?m * 2 ^ shift - 2 ^ (shift + 7), d')
        else Inr (acc + ?m * 2 ^ shift, d'))
     else decode_leb128_loop sgnd (acc + ?m * 2 ^ shift) (shift + 7) d')"
    by (subst decode_leb128_loop.simps)
      (simp only: assms(1) bindE_Inr prod.case Let_def and_127 acc' neg s7 simp_thms if_False)
  then show ?thesis
    using m b by (auto simp: and_64 and_128 power_add algebra_simps)
qed

lemma decode_leb128_loop_ok:
  assumes "leb128_valid sgnd v" and "0 \<le> acc" and "acc < 2 ^ shift" and "shift mod 7 = 0"
    and "within (length (leb128_img sgnd v)) d" and "remaining d = leb128_img sgnd v @ rest"
  shows "decode_leb128_loop sgnd acc shift d =
    Inr (acc + v * 2 ^ shift, advance (length (leb128_img sgnd v)) d)"
  using assms
proof (induction sgnd v arbitrary: acc shift d rule: leb128_img.induct)
  case (1 sgnd v)
  note prems = 1(2-)
  show ?case
  proof (cases "leb128_last sgnd v")
    case True
    let ?b = "word_of_int (v mod 128) :: byte"
    have "read_byte d = Inr (?b, advance 1 d)"
      using prems(5,6) True by (intro read_byte_ok) (auto simp: leb128_img.simps [of sgnd v])
    moreover have "uint ?b = v mod 128"
      by (simp add: uint_byte_of_int)
    moreover have "(if sgnd \<and> 64 \<le> v mod 128 then v mod 128 - 128 else v mod 128) = v"
      using True prems(1) by (auto simp: leb128_last_def leb128_valid_def split: if_splits) presburger+
    ultimately show ?thesis
      using True prems(2-4)
      by (auto simp: decode_leb128_step leb128_img.simps [of sgnd v] split: if_splits)
  next
    case False
    let ?b = "word_of_int (v mod 128 + 128) :: byte"
    let ?n = "length (leb128_img sgnd (v div 128))"
    have d: "within (Suc ?n) d" "remaining d = ?b # leb128_img sgnd (v div 128) @ rest"
      using prems(5,6) False by (auto simp: leb128_img.simps [of sgnd v])
    have rd: "read_byte d = Inr (?b, advance 1 d)"
      using d by (intro read_byte_ok) (auto elim: within_mono)
    have b: "uint ?b = v mod 128 + 128"
      by (simp only: uint_byte_of_int) (simp add: mod_pos_pos_trivial)
    have nl: "\<not> uint ?b < 128"
      by (simp only: b not_less)
    have bound: "acc + v mod 128 * 2 ^ shift < 2 ^ (shift + 7)"
    proof -
      have "acc + v mod 128 * 2 ^ shift < (v mod 128 + 1) * 2 ^ shift"
        using prems(3) by (simp add: algebra_simps)
      also have "\<dots> \<le> 128 * 2 ^ shift"
        by (intro mult_right_mono) (simp_all add: add1_zle_eq)
      finally show ?thesis by (simp add: power_add)
    qed
    have w: "within ?n (advance 1 d)"
      using d(1) by (intro within_advance) simp
    have "decode_leb128_loop sgnd acc shift d =
      decode_leb128_loop sgnd (acc + v mod 128 * 2 ^ shift) (shift + 7) (advance 1 d)"
      by (simp only: decode_leb128_step [OF rd prems(2-4)] nl if_False) (simp only: b add_diff_cancel)
    also have "\<dots> = Inr (acc + v mod 128 * 2 ^ shift + v div 128 * 2 ^ (shift + 7), advance ?n (advance 1 d))"
      using d prems(2,4) bound
      by (intro 1(1) [OF False leb128_valid_div [OF prems(1)] _ _ _ w]) auto
    also have "acc + v mod 128 * 2 ^ shift + v div 128 * 2 ^ (shift + 7) = acc + v * 2 ^ shift"
    proof -
      have "v div 128 * 128 * 2 ^ shift + v mod 128 * 2 ^ shift = v * 2 ^ shift"
        by (simp only: distrib_right [symmetric] div_mult_mod_eq)
      then show ?thesis by (simp add: power_add)
    qed
    finally show ?thesis
      using False by (simp add: leb128_img.simps [of sgnd v])
  qed
qed


lemma leb128_codec: "codec (encode_leb128 sgnd) (decode_leb128 sgnd) (leb128_img sgnd) (leb128_valid sgnd)"
  by unfold_locales
    (auto simp: decode_leb128_def decode_leb128_loop_ok intro: encode_leb128_ok)

interpretation leb128: codec
  "encode_leb128 sgnd" "decode_leb128 sgnd" "leb128_img sgnd" "leb128_valid sgnd"
  for sgnd
  by (rule leb128_codec)

lemma decode_leb128_loop_consumes:
  "decode_leb128_loop sgnd acc shift d = Inr (v, d') \<Longrightarrow> \<exists>n. consumed n d d'"
proof (induction sgnd acc shift d arbitrary: v d' rule: decode_leb128_loop.induct)
  case (1 sgnd acc shift d)
  from 1(2) obtain b d1 where rd: "read_byte d = Inr (b, d1)"
    by (subst (asm) decode_leb128_loop.simps) (auto simp: result_simps)
  then have d1: "consumed 1 d d1"
    by (rule consumed_read_byte)
  show ?case
  proof (cases "d' = d1")
    case True
    then show ?thesis using d1 by blast
  next
    case False
    let ?acc = "acc OR push_bit shift (uint b AND 127)"
    have "decode_leb128_loop sgnd ?acc (shift + 7) d1 = Inr (v, d')"
      and g: "\<not> (shift + 7) mod 7 \<noteq> 0" "uint b AND 128 \<noteq> 0"
      using 1(2) False rd
      by (subst (asm) decode_leb128_loop.simps, auto simp: Let_def split: if_splits)+
    then show ?thesis
      using 1(1) [OF rd refl refl refl refl g(1)] d1 by (blast intro: consumed_trans)
  qed
qed

interpretation leb128_reader: consuming "decode_leb128 sgnd" for sgnd
  by unfold_locales (auto simp: decode_leb128_def dest: decode_leb128_loop_consumes)


subsection \<open>The stand-alone functions of \<^verbatim>\<open>hathor/utils/leb128.py\<close>\<close>

text \<open>\<^verbatim>\<open>isinstance(e, SerializationError)\<close> for the exceptions that reach the handlers below.\<close>

definition is_SerializationError :: "exn \<Rightarrow> bool" where
  "is_SerializationError e =
     (e \<in> {OutOfDataError, BadDataError, TooLongError, MaxBytesExceededError})"

definition leb128_handler :: "exn \<Rightarrow> 'a result" where
  "leb128_handler e =
     (if e = MaxBytesExceededError then Inl ValueError
      else if is_SerializationError e then Inl ValueError
      else Inl e)"

definition encode_signed :: "int \<Rightarrow> int option \<Rightarrow> bytes result" where
  "encode_signed v max_bytes =
     bindE (catchE (encode_leb128 True (ser_with_optional_max_bytes build_bytes_serializer max_bytes) v)
              leb128_handler)
       (\<lambda>s. Inr (ser_finalize s))"

definition encode_unsigned :: "int \<Rightarrow> int option \<Rightarrow> bytes result" where
  "encode_unsigned v max_bytes =
     bindE (catchE (encode_leb128 False (ser_with_optional_max_bytes build_bytes_serializer max_bytes) v)
              leb128_handler)
       (\<lambda>s. Inr (ser_finalize s))"

text \<open>
  The decoders read through the adapter and then take what is left from the inner deserializer,
  the object below the adapter.
\<close>

fun des_inner :: "int option \<Rightarrow> deserializer \<Rightarrow> deserializer" where
  "des_inner None d = d"
| "des_inner (Some m) (MaxBytesDeserializer inner left) = inner"
| "des_inner (Some m) (BytesDeserializer view) = BytesDeserializer view"

definition decode_with_rest :: "bool \<Rightarrow> bytes \<Rightarrow> int option \<Rightarrow> (int \<times> bytes) result" where
  "decode_with_rest sgnd data max_bytes =
     bindE (catchE (decode_leb128 sgnd (des_with_optional_max_bytes (build_bytes_deserializer data) max_bytes))
              leb128_handler)
       (\<lambda>(v, d).
          bindE (read_all (des_inner max_bytes d)) (\<lambda>(remaining_data, d').
          bindE (des_finalize d') (\<lambda>_. Inr (v, remaining_data))))"

definition decode_signed :: "bytes \<Rightarrow> int option \<Rightarrow> (int \<times> bytes) result" where
  "decode_signed data max_bytes = decode_with_rest True data max_bytes"

definition decode_unsigned :: "bytes \<Rightarrow> int option \<Rightarrow> (int \<times> bytes) result" where
  "decode_unsigned data max_bytes = decode_with_rest False data max_bytes"

section \<open>Fixed-size integers\<close>

definition encode_int :: "nat \<Rightarrow> bool \<Rightarrow> serializer \<Rightarrow> int \<Rightarrow> serializer result" where
  "encode_int len sgnd s number =
     bindE (catchE (int_to_bytes len sgnd number) (\<lambda>e. if e = OverflowError then Inl ValueError else Inl e))
       (\<lambda>data. write_bytes s data)"

definition decode_int :: "nat \<Rightarrow> bool \<Rightarrow> deserializer \<Rightarrow> (int \<times> deserializer) result" where
  "decode_int len sgnd d =
     bindE (read_bytes d (int len) True) (\<lambda>(data, d'). Inr (int_from_bytes sgnd data, d'))"

interpretation fixed_int: codec
  "encode_int len sgnd" "decode_int len sgnd" "be_bytes len" "int_fits len sgnd"
  for len sgnd
proof
  fix v s
  assume "int_fits len sgnd v" and "allows (length (be_bytes len v)) s"
  then show "\<exists>t. encode_int len sgnd s v = Inr t \<and> wrote s (be_bytes len v) t"
    using write_bytes_ok [of "be_bytes len v" s] by (simp add: encode_int_def int_to_bytes_def)
next
  fix v d rest
  assume "int_fits len sgnd v" and "within (length (be_bytes len v)) d"
    and "remaining d = be_bytes len v @ rest"
  then show "decode_int len sgnd d = Inr (v, advance (length (be_bytes len v)) d)"
    by (simp add: decode_int_def read_bytes_ok int_from_bytes_be_bytes)
qed

lemma encode_int_out_of_range:
  "\<not> int_fits len sgnd v \<Longrightarrow> encode_int len sgnd s v = Inl ValueError"
  by (simp add: encode_int_def int_to_bytes_def)

interpretation int_reader: consuming "decode_int len sgnd" for len sgnd
  unfolding decode_int_def
  by (rule consuming_bind [OF consuming_read_bytes consuming_return, simplified])

section \<open>Booleans\<close>

definition encode_bool :: "serializer \<Rightarrow> bool \<Rightarrow> serializer result" where
  "encode_bool s b = write_byte s (if b then 1 else 0)"

definition decode_bool :: "deserializer \<Rightarrow> (bool \<times> deserializer) result" where
  "decode_bool d =
     bindE (read_byte d) (\<lambda>(i, d').
       if i = 0 then Inr (False, d')
       else if i = 1 then Inr (True, d')
       else Inl ValueError)"

definition bool_img :: "bool \<Rightarrow> bytes" where
  "bool_img b = [if b then 1 else 0]"

interpretation bool: codec encode_bool decode_bool bool_img "\<lambda>_. True"
proof
  fix b s
  assume "allows (length (bool_img b)) s"
  then show "\<exists>t. encode_bool s b = Inr t \<and> wrote s (bool_img b) t"
    using write_byte_ok [of s "if b then 1 else 0"] by (auto simp: encode_bool_def bool_img_def)
next
  fix b d rest
  assume "within (length (bool_img b)) d" and "remaining d = bool_img b @ rest"
  then show "decode_bool d = Inr (b, advance (length (bool_img b)) d)"
    using read_byte_ok [of d] by (auto simp: decode_bool_def bool_img_def)
qed

interpretation bool_reader: consuming decode_bool
proof
  fix d b d'
  assume "decode_bool d = Inr (b, d')"
  then obtain i where "read_byte d = Inr (i, d')"
    by (auto simp: decode_bool_def result_simps split: if_splits)
  then show "\<exists>n. consumed n d d'"
    by (blast intro: consumed_read_byte)
qed

section \<open>Byte strings\<close>

definition encode_bytes :: "serializer \<Rightarrow> bytes \<Rightarrow> serializer result" where
  "encode_bytes s data =
     bindE (encode_leb128 False s (int (length data))) (\<lambda>s'. write_bytes s' data)"

definition decode_bytes :: "deserializer \<Rightarrow> (bytes \<times> deserializer) result" where
  "decode_bytes d = bindE (decode_leb128 False d) (\<lambda>(sz, d'). read_bytes d' sz True)"

definition bytes_img :: "bytes \<Rightarrow> bytes" where
  "bytes_img data = leb128_img False (int (length data)) @ data"

lemma bytes_codec: "codec encode_bytes decode_bytes bytes_img (\<lambda>_. True)"
proof
  fix data s
  assume room: "allows (length (bytes_img data)) s"
  have "\<exists>u. bindE (encode_leb128 False s (int (length data))) (\<lambda>t. write_bytes t data) = Inr u \<and>
    wrote s (leb128_img False (int (length data)) @ data) u"
  proof (rule enc_seq)
    show "\<exists>t. encode_leb128 False s (int (length data)) = Inr t \<and>
      wrote s (leb128_img False (int (length data))) t"
      using room by (intro leb128.enc_ok) (auto simp: leb128_valid_def bytes_img_def elim: allows_mono)
  next
    fix t assume "wrote s (leb128_img False (int (length data))) t"
    then show "\<exists>u. write_bytes t data = Inr u \<and> wrote t data u"
      using room by (auto simp: bytes_img_def intro: write_bytes_ok dest: wrote_allows)
  qed
  then show "\<exists>t. encode_bytes s data = Inr t \<and> wrote s (bytes_img data) t"
    by (simp add: encode_bytes_def bytes_img_def)
next
  fix data :: bytes and d rest
  let ?n = "length (leb128_img False (int (length data)))"
  assume "within (length (bytes_img data)) d" and r: "remaining d = bytes_img data @ rest"
  then have w: "within (?n + length data) d"
    by (simp add: bytes_img_def)
  have "decode_leb128 False d = Inr (int (length data), advance ?n d)"
    using w r by (intro leb128.dec_ok [of _ _ _ "data @ rest"])
      (auto simp: leb128_valid_def bytes_img_def elim: within_mono)
  moreover have "read_bytes (advance ?n d) (int (length data)) True = Inr (data, advance (?n + length data) d)"
    using r read_bytes_ok [OF within_advance [OF w], of True] by (simp add: bytes_img_def)
  ultimately show "decode_bytes d = Inr (data, advance (length (bytes_img data)) d)"
    by (simp add: decode_bytes_def bytes_img_def)
qed

interpretation bytes: codec encode_bytes decode_bytes bytes_img "\<lambda>_. True"
  by (rule bytes_codec)

interpretation bytes_reader: consuming decode_bytes
  unfolding decode_bytes_def
  by (rule consuming_bind [OF leb128_reader.consuming_axioms consuming_read_bytes])

section \<open>Output values\<close>

definition MAX_OUTPUT_VALUE_32 :: int where
  "MAX_OUTPUT_VALUE_32 = 2 ^ 31 - 1"

definition MAX_OUTPUT_VALUE_64 :: int where
  "MAX_OUTPUT_VALUE_64 = 2 ^ 63"

text \<open>\<^verbatim>\<open>isinstance(e, struct.error)\<close>: \<^verbatim>\<open>OutOfDataError\<close> inherits from \<^verbatim>\<open>struct.error\<close> too.\<close>

definition is_struct_error :: "exn \<Rightarrow> bool" where
  "is_struct_error e = (e \<in> {StructError, OutOfDataError})"

definition encode_output_value :: "bool \<Rightarrow> serializer \<Rightarrow> int \<Rightarrow> serializer result" where
  "encode_output_value strict s number =
     (if number < 0 then Inl ValueError
      else if strict \<and> number = 0 then Inl ValueError
      else if number > MAX_OUTPUT_VALUE_64 then Inl ValueError
      else if number > MAX_OUTPUT_VALUE_32
        then bindE (int_to_bytes 8 True (- number)) (\<lambda>bs. write_bytes s bs)
        else bindE (int_to_bytes 4 True number) (\<lambda>bs. write_bytes s bs))"

definition decode_output_value :: "bool \<Rightarrow> deserializer \<Rightarrow> (int \<times> deserializer) result" where
  "decode_output_value strict d =
     bindE (peek_struct d 1 True) (\<lambda>value_high_byte.
     bindE (catchE
             (if value_high_byte < 0
              then bindE (read_struct d 8 True) (\<lambda>(raw_value, d'). Inr (- raw_value, d'))
              else read_struct d 4 True)
             (\<lambda>e. if is_struct_error e then Inl BadDataError else Inl e)) (\<lambda>(v, d').
       if \<not> 0 \<le> v then Inl AssertionError
       else if strict \<and> v = 0 then Inl ValueError
       else if v < MAX_OUTPUT_VALUE_32 \<and> value_high_byte < 0 then Inl ValueError
       else Inr (v, d')))"

definition output_value_img :: "int \<Rightarrow> bytes" where
  "output_value_img v = (if v > MAX_OUTPUT_VALUE_32 then be_bytes 8 (- v) else be_bytes 4 v)"

definition output_value_valid :: "bool \<Rightarrow> int \<Rightarrow> bool" where
  "output_value_valid strict v = ((if strict then 0 < v else 0 \<le> v) \<and> v \<le> MAX_OUTPUT_VALUE_64)"

lemmas output_value_consts = MAX_OUTPUT_VALUE_32_def MAX_OUTPUT_VALUE_64_def

lemma peek_high_byte:
  assumes "remaining d = be_bytes n v @ rest" and "n = Suc m" and "int_fits n True v"
  shows "\<exists>h. peek_struct d 1 True = Inr h \<and> (h < 0 \<longleftrightarrow> v < 0)"
proof -
  have "peek_bytes d 1 True = Inr (take 1 (be_bytes (Suc m) v @ rest))"
    using assms(1,2) by (simp add: peek_bytes_remaining)
  then show ?thesis
    using first_byte_sign [of m v rest] assms(2,3)
    by (simp add: peek_struct_def struct_unpack_def del: be_bytes.simps)
qed

lemma decode_output_value_long:
  assumes "remaining d = be_bytes 8 (- v) @ rest" and "within 8 d" and "0 < v" and "v \<le> 2 ^ 63"
  shows "decode_output_value strict d =
    (if v < MAX_OUTPUT_VALUE_32 then Inl ValueError else Inr (v, advance 8 d))"
proof -
  have f: "int_fits 8 True (- v)"
    using assms(3,4) by (simp add: int_fits_def)
  obtain h where h: "peek_struct d 1 True = Inr h" "h < 0"
    using peek_high_byte [OF assms(1) _ f, of 7] assms(3) by auto
  have "read_struct d 8 True = Inr (- v, advance 8 d)"
    using read_struct_ok [OF assms(2,1), of True] int_from_bytes_be_bytes [OF f] by simp
  then show ?thesis
    using h assms(3) by (simp add: decode_output_value_def)
qed

lemma decode_output_value_short:
  assumes "remaining d = be_bytes 4 v @ rest" and "within 4 d" and "0 \<le> v" and "v \<le> MAX_OUTPUT_VALUE_32"
  shows "decode_output_value strict d =
    (if strict \<and> v = 0 then Inl ValueError else Inr (v, advance 4 d))"
proof -
  have f: "int_fits 4 True v"
    using assms(3,4) by (simp add: int_fits_def output_value_consts)
  obtain h where h: "peek_struct d 1 True = Inr h" "\<not> h < 0"
    using peek_high_byte [OF assms(1) _ f, of 3] assms(3) by auto
  have "read_struct d 4 True = Inr (v, advance 4 d)"
    using read_struct_ok [OF assms(2,1), of True] int_from_bytes_be_bytes [OF f] by simp
  then show ?thesis
    using h assms(3) by (simp add: decode_output_value_def)
qed

lemma output_value_codec:
  "codec (encode_output_value strict) (decode_output_value strict) output_value_img (output_value_valid strict)"
proof
  fix v s
  assume v: "output_value_valid strict v" and room: "allows (length (output_value_img v)) s"
  have "int_fits 8 True (- v)" and "v \<le> MAX_OUTPUT_VALUE_32 \<Longrightarrow> int_fits 4 True v"
    using v by (auto simp: output_value_valid_def int_fits_def output_value_consts split: if_splits)
  then show "\<exists>t. encode_output_value strict s v = Inr t \<and> wrote s (output_value_img v) t"
    using v write_bytes_ok [OF room]
    by (auto simp: encode_output_value_def output_value_img_def output_value_valid_def
        int_to_bytes_def split: if_splits)
next
  fix v d rest
  assume v: "output_value_valid strict v" and w: "within (length (output_value_img v)) d"
    and r: "remaining d = output_value_img v @ rest"
  show "decode_output_value strict d = Inr (v, advance (length (output_value_img v)) d)"
  proof (cases "v > MAX_OUTPUT_VALUE_32")
    case True
    then show ?thesis
      using v w r decode_output_value_long [of d v rest strict]
      by (auto simp: output_value_img_def output_value_valid_def output_value_consts)
  next
    case False
    then show ?thesis
      using v w r decode_output_value_short [of d v rest strict]
      by (auto simp: output_value_img_def output_value_valid_def split: if_splits)
  qed
qed

interpretation output_value: codec
  "encode_output_value strict" "decode_output_value strict" output_value_img "output_value_valid strict"
  for strict
  by (rule output_value_codec)

text \<open>What the decoder accepts: the encoder's image, or the 8-byte form of the largest 4-byte value.\<close>

lemma read_struct_Inr:
  assumes "read_struct d n True = Inr (v, d')"
  shows "remaining d = be_bytes n v @ remaining d'" and "int_fits n True v" and "consumed n d d'"
proof -
  obtain bs where rd: "read_bytes d (int n) True = Inr (bs, d')" and len: "length (take n bs) = n"
    and v: "v = int_from_bytes True (take n bs)"
    using assms by (auto simp: read_struct_def struct_unpack_def result_simps split: if_splits)
  have bs: "bs = take n (remaining d)" and d': "d' = advance n d"
    using read_bytes_Inr [OF rd] by auto
  have "be_bytes n v = bs"
    using be_bytes_int_from_bytes [of "take n bs" True] len bs v by simp
  then show "remaining d = be_bytes n v @ remaining d'"
    using bs d' by simp
  show "int_fits n True v"
    using int_fits_int_from_bytes [of "take n bs" True] len v by simp
  show "consumed n d d'"
    using consumed_read_bytes [OF rd] by simp
qed

lemma decode_output_value_Inr:
  assumes "decode_output_value strict d = Inr (v, d')"
  obtains (long) "read_struct d 8 True = Inr (- v, d')" "MAX_OUTPUT_VALUE_32 \<le> v"
    | (short) "read_struct d 4 True = Inr (v, d')" "0 \<le> v" "strict \<longrightarrow> v \<noteq> 0"
proof -
  obtain h where h: "peek_struct d 1 True = Inr h"
    using assms by (auto simp: decode_output_value_def result_simps)
  show thesis
  proof (cases "h < 0")
    case True
    obtain raw d1 where "read_struct d 8 True = Inr (raw, d1)"
      using assms h True
      by (cases "read_struct d 8 True") (auto simp: decode_output_value_def split: if_splits)
    then show thesis
      using assms h True that(1) by (simp add: decode_output_value_def split: if_splits)
  next
    case False
    obtain raw d1 where "read_struct d 4 True = Inr (raw, d1)"
      using assms h False
      by (cases "read_struct d 4 True") (auto simp: decode_output_value_def split: if_splits)
    then show thesis
      using assms h False that(2) by (simp add: decode_output_value_def split: if_splits)
  qed
qed

lemma decode_output_value_image:
  assumes "decode_output_value strict d = Inr (v, d')"
  shows "output_value_valid strict v \<and>
    (remaining d = output_value_img v @ remaining d' \<or>
     v = MAX_OUTPUT_VALUE_32 \<and> remaining d = be_bytes 8 (- v) @ remaining d')"
  using assms
proof (cases rule: decode_output_value_Inr)
  case long
  note img = read_struct_Inr [OF long(1)]
  have "v \<le> MAX_OUTPUT_VALUE_64" and "0 < v"
    using img(2) long(2) by (simp_all add: int_fits_def output_value_consts)
  then show ?thesis
    using img(1) long(2) by (auto simp: output_value_valid_def output_value_img_def)
next
  case short
  note img = read_struct_Inr [OF short(1)]
  have "v \<le> MAX_OUTPUT_VALUE_32"
    using img(2) by (simp add: int_fits_def output_value_consts)
  then show ?thesis
    using img(1) short(2,3)
    by (auto simp: output_value_valid_def output_value_img_def output_value_consts)
qed

interpretation output_value_reader: consuming "decode_output_value strict" for strict
  by unfold_locales (blast elim: decode_output_value_Inr intro: read_struct_Inr(3))

section \<open>UTF-8 strings\<close>

text \<open>
  A Python \<^verbatim>\<open>str\<close> is a list of code points. \<^verbatim>\<open>str.encode('utf-8')\<close> refuses surrogates;
  \<^verbatim>\<open>bytes.decode('utf-8')\<close> refuses overlong forms, surrogates and values past U+10FFFF.
\<close>

type_synonym pystr = "nat list"

definition is_surrogate :: "nat \<Rightarrow> bool" where
  "is_surrogate c = (0xD800 \<le> c \<and> c \<le> 0xDFFF)"

definition utf8_char :: "nat \<Rightarrow> bytes result" where
  "utf8_char c =
     (if c < 0x80 then Inr [of_nat c]
      else if c < 0x800 then Inr [of_nat (0xC0 + c div 64), of_nat (0x80 + c mod 64)]
      else if is_surrogate c then Inl UnicodeEncodeError
      else if c < 0x10000 then
        Inr [of_nat (0xE0 + c div 4096), of_nat (0x80 + c div 64 mod 64), of_nat (0x80 + c mod 64)]
      else
        Inr [of_nat (0xF0 + c div 262144), of_nat (0x80 + c div 4096 mod 64),
             of_nat (0x80 + c div 64 mod 64), of_nat (0x80 + c mod 64)])"

fun utf8_encode :: "pystr \<Rightarrow> bytes result" where
  "utf8_encode [] = Inr []"
| "utf8_encode (c # cs) = bindE (utf8_char c) (\<lambda>b. bindE (utf8_encode cs) (\<lambda>bs. Inr (b @ bs)))"

definition is_cont :: "byte \<Rightarrow> bool" where
  "is_cont b = (0x80 \<le> unat b \<and> unat b < 0xC0)"

definition cont_val :: "byte \<Rightarrow> nat" where
  "cont_val b = unat b - 0x80"

fun utf8_decode :: "bytes \<Rightarrow> pystr result" where
  "utf8_decode [] = Inr []"
| "utf8_decode (b # bs) =
     (let x = unat b in
      if x < 0x80 then bindE (utf8_decode bs) (\<lambda>cs. Inr (x # cs))
      else if 0xC2 \<le> x \<and> x < 0xE0 then
        (case bs of
           b1 # rest \<Rightarrow>
             if is_cont b1
             then bindE (utf8_decode rest) (\<lambda>cs. Inr (((x - 0xC0) * 64 + cont_val b1) # cs))
             else Inl UnicodeDecodeError
         | _ \<Rightarrow> Inl UnicodeDecodeError)
      else if 0xE0 \<le> x \<and> x < 0xF0 then
        (case bs of
           b1 # b2 # rest \<Rightarrow>
             (let c = (x - 0xE0) * 4096 + cont_val b1 * 64 + cont_val b2 in
              if is_cont b1 \<and> is_cont b2 \<and> 0x800 \<le> c \<and> \<not> is_surrogate c
              then bindE (utf8_decode rest) (\<lambda>cs. Inr (c # cs))
              else Inl UnicodeDecodeError)
         | _ \<Rightarrow> Inl UnicodeDecodeError)
      else if 0xF0 \<le> x \<and> x < 0xF5 then
        (case bs of
           b1 # b2 # b3 # rest \<Rightarrow>
             (let c = (x - 0xF0) * 262144 + cont_val b1 * 4096 + cont_val b2 * 64 + cont_val b3 in
              if is_cont b1 \<and> is_cont b2 \<and> is_cont b3 \<and> 0x10000 \<le> c \<and> c < 0x110000
              then bindE (utf8_decode rest) (\<lambda>cs. Inr (c # cs))
              else Inl UnicodeDecodeError)
         | _ \<Rightarrow> Inl UnicodeDecodeError)
      else Inl UnicodeDecodeError)"

definition encode_utf8 :: "serializer \<Rightarrow> pystr \<Rightarrow> serializer result" where
  "encode_utf8 s v = bindE (utf8_encode v) (\<lambda>data. encode_bytes s data)"

definition decode_utf8 :: "deserializer \<Rightarrow> (pystr \<times> deserializer) result" where
  "decode_utf8 d =
     bindE (decode_bytes d) (\<lambda>(data, d'). bindE (utf8_decode data) (\<lambda>v. Inr (v, d')))"

lemma unat_of_nat_byte: "n < 256 \<Longrightarrow> unat (of_nat n :: byte) = n"
  by (simp add: unat_of_nat)

definition is_char :: "nat \<Rightarrow> bool" where
  "is_char c = (c < 0x110000 \<and> \<not> is_surrogate c)"

lemma two_bytes: "c < 0x800 \<Longrightarrow> (c :: nat) div 64 * 64 + c mod 64 = c"
  by simp

lemma three_bytes: "(c :: nat) div 4096 * 4096 + c div 64 mod 64 * 64 + c mod 64 = c"
proof -
  have "c div 64 = c div 4096 * 64 + c div 64 mod 64"
    using div_mult_mod_eq [of "c div 64" 64] by (simp add: div_mult2_eq [symmetric])
  then show ?thesis
    using div_mult_mod_eq [of c 64] by linarith
qed

lemma four_bytes:
  "(c :: nat) div 262144 * 262144 + c div 4096 mod 64 * 4096 + c div 64 mod 64 * 64 + c mod 64 = c"
proof -
  have "c div 4096 = c div 262144 * 64 + c div 4096 mod 64"
    using div_mult_mod_eq [of "c div 4096" 64] by (simp add: div_mult2_eq [symmetric])
  then show ?thesis
    using three_bytes [of c] by linarith
qed

lemma cont_byte: "n < 64 \<Longrightarrow> is_cont (of_nat (0x80 + n)) \<and> cont_val (of_nat (0x80 + n)) = n"
  unfolding is_cont_def cont_val_def by (subst unat_of_nat_byte, simp)+ simp

lemma utf8_char_ok: "is_char c \<Longrightarrow> \<exists>b. utf8_char c = Inr b"
  by (auto simp: utf8_char_def is_char_def)

lemma utf8_decode_char:
  assumes "is_char c" and "utf8_char c = Inr b"
  shows "utf8_decode (b @ rest) = bindE (utf8_decode rest) (\<lambda>cs. Inr (c # cs))"
proof -
  consider (1) "c < 0x80" | (2) "0x80 \<le> c" "c < 0x800" | (3) "0x800 \<le> c" "c < 0x10000"
    | (4) "0x10000 \<le> c" "c < 0x110000"
    using assms(1) unfolding is_char_def
    by (cases "c < 0x80"; cases "c < 0x800"; cases "c < 0x10000") simp_all
  then show ?thesis
  proof cases
    case 1
    then have "b = [of_nat c]" using assms(2) by (simp add: utf8_char_def)
    then show ?thesis using 1 by (simp add: unat_of_nat_byte del: unat_of_nat)
  next
    case 2
    then have b: "b = [of_nat (0xC0 + c div 64), of_nat (0x80 + c mod 64)]"
      using assms(2) by (simp add: utf8_char_def)
    have q: "2 \<le> c div 64" "c div 64 < 32" using 2 by auto
    have x: "unat (of_nat (0xC0 + c div 64) :: byte) = 0xC0 + c div 64"
      using q by (intro unat_of_nat_byte) simp
    show ?thesis
      using q by (simp only: b append.simps utf8_decode.simps Let_def x list.case)
       (simp add: cont_byte del: of_nat_add)
  next
    case 3
    then have b: "b = [of_nat (0xE0 + c div 4096), of_nat (0x80 + c div 64 mod 64), of_nat (0x80 + c mod 64)]"
      using assms by (simp add: utf8_char_def is_char_def)
    have q: "c div 4096 < 16" using 3 by auto
    have x: "unat (of_nat (0xE0 + c div 4096) :: byte) = 0xE0 + c div 4096"
      using q by (intro unat_of_nat_byte) simp
    have y: "0xE0 + c div 4096 - 0xE0 = c div 4096" by simp
    show ?thesis
      using q 3 assms(1) by (simp only: b append.simps utf8_decode.simps Let_def x list.case)
       (simp add: cont_byte three_bytes is_char_def del: of_nat_add)
  next
    case 4
    then have b: "b = [of_nat (0xF0 + c div 262144), of_nat (0x80 + c div 4096 mod 64),
             of_nat (0x80 + c div 64 mod 64), of_nat (0x80 + c mod 64)]"
      using assms by (simp add: utf8_char_def is_char_def)
    have q: "c div 262144 < 5" using 4 by auto
    have x: "unat (of_nat (0xF0 + c div 262144) :: byte) = 0xF0 + c div 262144"
      using q by (intro unat_of_nat_byte) simp
    show ?thesis
      using q 4 by (simp only: b append.simps utf8_decode.simps Let_def x list.case)
       (simp add: cont_byte four_bytes del: of_nat_add)
  qed
qed

definition utf8_valid :: "pystr \<Rightarrow> bool" where
  "utf8_valid v = list_all is_char v"

definition utf8_img :: "pystr \<Rightarrow> bytes" where
  "utf8_img v = (case utf8_encode v of Inl _ \<Rightarrow> [] | Inr bs \<Rightarrow> bytes_img bs)"

lemma utf8_encode_ok: "utf8_valid v \<Longrightarrow> \<exists>bs. utf8_encode v = Inr bs \<and> utf8_decode bs = Inr v"
proof (induction v)
  case Nil
  then show ?case by simp
next
  case (Cons c v)
  then obtain bs where bs: "utf8_encode v = Inr bs" "utf8_decode bs = Inr v"
    by (auto simp: utf8_valid_def)
  moreover obtain b where "utf8_char c = Inr b"
    using Cons.prems utf8_char_ok by (auto simp: utf8_valid_def)
  ultimately show ?case
    using Cons.prems utf8_decode_char [of c b bs] by (auto simp: utf8_valid_def)
qed

interpretation utf8: codec encode_utf8 decode_utf8 utf8_img utf8_valid
proof
  fix v s
  assume "utf8_valid v" and "allows (length (utf8_img v)) s"
  then show "\<exists>t. encode_utf8 s v = Inr t \<and> wrote s (utf8_img v) t"
    using utf8_encode_ok [of v] bytes.enc_ok by (auto simp: encode_utf8_def utf8_img_def)
next
  fix v d rest
  assume "utf8_valid v" and "within (length (utf8_img v)) d" and "remaining d = utf8_img v @ rest"
  then show "decode_utf8 d = Inr (v, advance (length (utf8_img v)) d)"
    using utf8_encode_ok [of v] bytes.dec_ok by (auto simp: decode_utf8_def utf8_img_def)
qed

interpretation utf8_reader: consuming decode_utf8
  using bytes_reader.consumes
  by unfold_locales (fastforce simp: decode_utf8_def result_simps)

section \<open>The bounded variants of \<^verbatim>\<open>utils/leb128.py\<close>\<close>

lemma leb128_img_length_pos: "0 < length (leb128_img sgnd v)"
  by (subst leb128_img.simps) simp

lemma unsigned_img_length:
  assumes "0 \<le> v"
  shows "length (leb128_img False v) \<le> Suc m \<longleftrightarrow> v < 128 ^ Suc m"
  using assms
proof (induction m arbitrary: v)
  case 0
  have "length (leb128_img False v) \<le> 1 \<longleftrightarrow> leb128_last False v"
    using leb128_img_length_pos [of False "v div 128"] by (subst leb128_img.simps) auto
  then show ?case by (simp add: leb128_last_def)
next
  case (Suc m)
  have "v div 128 < 128 ^ Suc m \<longleftrightarrow> v < 128 ^ Suc (Suc m)"
    using int_div_less [of 128 v "128 ^ Suc m"] int_le_div [of 128 "128 ^ Suc m" v]
    by (auto simp: mult.commute)
  moreover have "v < 128 \<Longrightarrow> v < 128 ^ Suc (Suc m)"
    using one_le_power [of "128 :: int" "Suc m"] by simp
  moreover have "0 \<le> v div 128"
    using Suc.prems by (simp add: pos_imp_zdiv_nonneg_iff)
  ultimately show ?case
    using Suc.IH [of "v div 128"]
    by (subst leb128_img.simps) (auto simp: leb128_last_def)
qed

lemma encode_leb128_exceeds:
  assumes "leb128_valid sgnd v" and "left < int (length (leb128_img sgnd v))"
  shows "encode_leb128 sgnd (MaxBytesSerializer (BytesSerializer parts pos) left) v = Inl MaxBytesExceededError"
  using assms
proof (induction sgnd v arbitrary: left parts pos rule: leb128_img.induct)
  case (1 sgnd v)
  have fits: "int_fits 1 False (v mod 128)" "int_fits 1 False (v mod 128 + 128)"
    using pos_mod_bound [of 128 v] pos_mod_sign [of 128 v] by (auto simp: int_fits_def)
  show ?case
  proof (cases "leb128_last sgnd v")
    case True
    then show ?thesis
      using 1 encode_leb128_step [OF 1(2)] fits
      by (simp add: leb128_img.simps [of sgnd v] int_to_bytes_def)
  next
    case False
    then show ?thesis
      using 1(1) [OF False leb128_valid_div [OF 1(2)]] encode_leb128_step [OF 1(2)] fits 1(3)
      by (cases "left < 1") (auto simp: leb128_img.simps [of sgnd v] int_to_bytes_def)
  qed
qed

lemma encode_unsigned_img:
  assumes "0 \<le> v" 
  shows "encode_unsigned v (Some m) =
    (if int (length (leb128_img False v)) \<le> m then Inr (leb128_img False v) else Inl ValueError)"
proof (cases "int (length (leb128_img False v)) \<le> m")
  case True
  have "allows (length (leb128_img False v)) (MaxBytesSerializer build_bytes_serializer m)"
    using True by (simp add: build_bytes_serializer_def)
  from leb128.enc_ok [OF _ this] assms obtain t where t:
    "encode_leb128 False (MaxBytesSerializer build_bytes_serializer m) v = Inr t"
    "wrote (MaxBytesSerializer build_bytes_serializer m) (leb128_img False v) t"
    by (auto simp: leb128_valid_def)
  then have "ser_finalize t = leb128_img False v"
    by (auto dest: wrote_finalize simp: build_bytes_serializer_def)
  then show ?thesis
    using True t by (simp add: encode_unsigned_def ser_with_optional_max_bytes_def ser_with_max_bytes_def)
next
  case False
  then show ?thesis
    using encode_leb128_exceeds [of False v m] assms
    by (simp add: encode_unsigned_def ser_with_optional_max_bytes_def ser_with_max_bytes_def
        leb128_handler_def build_bytes_serializer_def leb128_valid_def)
qed

lemma decode_unsigned_img:
  assumes "0 \<le> v" and "int (length (leb128_img False v)) \<le> m"
  shows "decode_unsigned (leb128_img False v @ rest) (Some m) = Inr (v, rest)"
proof -
  have "decode_leb128 False (MaxBytesDeserializer (BytesDeserializer (leb128_img False v @ rest)) m) =
    Inr (v, advance (length (leb128_img False v)) (MaxBytesDeserializer (BytesDeserializer (leb128_img False v @ rest)) m))"
    using assms by (intro leb128.dec_ok [where rest = rest]) (auto simp: leb128_valid_def)
  then show ?thesis
    by (simp add: decode_unsigned_def decode_with_rest_def build_bytes_deserializer_def
        des_with_optional_max_bytes_def des_with_max_bytes_def)
qed

end
