(* ===== verification/Compound_Encodings.thy ===== *)
theory Compound_Encodings
  imports Encodings
begin

text \<open>
  The compound encodings of \<^verbatim>\<open>hathor/serialization/compound_encoding\<close>: collections, mappings,
  optionals, tuples and signed data, each a combinator over the encoders and decoders of its parts.
  Every combinator turns \<open>codec\<close>s into a \<open>codec\<close> and \<open>consuming\<close> decoders into a \<open>consuming\<close> one.
\<close>

section \<open>Collections\<close>

text \<open>
  \<^verbatim>\<open>builder\<close> is the caller's constructor (\<^verbatim>\<open>list\<close>, \<^verbatim>\<open>tuple\<close>, \<^verbatim>\<open>set\<close>, ...); it is applied to the decoded
  items.
\<close>

fun encode_items :: "(serializer \<Rightarrow> 'a \<Rightarrow> serializer result) \<Rightarrow> serializer \<Rightarrow> 'a list \<Rightarrow> serializer result" where
  "encode_items encoder s [] = Inr s"
| "encode_items encoder s (v # vs) = bindE (encoder s v) (\<lambda>s'. encode_items encoder s' vs)"

definition encode_collection ::
  "(serializer \<Rightarrow> 'a \<Rightarrow> serializer result) \<Rightarrow> serializer \<Rightarrow> 'a list \<Rightarrow> serializer result" where
  "encode_collection encoder s values =
     bindE (encode_leb128 False s (int (length values))) (\<lambda>s'. encode_items encoder s' values)"

fun decode_items ::
  "(deserializer \<Rightarrow> ('a \<times> deserializer) result) \<Rightarrow> nat \<Rightarrow> deserializer \<Rightarrow> ('a list \<times> deserializer) result" where
  "decode_items decoder 0 d = Inr ([], d)"
| "decode_items decoder (Suc n) d =
     bindE (decoder d) (\<lambda>(v, d'). bindE (decode_items decoder n d') (\<lambda>(vs, d''). Inr (v # vs, d'')))"

definition decode_collection ::
  "(deserializer \<Rightarrow> ('a \<times> deserializer) result) \<Rightarrow> ('a list \<Rightarrow> 'r) \<Rightarrow> deserializer \<Rightarrow> ('r \<times> deserializer) result" where
  "decode_collection decoder builder d =
     bindE (decode_leb128 False d) (\<lambda>(len, d').
     bindE (decode_items decoder (nat len) d') (\<lambda>(vs, d''). Inr (builder vs, d'')))"

section \<open>Mappings\<close>

text \<open>A \<^verbatim>\<open>Mapping\<close> is the list of its items, in iteration order.\<close>

fun encode_mapping_items ::
  "(serializer \<Rightarrow> 'k \<Rightarrow> serializer result) \<Rightarrow> (serializer \<Rightarrow> 'v \<Rightarrow> serializer result) \<Rightarrow>
   serializer \<Rightarrow> ('k \<times> 'v) list \<Rightarrow> serializer result" where
  "encode_mapping_items key_encoder value_encoder s [] = Inr s"
| "encode_mapping_items key_encoder value_encoder s ((k, v) # items) =
     bindE (key_encoder s k) (\<lambda>s'.
     bindE (value_encoder s' v) (\<lambda>s''. encode_mapping_items key_encoder value_encoder s'' items))"

definition encode_mapping ::
  "(serializer \<Rightarrow> 'k \<Rightarrow> serializer result) \<Rightarrow> (serializer \<Rightarrow> 'v \<Rightarrow> serializer result) \<Rightarrow>
   serializer \<Rightarrow> ('k \<times> 'v) list \<Rightarrow> serializer result" where
  "encode_mapping key_encoder value_encoder s items =
     bindE (encode_leb128 False s (int (length items)))
       (\<lambda>s'. encode_mapping_items key_encoder value_encoder s' items)"

fun decode_mapping_items ::
  "(deserializer \<Rightarrow> ('k \<times> deserializer) result) \<Rightarrow> (deserializer \<Rightarrow> ('v \<times> deserializer) result) \<Rightarrow>
   nat \<Rightarrow> deserializer \<Rightarrow> (('k \<times> 'v) list \<times> deserializer) result" where
  "decode_mapping_items key_decoder value_decoder 0 d = Inr ([], d)"
| "decode_mapping_items key_decoder value_decoder (Suc n) d =
     bindE (key_decoder d) (\<lambda>(k, d1).
     bindE (value_decoder d1) (\<lambda>(v, d2).
     bindE (decode_mapping_items key_decoder value_decoder n d2) (\<lambda>(items, d3). Inr ((k, v) # items, d3))))"

definition decode_mapping ::
  "(deserializer \<Rightarrow> ('k \<times> deserializer) result) \<Rightarrow> (deserializer \<Rightarrow> ('v \<times> deserializer) result) \<Rightarrow>
   (('k \<times> 'v) list \<Rightarrow> 'r) \<Rightarrow> deserializer \<Rightarrow> ('r \<times> deserializer) result" where
  "decode_mapping key_decoder value_decoder mapping_builder d =
     bindE (decode_leb128 False d) (\<lambda>(sz, d').
     bindE (decode_mapping_items key_decoder value_decoder (nat sz) d')
       (\<lambda>(items, d''). Inr (mapping_builder items, d'')))"

section \<open>Optionals\<close>

definition encode_optional ::
  "(serializer \<Rightarrow> 'a \<Rightarrow> serializer result) \<Rightarrow> serializer \<Rightarrow> 'a option \<Rightarrow> serializer result" where
  "encode_optional encoder s v =
     (case v of
        None \<Rightarrow> encode_bool s False
      | Some x \<Rightarrow> bindE (encode_bool s True) (\<lambda>s'. encoder s' x))"

definition decode_optional ::
  "(deserializer \<Rightarrow> ('a \<times> deserializer) result) \<Rightarrow> deserializer \<Rightarrow> ('a option \<times> deserializer) result" where
  "decode_optional decoder d =
     bindE (decode_bool d) (\<lambda>(has_value, d').
       if has_value then bindE (decoder d') (\<lambda>(v, d''). Inr (Some v, d''))
       else Inr (None, d'))"

section \<open>Tuples\<close>

text \<open>The element types differ in the source; here they share a universe \<open>'a\<close>.\<close>

fun encode_tuple_items ::
  "(serializer \<Rightarrow> 'a \<Rightarrow> serializer result) list \<Rightarrow> serializer \<Rightarrow> 'a list \<Rightarrow> serializer result" where
  "encode_tuple_items (e # es) s (v # vs) = bindE (e s v) (\<lambda>s'. encode_tuple_items es s' vs)"
| "encode_tuple_items _ s _ = Inr s"

definition encode_tuple ::
  "(serializer \<Rightarrow> 'a \<Rightarrow> serializer result) list \<Rightarrow> serializer \<Rightarrow> 'a list \<Rightarrow> serializer result" where
  "encode_tuple encoders s values =
     bindE (guardE (length values = length encoders) AssertionError)
       (\<lambda>_. encode_tuple_items encoders s values)"

fun decode_tuple ::
  "(deserializer \<Rightarrow> ('a \<times> deserializer) result) list \<Rightarrow> deserializer \<Rightarrow> ('a list \<times> deserializer) result" where
  "decode_tuple [] d = Inr ([], d)"
| "decode_tuple (dec # decs) d =
     bindE (dec d) (\<lambda>(v, d'). bindE (decode_tuple decs d') (\<lambda>(vs, d''). Inr (v # vs, d'')))"

section \<open>Signed data\<close>

record 'a signed_data =
  sd_data :: 'a
  script_input :: bytes

definition encode_signed_data ::
  "(serializer \<Rightarrow> 'a \<Rightarrow> serializer result) \<Rightarrow> serializer \<Rightarrow> 'a signed_data \<Rightarrow> serializer result" where
  "encode_signed_data encoder s v =
     bindE (encoder s (sd_data v)) (\<lambda>s'. encode_bytes s' (script_input v))"

definition decode_signed_data ::
  "(deserializer \<Rightarrow> ('a \<times> deserializer) result) \<Rightarrow> deserializer \<Rightarrow> ('a signed_data \<times> deserializer) result" where
  "decode_signed_data decoder d =
     bindE (decoder d) (\<lambda>(data, d').
     bindE (decode_bytes d') (\<lambda>(si, d''). Inr (\<lparr>sd_data = data, script_input = si\<rparr>, d'')))"

section \<open>Sequencing two codecs\<close>

definition encode_pair ::
  "(serializer \<Rightarrow> 'a \<Rightarrow> serializer result) \<Rightarrow> (serializer \<Rightarrow> 'b \<Rightarrow> serializer result) \<Rightarrow>
   serializer \<Rightarrow> 'a \<times> 'b \<Rightarrow> serializer result" where
  "encode_pair e1 e2 s p = bindE (e1 s (fst p)) (\<lambda>s'. e2 s' (snd p))"

definition decode_pair ::
  "(deserializer \<Rightarrow> ('a \<times> deserializer) result) \<Rightarrow> (deserializer \<Rightarrow> ('b \<times> deserializer) result) \<Rightarrow>
   deserializer \<Rightarrow> (('a \<times> 'b) \<times> deserializer) result" where
  "decode_pair d1 d2 d = bindE (d1 d) (\<lambda>(a, d'). bindE (d2 d') (\<lambda>(b, d''). Inr ((a, b), d'')))"

definition pair_img :: "('a \<Rightarrow> bytes) \<Rightarrow> ('b \<Rightarrow> bytes) \<Rightarrow> 'a \<times> 'b \<Rightarrow> bytes" where
  "pair_img i1 i2 p = i1 (fst p) @ i2 (snd p)"

locale codec_pair =
  fst: codec enc1 dec1 img1 valid1 + snd: codec enc2 dec2 img2 valid2
  for enc1 :: "serializer \<Rightarrow> 'a \<Rightarrow> serializer result"
    and dec1 :: "deserializer \<Rightarrow> ('a \<times> deserializer) result"
    and img1 valid1
    and enc2 :: "serializer \<Rightarrow> 'b \<Rightarrow> serializer result"
    and dec2 :: "deserializer \<Rightarrow> ('b \<times> deserializer) result"
    and img2 valid2
begin

lemma enc_pair_ok:
  assumes "valid1 a" and "valid2 b" and "allows (length (img1 a @ img2 b)) s"
  shows "\<exists>u. bindE (enc1 s a) (\<lambda>t. enc2 t b) = Inr u \<and> wrote s (img1 a @ img2 b) u"
proof (rule enc_seq)
  show "\<exists>t. enc1 s a = Inr t \<and> wrote s (img1 a) t"
    using assms by (intro fst.enc_ok) (auto elim: allows_mono)
next
  fix t assume "wrote s (img1 a) t"
  then show "\<exists>u. enc2 t b = Inr u \<and> wrote t (img2 b) u"
    using assms by (intro snd.enc_ok) (auto dest: wrote_allows)
qed

lemma dec_pair_ok:
  assumes "valid1 a" and "valid2 b" and "within (length (img1 a @ img2 b)) d"
    and "remaining d = img1 a @ img2 b @ rest"
  shows "dec1 d = Inr (a, advance (length (img1 a)) d)"
    and "dec2 (advance (length (img1 a)) d) = Inr (b, advance (length (img1 a @ img2 b)) d)"
proof -
  have w: "within (length (img1 a) + length (img2 b)) d"
    using assms(3) by simp
  show "dec1 d = Inr (a, advance (length (img1 a)) d)"
    using assms w by (intro fst.dec_ok) (auto elim: within_mono)
  show "dec2 (advance (length (img1 a)) d) = Inr (b, advance (length (img1 a @ img2 b)) d)"
    using snd.dec_ok [OF assms(2) within_advance [OF w], of rest] assms(4) by simp
qed

sublocale pair: codec "encode_pair enc1 enc2" "decode_pair dec1 dec2" "pair_img img1 img2"
  "\<lambda>p. valid1 (fst p) \<and> valid2 (snd p)"
proof
  fix p s
  assume "valid1 (fst p) \<and> valid2 (snd p)" and "allows (length (pair_img img1 img2 p)) s"
  then show "\<exists>t. encode_pair enc1 enc2 s p = Inr t \<and> wrote s (pair_img img1 img2 p) t"
    using enc_pair_ok by (simp add: encode_pair_def pair_img_def)
next
  fix p d rest
  assume "valid1 (fst p) \<and> valid2 (snd p)" and "within (length (pair_img img1 img2 p)) d"
    and "remaining d = pair_img img1 img2 p @ rest"
  then show "decode_pair dec1 dec2 d = Inr (p, advance (length (pair_img img1 img2 p)) d)"
    using dec_pair_ok [of "fst p" "snd p" d rest] by (simp add: decode_pair_def pair_img_def)
qed

end

section \<open>Collections of codecs\<close>

definition collection_img :: "('a \<Rightarrow> bytes) \<Rightarrow> 'a list \<Rightarrow> bytes" where
  "collection_img img vs = leb128_img False (int (length vs)) @ concat (map img vs)"

context codec
begin

lemma encode_items_ok:
  assumes "list_all valid vs" and "allows (length (concat (map img vs))) s"
  shows "\<exists>t. encode_items enc s vs = Inr t \<and> wrote s (concat (map img vs)) t"
  using assms
proof (induction vs arbitrary: s)
  case Nil
  then show ?case by simp
next
  case (Cons v vs)
  have "\<exists>u. bindE (enc s v) (\<lambda>t. encode_items enc t vs) = Inr u \<and> wrote s (img v @ concat (map img vs)) u"
  proof (rule enc_seq)
    show "\<exists>t. enc s v = Inr t \<and> wrote s (img v) t"
      using Cons.prems by (intro enc_ok) (auto elim: allows_mono)
  next
    fix t assume "wrote s (img v) t"
    then show "\<exists>u. encode_items enc t vs = Inr u \<and> wrote t (concat (map img vs)) u"
      using Cons.prems by (intro Cons.IH) (auto dest: wrote_allows)
  qed
  then show ?case by simp
qed

lemma decode_items_ok:
  assumes "list_all valid vs" and "within (length (concat (map img vs))) d"
    and "remaining d = concat (map img vs) @ rest"
  shows "decode_items dec (length vs) d = Inr (vs, advance (length (concat (map img vs))) d)"
  using assms
proof (induction vs arbitrary: d)
  case Nil
  then show ?case by simp
next
  case (Cons v vs)
  have w: "within (length (img v) + length (concat (map img vs))) d"
    using Cons.prems(2) by simp
  have "dec d = Inr (v, advance (length (img v)) d)"
    using Cons.prems w by (intro dec_ok) (auto elim: within_mono)
  moreover have "decode_items dec (length vs) (advance (length (img v)) d) =
    Inr (vs, advance (length (concat (map img vs))) (advance (length (img v)) d))"
    using Cons.prems within_advance [OF w] by (intro Cons.IH) auto
  ultimately show ?case by simp
qed

lemma collection_ok:
  "codec (encode_collection enc) (decode_collection dec (\<lambda>vs. vs)) (collection_img img) (list_all valid)"
proof
  fix vs s
  assume v: "list_all valid vs" and room: "allows (length (collection_img img vs)) s"
  have "\<exists>u. bindE (encode_leb128 False s (int (length vs))) (\<lambda>t. encode_items enc t vs) = Inr u \<and>
    wrote s (leb128_img False (int (length vs)) @ concat (map img vs)) u"
  proof (rule enc_seq)
    show "\<exists>t. encode_leb128 False s (int (length vs)) = Inr t \<and> wrote s (leb128_img False (int (length vs))) t"
      using room by (intro leb128.enc_ok) (auto simp: leb128_valid_def collection_img_def elim: allows_mono)
  next
    fix t assume "wrote s (leb128_img False (int (length vs))) t"
    then show "\<exists>u. encode_items enc t vs = Inr u \<and> wrote t (concat (map img vs)) u"
      using room v by (intro encode_items_ok) (auto simp: collection_img_def dest: wrote_allows)
  qed
  then show "\<exists>t. encode_collection enc s vs = Inr t \<and> wrote s (collection_img img vs) t"
    by (simp add: encode_collection_def collection_img_def)
next
  fix vs :: "'a list" and d rest
  let ?n = "length (leb128_img False (int (length vs)))"
  assume v: "list_all valid vs" and "within (length (collection_img img vs)) d"
    and r: "remaining d = collection_img img vs @ rest"
  then have w: "within (?n + length (concat (map img vs))) d"
    by (simp add: collection_img_def)
  have "decode_leb128 False d = Inr (int (length vs), advance ?n d)"
    using w r by (intro leb128.dec_ok [of _ _ _ "concat (map img vs) @ rest"])
      (auto simp: leb128_valid_def collection_img_def elim: within_mono)
  moreover have "decode_items dec (length vs) (advance ?n d) =
    Inr (vs, advance (length (concat (map img vs))) (advance ?n d))"
    using r by (intro decode_items_ok [OF v within_advance [OF w]]) (simp add: collection_img_def)
  ultimately show "decode_collection dec (\<lambda>vs. vs) d = Inr (vs, advance (length (collection_img img vs)) d)"
    by (simp add: decode_collection_def collection_img_def)
qed

end

definition optional_img :: "('a \<Rightarrow> bytes) \<Rightarrow> 'a option \<Rightarrow> bytes" where
  "optional_img img v = (case v of None \<Rightarrow> bool_img False | Some x \<Rightarrow> bool_img True @ img x)"

context codec
begin

lemma flagged: "codec_pair encode_bool decode_bool bool_img (\<lambda>_. True) enc dec img valid"
  by (intro codec_pair.intro bool.codec_axioms codec_axioms)

lemma optional_ok:
  "codec (encode_optional enc) (decode_optional dec) (optional_img img) (pred_option valid)"
proof
  fix v s
  assume "pred_option valid v" and "allows (length (optional_img img v)) s"
  then show "\<exists>t. encode_optional enc s v = Inr t \<and> wrote s (optional_img img v) t"
    using bool.enc_ok [of False s] codec_pair.enc_pair_ok [OF flagged, where a = True and b = "the v" and s = s]
    by (cases v) (simp_all add: encode_optional_def optional_img_def)
next
  fix v d rest
  assume "pred_option valid v" and "within (length (optional_img img v)) d"
    and "remaining d = optional_img img v @ rest"
  then show "decode_optional dec d = Inr (v, advance (length (optional_img img v)) d)"
    using bool.dec_ok [of False d rest] codec_pair.dec_pair_ok [OF flagged, where a = True and b = "the v" and d = d and rest = rest]
    by (cases v) (simp_all add: decode_optional_def optional_img_def)
qed

lemma signed_pair: "codec_pair enc dec img valid encode_bytes decode_bytes bytes_img (\<lambda>_. True)"
  by (intro codec_pair.intro bytes.codec_axioms codec_axioms)

lemma signed_data_ok:
  "codec (encode_signed_data enc) (decode_signed_data dec)
     (\<lambda>v. img (sd_data v) @ bytes_img (script_input v)) (\<lambda>v. valid (sd_data v))"
proof
  fix v :: "'a signed_data" and s
  assume "valid (sd_data v)" and "allows (length (img (sd_data v) @ bytes_img (script_input v))) s"
  then show "\<exists>t. encode_signed_data enc s v = Inr t \<and>
    wrote s (img (sd_data v) @ bytes_img (script_input v)) t"
    using codec_pair.enc_pair_ok [OF signed_pair] by (simp add: encode_signed_data_def)
next
  fix v :: "'a signed_data" and d rest
  assume "valid (sd_data v)" and "within (length (img (sd_data v) @ bytes_img (script_input v))) d"
    and "remaining d = (img (sd_data v) @ bytes_img (script_input v)) @ rest"
  then show "decode_signed_data dec d =
    Inr (v, advance (length (img (sd_data v) @ bytes_img (script_input v))) d)"
    using codec_pair.dec_pair_ok [OF signed_pair, of "sd_data v" "script_input v" d rest]
    by (simp add: decode_signed_data_def)
qed

end

lemma encode_mapping_as_collection:
  "encode_mapping ke ve = encode_collection (encode_pair ke ve)"
proof -
  have "encode_mapping_items ke ve s items = encode_items (encode_pair ke ve) s items" for s items
    by (induction items arbitrary: s) (auto simp: encode_pair_def bindE_assoc)
  then show ?thesis
    by (simp add: encode_mapping_def encode_collection_def fun_eq_iff)
qed

lemma decode_mapping_as_collection:
  "decode_mapping kd vd = decode_collection (decode_pair kd vd)"
proof -
  have "decode_mapping_items kd vd n d = decode_items (decode_pair kd vd) n d" for n d
    by (induction n arbitrary: d) (auto simp: decode_pair_def bindE_assoc bindE_def split: sum.splits)
  then show ?thesis
    by (simp add: decode_mapping_def decode_collection_def fun_eq_iff)
qed

context codec_pair
begin

lemma mapping_ok:
  "codec (encode_mapping enc1 enc2) (decode_mapping dec1 dec2 (\<lambda>items. items))
     (collection_img (pair_img img1 img2)) (list_all (\<lambda>(k, v). valid1 k \<and> valid2 v))"
  using pair.collection_ok
  by (simp add: encode_mapping_as_collection decode_mapping_as_collection case_prod_beta')

end

text \<open>A tuple of values with a matching tuple of codecs.\<close>

lemma encode_tuple_items_ok:
  assumes "list_all2 (\<lambda>(e, dc, i, p) v. codec e dc i p \<and> p v) cs vs"
    and "allows (length (concat (map2 (\<lambda>(e, dc, i, p) v. i v) cs vs))) s"
  shows "\<exists>t. encode_tuple_items (map fst cs) s vs = Inr t \<and>
    wrote s (concat (map2 (\<lambda>(e, dc, i, p) v. i v) cs vs)) t"
  using assms
proof (induction cs vs arbitrary: s rule: list_all2_induct)
  case Nil
  then show ?case by simp
next
  case (Cons c cs v vs)
  obtain e dc i p where c: "c = (e, dc, i, p)" "codec e dc i p" "p v"
    using Cons.hyps(1) by (cases c) auto
  let ?rest = "concat (map2 (\<lambda>(e, dc, i, p) v. i v) cs vs)"
  have "\<exists>u. bindE (e s v) (\<lambda>t. encode_tuple_items (map fst cs) t vs) = Inr u \<and> wrote s (i v @ ?rest) u"
  proof (rule enc_seq)
    show "\<exists>t. e s v = Inr t \<and> wrote s (i v) t"
      using c Cons.prems by (intro codec.enc_ok [OF c(2)]) (auto elim: allows_mono)
  next
    fix t assume "wrote s (i v) t"
    then show "\<exists>u. encode_tuple_items (map fst cs) t vs = Inr u \<and> wrote t ?rest u"
      using c Cons.prems by (intro Cons.IH) (auto dest: wrote_allows)
  qed
  then show ?case by (simp add: c)
qed

lemma decode_tuple_ok:
  assumes "list_all2 (\<lambda>(e, dc, i, p) v. codec e dc i p \<and> p v) cs vs"
    and "within (length (concat (map2 (\<lambda>(e, dc, i, p) v. i v) cs vs))) d"
    and "remaining d = concat (map2 (\<lambda>(e, dc, i, p) v. i v) cs vs) @ rest"
  shows "decode_tuple (map (\<lambda>c. fst (snd c)) cs) d =
    Inr (vs, advance (length (concat (map2 (\<lambda>(e, dc, i, p) v. i v) cs vs))) d)"
  using assms
proof (induction cs vs arbitrary: d rule: list_all2_induct)
  case Nil
  then show ?case by simp
next
  case (Cons c cs v vs)
  obtain e dc i p where c: "c = (e, dc, i, p)" "codec e dc i p" "p v"
    using Cons.hyps(1) by (cases c) auto
  let ?rest = "concat (map2 (\<lambda>(e, dc, i, p) v. i v) cs vs)"
  have w: "within (length (i v) + length ?rest) d"
    using Cons.prems(1) c by simp
  have "dc d = Inr (v, advance (length (i v)) d)"
    using Cons.prems c w by (intro codec.dec_ok [OF c(2,3)]) (auto elim: within_mono)
  moreover have "decode_tuple (map (\<lambda>c. fst (snd c)) cs) (advance (length (i v)) d) =
    Inr (vs, advance (length ?rest) (advance (length (i v)) d))"
    using Cons.prems c within_advance [OF w] by (intro Cons.IH) auto
  ultimately show ?case by (simp add: c)
qed

section \<open>Compound decoders only move forward\<close>

context consuming
begin

lemma items_consume: "decode_items dec n d = Inr (vs, d') \<Longrightarrow> \<exists>k. consumed k d d'"
proof (induction n arbitrary: d vs d')
  case 0
  then show ?case by (auto intro: exI [of _ 0])
next
  case (Suc n)
  then obtain v d1 vs' where "dec d = Inr (v, d1)" and "decode_items dec n d1 = Inr (vs', d')"
    by (auto simp: result_simps)
  then show ?case
    using consumes Suc.IH by (blast intro: consumed_trans)
qed

lemma collection_consumes: "consuming (decode_collection dec builder)"
proof
  fix d r d'
  assume "decode_collection dec builder d = Inr (r, d')"
  then obtain len d1 vs where "decode_leb128 False d = Inr (len, d1)"
    and "decode_items dec (nat len) d1 = Inr (vs, d')"
    by (auto simp: decode_collection_def result_simps)
  then show "\<exists>n. consumed n d d'"
    using leb128_reader.consumes items_consume by (blast intro: consumed_trans)
qed

lemma optional_consumes: "consuming (decode_optional dec)"
proof
  fix d v d'
  assume "decode_optional dec d = Inr (v, d')"
  then show "\<exists>n. consumed n d d'"
    using bool_reader.consumes consumes
    by (fastforce simp: decode_optional_def result_simps split: if_splits intro: consumed_trans)
qed

lemma signed_data_consumes: "consuming (decode_signed_data dec)"
proof
  fix d v d'
  assume "decode_signed_data dec d = Inr (v, d')"
  then obtain x d1 si where "dec d = Inr (x, d1)" and "decode_bytes d1 = Inr (si, d')"
    by (auto simp: decode_signed_data_def result_simps)
  then show "\<exists>n. consumed n d d'"
    using consumes bytes_reader.consumes by (blast intro: consumed_trans)
qed

end

lemma pair_consumes:
  assumes "consuming d1" and "consuming d2"
  shows "consuming (decode_pair d1 d2)"
proof
  fix d p d'
  assume "decode_pair d1 d2 d = Inr (p, d')"
  then obtain a e b where "d1 d = Inr (a, e)" and "d2 e = Inr (b, d')"
    by (auto simp: decode_pair_def result_simps)
  then show "\<exists>n. consumed n d d'"
    using consuming.consumes [OF assms(1)] consuming.consumes [OF assms(2)]
    by (blast intro: consumed_trans)
qed

lemma mapping_consumes:
  "consuming kd \<Longrightarrow> consuming vd \<Longrightarrow> consuming (decode_mapping kd vd builder)"
  by (simp add: decode_mapping_as_collection consuming.collection_consumes pair_consumes)

lemma tuple_consumes:
  assumes "list_all consuming decs"
  shows "consuming (decode_tuple decs)"
proof
  show "\<exists>n. consumed n d d'" if "decode_tuple decs d = Inr (vs, d')" for d vs d'
    using assms that
  proof (induction decs arbitrary: d vs d')
    case Nil
    then show ?case by (auto intro: exI [of _ 0])
  next
    case (Cons dc decs)
    then obtain v d1 vs' where "dc d = Inr (v, d1)" and "decode_tuple decs d1 = Inr (vs', d')"
      by (auto simp: result_simps)
    moreover have "consuming dc" and "list_all consuming decs"
      using Cons.prems by simp_all
    ultimately show ?case
      using Cons.IH consuming.consumes [of dc] by (blast intro: consumed_trans)
  qed
qed

section \<open>Properties\<close>

text \<open>
  C15. LEB128 round trip: every integer (non-negative when unsigned) is encoded, and decoding the
  bytes written, followed by anything, returns that integer and leaves exactly what followed.
\<close>

theorem leb128_round_trip:
  assumes "sgnd \<or> 0 \<le> v"
  shows "\<exists>s. encode_leb128 sgnd build_bytes_serializer v = Inr s \<and>
    decode_leb128 sgnd (build_bytes_deserializer (ser_finalize s @ rest)) = Inr (v, BytesDeserializer rest)"
  using assms leb128.round_trip [of sgnd v rest] by (simp add: leb128_valid_def)

theorem leb128_round_trip_witness:
  "((False \<or> 0 \<le> (624485 :: int)) \<and>
   (\<exists>s. encode_leb128 False build_bytes_serializer 624485 = Inr s \<and>
    decode_leb128 False (build_bytes_deserializer (ser_finalize s @ [116])) = Inr (624485, BytesDeserializer [116])))"
proof -
  have h: "False \<or> 0 \<le> (624485 :: int)" by simp
  show ?thesis using h leb128_round_trip [OF h, of "[116]"] by blast
qed

text \<open>
  C16. The bounded unsigned encoder takes exactly the numbers that fit: with a limit of \<open>n + 1\<close> bytes
  it encodes \<open>v\<close> exactly if \<open>v < 128 ^ (n + 1)\<close>, and then the bounded decoder gives \<open>v\<close> back with
  the rest of the buffer; otherwise it raises \<open>ValueError\<close>.
\<close>

theorem bounded_leb128:
  assumes "0 \<le> v"
  shows "(v < 128 ^ Suc n \<longrightarrow> (\<exists>bs. encode_unsigned v (Some (int (Suc n))) = Inr bs \<and> length bs \<le> Suc n \<and>
      decode_unsigned (bs @ rest) (Some (int (Suc n))) = Inr (v, rest))) \<and>
    (128 ^ Suc n \<le> v \<longrightarrow> encode_unsigned v (Some (int (Suc n))) = Inl ValueError)"
proof -
  have "int (length (leb128_img False v)) \<le> int (Suc n) \<longleftrightarrow> v < 128 ^ Suc n"
    using unsigned_img_length [OF assms, of n] by linarith
  then show ?thesis
    using encode_unsigned_img [OF assms, of "int (Suc n)"] decode_unsigned_img [OF assms, of "int (Suc n)" rest]
    by (simp only: of_nat_le_iff) auto
qed

theorem bounded_leb128_witness:
  "(\<exists>bs. encode_unsigned 16383 (Some 2) = Inr bs \<and> length bs \<le> 2 \<and> decode_unsigned (bs @ [7]) (Some 2) = Inr (16383, [7])) \<and>
   encode_unsigned 16384 (Some 2) = Inl ValueError"
  using bounded_leb128 [of 16383 1 "[7]"] bounded_leb128 [of 16384 1 "[7]"] by (simp add: numeral_2_eq_2)

text \<open>Mappings from strings to optional lists of signed integers, a type that nests every compound encoder.\<close>

interpretation optional_ints: codec
  "encode_optional (encode_collection (encode_leb128 True))" "decode_optional (decode_collection (decode_leb128 True) (\<lambda>vs. vs))"
  "optional_img (collection_img (leb128_img True))" "pred_option (list_all (leb128_valid True))"
  by (rule codec.optional_ok [OF leb128.collection_ok])

interpretation str_ints: codec_pair
  encode_utf8 decode_utf8 utf8_img utf8_valid
  "encode_optional (encode_collection (encode_leb128 True))" "decode_optional (decode_collection (decode_leb128 True) (\<lambda>vs. vs))"
  "optional_img (collection_img (leb128_img True))" "pred_option (list_all (leb128_valid True))"
  by (intro codec_pair.intro utf8.codec_axioms optional_ints.codec_axioms)

lemma decode_mapping_builder:
  "decode_mapping kd vd builder d = bindE (decode_mapping kd vd (\<lambda>items. items) d) (\<lambda>(items, d'). Inr (builder items, d'))"
  by (simp add: decode_mapping_def bindE_def split: sum.splits prod.splits)

text \<open>The constructor \<^verbatim>\<open>dict\<close>: of two items with the same key, the last one stays.\<close>

definition dict :: "('k \<times> 'v) list \<Rightarrow> ('k \<rightharpoonup> 'v)" where
  "dict items = map_of (rev items)"

lemma dict_items: "distinct (map fst items) \<Longrightarrow> dict items = map_of items"
  by (auto simp: dict_def intro!: map_of_eqI simp: rev_map [symmetric])

text \<open>
  C17. Compound values survive the trip: a dictionary from strings to optional lists of integers is
  encoded whenever its keys are encodable text, and decoding the bytes, whatever follows them, gives
  a dictionary with the same entries and leaves exactly what followed.
\<close>

theorem mapping_round_trip:
  assumes "list_all (\<lambda>(k, v). utf8_valid k) items" and "distinct (map fst items)"
  shows "\<exists>s. encode_mapping encode_utf8 (encode_optional (encode_collection (encode_leb128 True))) build_bytes_serializer items = Inr s \<and>
    decode_mapping decode_utf8 (decode_optional (decode_collection (decode_leb128 True) (\<lambda>vs. vs))) dict
      (build_bytes_deserializer (ser_finalize s @ rest)) = Inr (map_of items, BytesDeserializer rest)"
proof -
  have "pred_option (list_all (leb128_valid True)) v" for v :: "int list option"
    by (cases v) (simp_all add: leb128_valid_def list_all_iff)
  then have "list_all (\<lambda>(k, v). utf8_valid k \<and> pred_option (list_all (leb128_valid True)) v) items"
    using assms by (simp add: list_all_iff)
  from codec.round_trip [OF str_ints.mapping_ok this, of rest] show ?thesis
    by (auto simp: decode_mapping_builder [where builder = dict] dict_items [OF assms(2)])
qed

theorem mapping_round_trip_witness:
  "\<exists>s. encode_mapping encode_utf8 (encode_optional (encode_collection (encode_leb128 True))) build_bytes_serializer
      [([233, 0x20AC], Some [-1, 300]), ([], None)] = Inr s \<and>
    decode_mapping decode_utf8 (decode_optional (decode_collection (decode_leb128 True) (\<lambda>vs. vs))) dict
      (build_bytes_deserializer (ser_finalize s @ [9])) =
      Inr (map_of [([233, 0x20AC], Some [-1, 300]), ([], None)], BytesDeserializer [9])"
  by (rule mapping_round_trip) (simp_all add: utf8_valid_def is_char_def is_surrogate_def)

text \<open>
  C18. A byte limit holds through nested decoders: decoding such a dictionary through an adapter that
  allows \<open>m\<close> bytes never reads more than \<open>m\<close> bytes of the input, whatever sizes the input claims.
\<close>

theorem max_bytes_decoding:
  assumes "0 \<le> m"
    and "decode_mapping decode_utf8 (decode_optional (decode_collection (decode_leb128 True) (\<lambda>vs. vs))) builder
      (des_with_max_bytes d m) = Inr (v, d')"
  shows "int (length (remaining d)) - int (length (remaining d')) \<le> m"
proof -
  have "consuming (decode_mapping decode_utf8 (decode_optional (decode_collection (decode_leb128 True) (\<lambda>vs. vs))) builder)"
    by (intro mapping_consumes utf8_reader.consuming_axioms
        consuming.optional_consumes [OF leb128_reader.collection_consumes])
  from consuming.max_bytes_respected [OF this assms(2) [unfolded des_with_max_bytes_def] assms(1)] show ?thesis .
qed

theorem max_bytes_decoding_witness:
  "\<exists>d'. decode_mapping decode_utf8 (decode_optional (decode_collection (decode_leb128 True) (\<lambda>vs. vs))) dict
      (des_with_max_bytes (BytesDeserializer [0, 7, 7, 7]) 1) = Inr (Map.empty, d') \<and>
    int (length (remaining (BytesDeserializer [0, 7, 7, 7]))) - int (length (remaining d')) \<le> 1"
proof -
  have "decode_mapping decode_utf8 (decode_optional (decode_collection (decode_leb128 True) (\<lambda>vs. vs))) dict
      (des_with_max_bytes (BytesDeserializer [0, 7, 7, 7]) 1) = Inr (Map.empty, MaxBytesDeserializer (BytesDeserializer [7, 7, 7]) 0)"
    by (simp add: decode_mapping_def decode_leb128_def decode_leb128_loop.simps des_with_max_bytes_def bits_arith dict_def)
  from this max_bytes_decoding [OF zero_le_one this] show ?thesis by (intro exI conjI)
qed

text \<open>
  C19. Output values have one encoding, except one: what the decoder accepts is in range and is the
  image the encoder writes, or is the 8-byte form of \<open>2 ^ 31 - 1\<close>, a value whose encoding has 4
  bytes. The check for over-long values is \<open><\<close> where \<open>\<le>\<close> is needed, so that second form is accepted.
\<close>

theorem output_value_accepted:
  "decode_output_value strict (BytesDeserializer xs) = Inr (v, BytesDeserializer rest) \<longleftrightarrow>
    output_value_valid strict v \<and>
    (xs = output_value_img v @ rest \<or> v = 2 ^ 31 - 1 \<and> xs = be_bytes 8 (- (2 ^ 31 - 1)) @ rest)"
  (is "?dec \<longleftrightarrow> ?acc")
proof
  assume ?dec
  from decode_output_value_image [OF this] show ?acc by (auto simp: MAX_OUTPUT_VALUE_32_def)
next
  assume acc: ?acc
  then show ?dec
  proof (elim conjE disjE)
    assume "output_value_valid strict v" "xs = output_value_img v @ rest"
    then show ?dec using output_value.dec_ok [of strict v "BytesDeserializer xs" rest] by simp
  next
    assume "v = 2 ^ 31 - 1" "xs = be_bytes 8 (- (2 ^ 31 - 1)) @ rest"
    then show ?dec
      using decode_output_value_long [of "BytesDeserializer xs" v rest strict]
      by (simp add: MAX_OUTPUT_VALUE_32_def del: be_bytes.simps)
  qed
qed

end
