(* ===== verification/Settings.thy ===== *)
theory Settings
  imports Prelude
begin

text \<open>
  The fields of \<^verbatim>\<open>HathorSettings\<close> (\<^verbatim>\<open>hathor/conf/settings.py\<close>) that the modelled code reads, and the
  settings object with the default values of that class and the version bytes of the mainnet.
  \<^verbatim>\<open>MAXIMUM_NUMBER_OF_HALVINGS\<close>, a property computed with logarithms in the source, is a field here; its
  value is the integer part of \<open>log\<^sub>2 64 - log\<^sub>2 8\<close>.
\<close>

text \<open>The \<^verbatim>\<open>type\<close> of \<^verbatim>\<open>ConsensusSettings\<close> (\<^verbatim>\<open>consensus/consensus_settings.py\<close>).\<close>

datatype consensus_type = PROOF_OF_WORK | PROOF_OF_AUTHORITY

text \<open>
  A float that is not negative is its mantissa and the number of binary digits after the point: the
  pair \<open>(m, e)\<close> is \<open>m / 2 ^ e\<close>. The literal \<^verbatim>\<open>0.01\<close> is the double \<open>5764607523034235 / 2 ^ 59\<close>.
\<close>

record hathor_settings =
  P2PKH_VERSION_BYTE :: bytes
  MULTISIG_VERSION_BYTE :: bytes
  HATHOR_TOKEN_UID :: bytes
  HATHOR_TOKEN_NAME :: "nat list"
  HATHOR_TOKEN_SYMBOL :: "nat list"
  MAX_LENGTH_TOKEN_NAME :: int
  MAX_LENGTH_TOKEN_SYMBOL :: int
  REWARD_SPEND_MIN_BLOCKS :: int
  MAX_NUM_INPUTS :: int
  MAX_NUM_OUTPUTS :: int
  MAX_OUTPUT_SCRIPT_SIZE :: int
  MAX_INPUT_DATA_SIZE :: int
  MAX_MULTISIG_PUBKEYS :: int
  MAX_MULTISIG_SIGNATURES :: int
  MAX_TX_SIGOPS_INPUT :: int
  MAX_TX_SIGOPS_OUTPUT :: int
  BLOCK_DATA_MAX_SIZE :: int
  BLOCKS_PER_HALVING :: "int option"
  INITIAL_TOKEN_UNITS_PER_BLOCK :: int
  MINIMUM_TOKEN_UNITS_PER_BLOCK :: int
  MAX_DISTANCE_BETWEEN_BLOCKS :: int
  ENABLE_NANO_CONTRACTS :: bool
  TOKEN_DEPOSIT_PERCENTAGE :: "nat \<times> nat"
  CONSENSUS_ALGORITHM :: consensus_type
  GENESIS_BLOCK_HASH :: bytes
  GENESIS_TX1_HASH :: bytes
  GENESIS_TX2_HASH :: bytes
  MAXIMUM_NUMBER_OF_HALVINGS :: int
  AVG_TIME_BETWEEN_BLOCKS :: int
  BLOCK_DIFFICULTY_N_BLOCKS :: int
  WEIGHT_DECAY_ENABLED :: bool
  WEIGHT_DECAY_ACTIVATE_DISTANCE :: int
  WEIGHT_DECAY_WINDOW_SIZE :: int
  ENABLE_ON_CHAIN_BLUEPRINTS :: bool
  OLD_MAX_MERKLE_PATH_LENGTH :: int
  NEW_MAX_MERKLE_PATH_LENGTH :: int

definition mainnet_settings :: hathor_settings where
  "mainnet_settings = \<lparr>
     P2PKH_VERSION_BYTE = [0x28],
     MULTISIG_VERSION_BYTE = [0x64],
     HATHOR_TOKEN_UID = [0],
     HATHOR_TOKEN_NAME = [72, 97, 116, 104, 111, 114],
     HATHOR_TOKEN_SYMBOL = [72, 84, 82],
     MAX_LENGTH_TOKEN_NAME = 30,
     MAX_LENGTH_TOKEN_SYMBOL = 5,
     REWARD_SPEND_MIN_BLOCKS = 300,
     MAX_NUM_INPUTS = 255,
     MAX_NUM_OUTPUTS = 255,
     MAX_OUTPUT_SCRIPT_SIZE = 1024,
     MAX_INPUT_DATA_SIZE = 1024,
     MAX_MULTISIG_PUBKEYS = 20,
     MAX_MULTISIG_SIGNATURES = 15,
     MAX_TX_SIGOPS_INPUT = 255 * 5,
     MAX_TX_SIGOPS_OUTPUT = 255 * 5,
     BLOCK_DATA_MAX_SIZE = 100,
     BLOCKS_PER_HALVING = Some (2 * 60 * 24 * 365),
     INITIAL_TOKEN_UNITS_PER_BLOCK = 64,
     MINIMUM_TOKEN_UNITS_PER_BLOCK = 8,
     MAX_DISTANCE_BETWEEN_BLOCKS = 150 * 30,
     ENABLE_NANO_CONTRACTS = False,
     TOKEN_DEPOSIT_PERCENTAGE = (5764607523034235, 59),
     CONSENSUS_ALGORITHM = PROOF_OF_WORK,
     GENESIS_BLOCK_HASH = [0x00, 0x00, 0x06, 0xcb, 0x93, 0x38, 0x5b, 0x8b, 0x87, 0xa5, 0x45, 0xa1, 0xcb, 0xb6, 0x19, 0x7e,
       0x6c, 0xaf, 0xf6, 0x00, 0xc1, 0x2c, 0xc1, 0x2f, 0xc5, 0x42, 0x50, 0xd3, 0x9c, 0x80, 0x88, 0xfc],
     GENESIS_TX1_HASH = [0x00, 0x02, 0xd4, 0xd2, 0xa1, 0x5d, 0xef, 0x76, 0x04, 0x68, 0x8e, 0x18, 0x78, 0xab, 0x68, 0x11,
       0x42, 0xa7, 0xb1, 0x55, 0xcb, 0xe5, 0x2a, 0x6b, 0x4e, 0x03, 0x12, 0x50, 0xae, 0x96, 0xdb, 0x0a],
     GENESIS_TX2_HASH = [0x00, 0x02, 0xad, 0x8d, 0x15, 0x19, 0xda, 0xad, 0xdc, 0x8e, 0x1a, 0x37, 0xb1, 0x4a, 0xac, 0x0b,
       0x04, 0x51, 0x29, 0xc0, 0x18, 0x32, 0x28, 0x1f, 0xb1, 0xc0, 0x2d, 0x87, 0x3c, 0x7a, 0xbb, 0xf9],
     MAXIMUM_NUMBER_OF_HALVINGS = 3,
     AVG_TIME_BETWEEN_BLOCKS = 30,
     BLOCK_DIFFICULTY_N_BLOCKS = 134,
     WEIGHT_DECAY_ENABLED = True,
     WEIGHT_DECAY_ACTIVATE_DISTANCE = 120 * 30,
     WEIGHT_DECAY_WINDOW_SIZE = 60,
     ENABLE_ON_CHAIN_BLUEPRINTS = False,
     OLD_MAX_MERKLE_PATH_LENGTH = 12,
     NEW_MAX_MERKLE_PATH_LENGTH = 20\<rparr>"

end
