(* ===== verification/Vertex.thy ===== *)
theory Vertex
  imports Compound_Encodings Settings
begin

text \<open>
  The wire format of vertices (\<^verbatim>\<open>hathor/transaction/base_transaction.py\<close>, \<^verbatim>\<open>transaction.py\<close>,
  \<^verbatim>\<open>token_creation_tx.py\<close>, \<^verbatim>\<open>block.py\<close>, \<^verbatim>\<open>headers/nano_header.py\<close>, \<^verbatim>\<open>util.py\<close>): inputs, outputs, the nano
  header, the funds and graph parts, the signature hash and the vertex hash. The class hierarchy is
  a hierarchy of records: \<open>generic_vertex\<close>, extended by \<open>transaction\<close>, \<open>token_creation_tx\<close> and
  \<open>block\<close>. A parser takes a buffer and returns what it read and the rest of the buffer, as the
  Python methods do. The weight, a Python float, is kept as its 64-bit IEEE 754 pattern. SHA-256 is
  a parameter of every definition that hashes.
\<close>

section \<open>Helpers of \<^verbatim>\<open>transaction/util.py\<close> and of \<^verbatim>\<open>struct\<close>\<close>

text \<open>
  \<^verbatim>\<open>struct.pack\<close> of several unsigned fields in network byte order, given as sizes and values, and
  \<^verbatim>\<open>unpack\<close> of a format given as a list of sizes.
\<close>

fun pack :: "(nat \<times> int) list \<Rightarrow> bytes result" where
  "pack [] = Inr []"
| "pack ((n, v) # flds) =
     bindE (struct_pack n False v) (\<lambda>bs. bindE (pack flds) (\<lambda>cs. Inr (bs @ cs)))"

fun struct_fields :: "nat list \<Rightarrow> bytes \<Rightarrow> int list" where
  "struct_fields [] buf = []"
| "struct_fields (n # fmt) buf = int_from_bytes False (take n buf) # struct_fields fmt (drop n buf)"

definition unpack :: "nat list \<Rightarrow> bytes \<Rightarrow> (int list \<times> bytes) result" where
  "unpack fmt buf =
     (let sz = sum_list fmt
      in if length (take sz buf) = sz then Inr (struct_fields fmt (take sz buf), drop sz buf)
         else Inl StructError)"

definition unpack_len :: "int \<Rightarrow> bytes \<Rightarrow> bytes \<times> bytes" where
  "unpack_len n buf = (take (nat n) buf, drop (nat n) buf)"

definition bytes_to_output_value :: "bytes \<Rightarrow> (int \<times> bytes) result" where
  "bytes_to_output_value data =
     bindE (catchE (decode_output_value True (build_bytes_deserializer data))
              (\<lambda>e. if e = BadDataError then Inl (TxValidationError InvalidOutputValue) else Inl e))
       (\<lambda>(output_value, d).
          bindE (read_all d) (\<lambda>(remaining_data, _). Inr (output_value, remaining_data)))"

definition output_value_to_bytes :: "int \<Rightarrow> bytes result" where
  "output_value_to_bytes number =
     bindE (catchE (encode_output_value True build_bytes_serializer number)
              (\<lambda>e. if e = ValueError then Inl (TxValidationError InvalidOutputValue) else Inl e))
       (\<lambda>s. Inr (ser_finalize s))"

definition decode_string_utf8 :: "bytes \<Rightarrow> pystr result" where
  "decode_string_utf8 encoded =
     catchE (utf8_decode encoded) (\<lambda>e. if e = UnicodeDecodeError then Inl StructError else Inl e)"

text \<open>\<^verbatim>\<open>str.encode('ascii')\<close> and \<^verbatim>\<open>bytes.decode('ascii')\<close>.\<close>

definition ascii_encode :: "pystr \<Rightarrow> bytes result" where
  "ascii_encode s = (if \<forall>c \<in> set s. c < 128 then Inr (map of_nat s) else Inl UnicodeEncodeError)"

definition ascii_decode :: "bytes \<Rightarrow> pystr result" where
  "ascii_decode bs = (if \<forall>b \<in> set bs. unat b < 128 then Inr (map unat bs) else Inl UnicodeDecodeError)"

text \<open>
  A loop \<^verbatim>\<open>for _ in range(n)\<close> that parses one item from the buffer and appends it, and the loop that
  concatenates the serialization of every item.
\<close>

fun parse_n :: "(bytes \<Rightarrow> ('a \<times> bytes) result) \<Rightarrow> nat \<Rightarrow> bytes \<Rightarrow> ('a list \<times> bytes) result" where
  "parse_n p 0 buf = Inr ([], buf)"
| "parse_n p (Suc n) buf =
     bindE (p buf) (\<lambda>(x, buf). bindE (parse_n p n buf) (\<lambda>(xs, buf). Inr (x # xs, buf)))"

fun print_all :: "('a \<Rightarrow> bytes result) \<Rightarrow> 'a list \<Rightarrow> bytes result" where
  "print_all p [] = Inr []"
| "print_all p (x # xs) = bindE (p x) (\<lambda>bs. bindE (print_all p xs) (\<lambda>cs. Inr (bs @ cs)))"

section \<open>Inputs and outputs\<close>

definition TX_HASH_SIZE :: int where
  "TX_HASH_SIZE = 32"

record tx_input =
  in_tx_id :: bytes
  in_index :: int
  in_data :: bytes

definition TxInput_bytes :: "tx_input \<Rightarrow> bytes result" where
  "TxInput_bytes i =
     bindE (int_to_bytes 1 False (in_index i)) (\<lambda>ib.
     bindE (int_to_bytes 2 False (int (length (in_data i)))) (\<lambda>lb.
     Inr (in_tx_id i @ ib @ lb @ in_data i)))"

definition TxInput_get_sighash_bytes :: "tx_input \<Rightarrow> bytes result" where
  "TxInput_get_sighash_bytes i =
     bindE (int_to_bytes 1 False (in_index i)) (\<lambda>ib.
     bindE (int_to_bytes 2 False 0) (\<lambda>lb.
     Inr (in_tx_id i @ ib @ lb)))"

definition TxInput_create_from_bytes :: "bytes \<Rightarrow> (tx_input \<times> bytes) result" where
  "TxInput_create_from_bytes buf =
     (let (input_tx_id, buf) = unpack_len TX_HASH_SIZE buf in
      bindE (unpack [1, 2] buf) (\<lambda>(flds, buf).
      let (input_data, buf) = unpack_len (flds ! 1) buf in
      Inr (\<lparr>in_tx_id = input_tx_id, in_index = flds ! 0, in_data = input_data\<rparr>, buf)))"

definition TOKEN_INDEX_MASK :: int where
  "TOKEN_INDEX_MASK = 127"

definition TOKEN_AUTHORITY_MASK :: int where
  "TOKEN_AUTHORITY_MASK = 128"

definition TOKEN_MINT_MASK :: int where
  "TOKEN_MINT_MASK = 1"

definition TOKEN_MELT_MASK :: int where
  "TOKEN_MELT_MASK = 2"

definition ALL_AUTHORITIES :: int where
  "ALL_AUTHORITIES = TOKEN_MINT_MASK OR TOKEN_MELT_MASK"

record tx_output =
  out_value :: int
  out_script :: bytes
  token_data :: int

text \<open>The constructor checks the value; the type annotations make its assertions hold.\<close>

definition TxOutput_init :: "int \<Rightarrow> bytes \<Rightarrow> int \<Rightarrow> tx_output result" where
  "TxOutput_init v script td =
     (if v \<le> 0 \<or> v > MAX_OUTPUT_VALUE_64 then Inl (TxValidationError InvalidOutputValue)
      else Inr \<lparr>out_value = v, out_script = script, token_data = td\<rparr>)"

definition TxOutput_bytes :: "tx_output \<Rightarrow> bytes result" where
  "TxOutput_bytes out =
     bindE (output_value_to_bytes (out_value out)) (\<lambda>vb.
     bindE (int_to_bytes 1 False (token_data out)) (\<lambda>tb.
     bindE (int_to_bytes 2 False (int (length (out_script out)))) (\<lambda>lb.
     Inr (vb @ tb @ lb @ out_script out))))"

definition TxOutput_create_from_bytes :: "bytes \<Rightarrow> (tx_output \<times> bytes) result" where
  "TxOutput_create_from_bytes buf =
     bindE (bytes_to_output_value buf) (\<lambda>(v, buf).
     bindE (unpack [1, 2] buf) (\<lambda>(flds, buf).
     let (script, buf) = unpack_len (flds ! 1) buf in
     bindE (TxOutput_init v script (flds ! 0)) (\<lambda>out. Inr (out, buf))))"

definition get_token_index :: "tx_output \<Rightarrow> int" where
  "get_token_index out = token_data out AND TOKEN_INDEX_MASK"

definition is_token_authority :: "tx_output \<Rightarrow> bool" where
  "is_token_authority out = ((token_data out AND TOKEN_AUTHORITY_MASK) > 0)"

definition can_mint_token :: "tx_output \<Rightarrow> bool" where
  "can_mint_token out = (is_token_authority out \<and> (out_value out AND TOKEN_MINT_MASK) > 0)"

definition can_melt_token :: "tx_output \<Rightarrow> bool" where
  "can_melt_token out = (is_token_authority out \<and> (out_value out AND TOKEN_MELT_MASK) > 0)"

section \<open>The nano header\<close>

datatype nc_action_type = DEPOSIT | WITHDRAWAL | GRANT_AUTHORITY | ACQUIRE_AUTHORITY

fun nc_action_value :: "nc_action_type \<Rightarrow> int" where
  "nc_action_value DEPOSIT = 1"
| "nc_action_value WITHDRAWAL = 2"
| "nc_action_value GRANT_AUTHORITY = 3"
| "nc_action_value ACQUIRE_AUTHORITY = 4"

definition nc_action_to_bytes :: "nc_action_type \<Rightarrow> bytes result" where
  "nc_action_to_bytes a = int_to_bytes 1 False (nc_action_value a)"

definition nc_action_from_bytes :: "bytes \<Rightarrow> nc_action_type result" where
  "nc_action_from_bytes data =
     (let v = int_from_bytes False data
      in if v = 1 then Inr DEPOSIT
         else if v = 2 then Inr WITHDRAWAL
         else if v = 3 then Inr GRANT_AUTHORITY
         else if v = 4 then Inr ACQUIRE_AUTHORITY
         else Inl ValueError)"

record nano_header_action =
  action_type :: nc_action_type
  token_index :: int
  action_amount :: int

record nano_header =
  nc_seqnum :: int
  nc_id :: bytes
  nc_method :: pystr
  nc_args_bytes :: bytes
  nc_actions :: "nano_header_action list"
  nc_address :: bytes
  nc_script :: bytes

definition NANO_HEADER_ID :: bytes where
  "NANO_HEADER_ID = [0x10]"

definition ADDRESS_LEN_BYTES :: int where
  "ADDRESS_LEN_BYTES = 25"

definition ADDRESS_SEQNUM_SIZE :: int where
  "ADDRESS_SEQNUM_SIZE = 8"

definition NC_SCRIPT_LEN_MAX_BYTES :: int where
  "NC_SCRIPT_LEN_MAX_BYTES = 2"

definition deserialize_action :: "bytes \<Rightarrow> (nano_header_action \<times> bytes) result" where
  "deserialize_action buf =
     bindE (nc_action_from_bytes (take 1 buf)) (\<lambda>ty.
     bindE (unpack [1] (drop 1 buf)) (\<lambda>(flds, buf).
     bindE (bytes_to_output_value buf) (\<lambda>(amount, buf).
     Inr (\<lparr>action_type = ty, token_index = flds ! 0, action_amount = amount\<rparr>, buf))))"

definition nano_deserialize :: "bool \<Rightarrow> bytes \<Rightarrow> (nano_header \<times> bytes) result" where
  "nano_deserialize is_tx buf =
     bindE (guardE is_tx AssertionError) (\<lambda>_.
      let (header_id, buf) = (take 1 buf, drop 1 buf) in
      bindE (guardE (header_id = NANO_HEADER_ID) AssertionError) (\<lambda>_.
      let (id, buf) = unpack_len 32 buf in
      bindE (decode_unsigned buf (Some ADDRESS_SEQNUM_SIZE)) (\<lambda>(seqnum, buf).
      bindE (unpack [1] buf) (\<lambda>(f1, buf).
      let (meth, buf) = unpack_len (f1 ! 0) buf in
      bindE (unpack [2] buf) (\<lambda>(f2, buf).
      let (args_bytes, buf) = unpack_len (f2 ! 0) buf in
      bindE (unpack [1] buf) (\<lambda>(f3, buf).
      bindE (parse_n deserialize_action (nat (f3 ! 0)) buf) (\<lambda>(actions, buf).
      let (address, buf) = unpack_len ADDRESS_LEN_BYTES buf in
      bindE (decode_unsigned buf (Some NC_SCRIPT_LEN_MAX_BYTES)) (\<lambda>(script_len, buf).
      let (script, buf) = unpack_len script_len buf in
      bindE (ascii_decode meth) (\<lambda>decoded_nc_method.
      Inr (\<lparr>nc_seqnum = seqnum, nc_id = id, nc_method = decoded_nc_method, nc_args_bytes = args_bytes,
            nc_actions = actions, nc_address = address, nc_script = script\<rparr>, buf))))))))))"

definition serialize_action :: "nano_header_action \<Rightarrow> bytes result" where
  "serialize_action a =
     bindE (nc_action_to_bytes (action_type a)) (\<lambda>tb.
     bindE (int_to_bytes 1 False (token_index a)) (\<lambda>ib.
     bindE (output_value_to_bytes (action_amount a)) (\<lambda>ab. Inr (tb @ ib @ ab))))"

definition serialize_without_header_id :: "bool \<Rightarrow> nano_header \<Rightarrow> bytes result" where
  "serialize_without_header_id skip_signature h =
     bindE (ascii_encode (nc_method h)) (\<lambda>encoded_method.
     bindE (encode_unsigned (nc_seqnum h) (Some ADDRESS_SEQNUM_SIZE)) (\<lambda>seqnum.
     bindE (int_to_bytes 1 False (int (length encoded_method))) (\<lambda>method_len.
     bindE (int_to_bytes 2 False (int (length (nc_args_bytes h)))) (\<lambda>args_len.
     bindE (int_to_bytes 1 False (int (length (nc_actions h)))) (\<lambda>actions_len.
     bindE (print_all serialize_action (nc_actions h)) (\<lambda>actions.
     bindE (if \<not> skip_signature
            then bindE (encode_unsigned (int (length (nc_script h))) (Some NC_SCRIPT_LEN_MAX_BYTES))
                   (\<lambda>script_len. Inr (script_len @ nc_script h))
            else encode_unsigned 0 (Some NC_SCRIPT_LEN_MAX_BYTES)) (\<lambda>script.
     Inr (nc_id h @ seqnum @ method_len @ encoded_method @ args_len @ nc_args_bytes h
          @ actions_len @ actions @ nc_address h @ script))))))))"

definition nano_serialize :: "nano_header \<Rightarrow> bytes result" where
  "nano_serialize h = bindE (serialize_without_header_id False h) (\<lambda>ret. Inr (NANO_HEADER_ID @ ret))"

definition nano_get_sighash_bytes :: "nano_header \<Rightarrow> bytes result" where
  "nano_get_sighash_bytes h = serialize_without_header_id True h"

section \<open>Vertices\<close>

text \<open>A Python float, by its IEEE 754 double pattern.\<close>

type_synonym f64 = "64 word"

record generic_vertex =
  nonce :: int
  timestamp :: int
  signal_bits :: int
  version :: int
  weight :: f64
  inputs :: "tx_input list"
  outputs :: "tx_output list"
  parents :: "bytes list"
  headers :: "nano_header list"
  vhash :: "bytes option"

record transaction = generic_vertex +
  tokens :: "bytes list"

record token_creation_tx = transaction +
  token_name :: pystr
  token_symbol :: pystr

record block = generic_vertex +
  block_data :: bytes

subsection \<open>Headers and the graph part, common to all vertices\<close>

definition get_maximum_number_of_headers :: nat where
  "get_maximum_number_of_headers = 1"

definition get_header_from_bytes ::
    "hathor_settings \<Rightarrow> bool \<Rightarrow> nano_header list \<Rightarrow> bytes \<Rightarrow> (nano_header list \<times> bytes) result" where
  "get_header_from_bytes stg is_tx hs buf =
     (if length hs \<ge> get_maximum_number_of_headers then Inl ValueError
      else if take 1 buf \<noteq> NANO_HEADER_ID then Inl ValueError
      else if \<not> ENABLE_NANO_CONTRACTS stg then Inl ValueError
      else bindE (nano_deserialize is_tx buf) (\<lambda>(h, buf). Inr (hs @ [h], buf)))"

function get_headers_from_bytes ::
    "hathor_settings \<Rightarrow> bool \<Rightarrow> nano_header list \<Rightarrow> bytes \<Rightarrow> nano_header list result" where
  "get_headers_from_bytes stg is_tx hs buf =
     (if buf = [] then Inr hs
      else bindE (get_header_from_bytes stg is_tx hs buf)
             (\<lambda>p. get_headers_from_bytes stg is_tx (fst p) (snd p)))"
  by pat_completeness auto

termination
  by (relation "measure (\<lambda>(_, _, hs, _). 1 - length hs)")
    (auto simp: get_header_from_bytes_def get_maximum_number_of_headers_def Suc_le_eq result_simps split: if_splits)

declare get_headers_from_bytes.simps [simp del]

definition get_graph_fields_from_struct ::
    "'a generic_vertex_scheme \<Rightarrow> bytes \<Rightarrow> ('a generic_vertex_scheme \<times> bytes) result" where
  "get_graph_fields_from_struct v buf =
     bindE (unpack [8, 4, 1] buf) (\<lambda>(flds, buf).
     bindE (parse_n (\<lambda>buf. Inr (unpack_len TX_HASH_SIZE buf)) (nat (flds ! 2)) buf) (\<lambda>(ps, buf).
     Inr (v\<lparr>weight := word_of_int (flds ! 0), timestamp := flds ! 1, parents := ps\<rparr>, buf)))"

definition get_graph_struct :: "'a generic_vertex_scheme \<Rightarrow> bytes result" where
  "get_graph_struct v =
     bindE (pack [(8, uint (weight v)), (4, timestamp v), (1, int (length (parents v)))]) (\<lambda>struct_bytes.
     Inr (struct_bytes @ concat (parents v)))"

definition get_headers_struct :: "'a generic_vertex_scheme \<Rightarrow> bytes result" where
  "get_headers_struct v = print_all nano_serialize (headers v)"

definition get_struct_nonce :: "nat \<Rightarrow> 'a generic_vertex_scheme \<Rightarrow> bytes result" where
  "get_struct_nonce nonce_size v = int_to_bytes nonce_size False (nonce v)"

text \<open>
  \<^verbatim>\<open>get_struct\<close> and the hashing methods call methods that the subclasses override; those are the
  arguments \<open>funds\<close> and \<open>graph\<close>, the results of \<^verbatim>\<open>self.get_funds_struct()\<close> and
  \<^verbatim>\<open>self.get_graph_struct()\<close>.
\<close>

definition get_struct_without_nonce :: "bytes result \<Rightarrow> bytes result \<Rightarrow> bytes result" where
  "get_struct_without_nonce funds graph = bindE funds (\<lambda>f. bindE graph (\<lambda>g. Inr (f @ g)))"

definition get_struct ::
    "bytes result \<Rightarrow> bytes result \<Rightarrow> nat \<Rightarrow> 'a generic_vertex_scheme \<Rightarrow> bytes result" where
  "get_struct funds graph nonce_size v =
     bindE (get_struct_without_nonce funds graph) (\<lambda>struct_bytes.
     bindE (get_struct_nonce nonce_size v) (\<lambda>nb.
     bindE (get_headers_struct v) (\<lambda>hb.
     Inr (struct_bytes @ nb @ hb))))"

definition get_funds_hash :: "(bytes \<Rightarrow> bytes) \<Rightarrow> bytes result \<Rightarrow> bytes result" where
  "get_funds_hash sha256 funds = bindE funds (\<lambda>f. Inr (sha256 f))"

definition get_graph_and_headers_hash ::
    "(bytes \<Rightarrow> bytes) \<Rightarrow> bytes result \<Rightarrow> 'a generic_vertex_scheme \<Rightarrow> bytes result" where
  "get_graph_and_headers_hash sha256 graph v =
     bindE graph (\<lambda>g. bindE (get_headers_struct v) (\<lambda>h. Inr (sha256 (g @ h))))"

definition get_mining_header_without_nonce ::
    "(bytes \<Rightarrow> bytes) \<Rightarrow> bytes result \<Rightarrow> bytes result \<Rightarrow> 'a generic_vertex_scheme \<Rightarrow> bytes result" where
  "get_mining_header_without_nonce sha256 funds graph v =
     bindE (get_funds_hash sha256 funds) (\<lambda>f.
     bindE (get_graph_and_headers_hash sha256 graph v) (\<lambda>g.
     bindE (guardE (length (f @ g) = 64) AssertionError) (\<lambda>_. Inr (f @ g))))"

definition HASH_NONCE_SIZE :: nat where
  "HASH_NONCE_SIZE = 16"

text \<open>
  \<^verbatim>\<open>calculate_hash1\<close> returns a running hash object; the model keeps the bytes fed to it so far, and
  \<^verbatim>\<open>calculate_hash2\<close> feeds the nonce and hashes twice.
\<close>

definition calculate_hash2 :: "(bytes \<Rightarrow> bytes) \<Rightarrow> bytes \<Rightarrow> 'a generic_vertex_scheme \<Rightarrow> bytes result" where
  "calculate_hash2 sha256 part1 v =
     bindE (int_to_bytes HASH_NONCE_SIZE False (nonce v)) (\<lambda>nb.
     Inr (rev (sha256 (sha256 (part1 @ nb)))))"

definition calculate_hash ::
    "(bytes \<Rightarrow> bytes) \<Rightarrow> bytes result \<Rightarrow> bytes result \<Rightarrow> 'a generic_vertex_scheme \<Rightarrow> bytes result" where
  "calculate_hash sha256 funds graph v =
     bindE (get_mining_header_without_nonce sha256 funds graph v) (\<lambda>part1. calculate_hash2 sha256 part1 v)"

subsection \<open>Transactions\<close>

definition get_funds_fields_from_struct :: "transaction \<Rightarrow> bytes \<Rightarrow> (transaction \<times> bytes) result" where
  "get_funds_fields_from_struct tx buf =
     bindE (unpack [1, 1, 1, 1, 1] buf) (\<lambda>(flds, buf).
     bindE (parse_n (\<lambda>buf. Inr (unpack_len TX_HASH_SIZE buf)) (nat (flds ! 2)) buf) (\<lambda>(toks, buf).
     bindE (parse_n TxInput_create_from_bytes (nat (flds ! 3)) buf) (\<lambda>(ins, buf).
     bindE (parse_n TxOutput_create_from_bytes (nat (flds ! 4)) buf) (\<lambda>(outs, buf).
     Inr (tx\<lparr>signal_bits := flds ! 0, version := flds ! 1, tokens := toks, inputs := ins, outputs := outs\<rparr>,
          buf)))))"

definition get_funds_struct :: "'a transaction_scheme \<Rightarrow> bytes result" where
  "get_funds_struct tx =
     bindE (pack [(1, signal_bits tx), (1, version tx), (1, int (length (tokens tx))),
                  (1, int (length (inputs tx))), (1, int (length (outputs tx)))]) (\<lambda>struct_bytes.
     bindE (print_all TxInput_bytes (inputs tx)) (\<lambda>ib.
     bindE (print_all TxOutput_bytes (outputs tx)) (\<lambda>ob.
     Inr (struct_bytes @ concat (tokens tx) @ ib @ ob))))"

definition get_sighash_all :: "'a transaction_scheme \<Rightarrow> bytes result" where
  "get_sighash_all tx =
     bindE (pack [(1, signal_bits tx), (1, version tx), (1, int (length (tokens tx))),
                  (1, int (length (inputs tx))), (1, int (length (outputs tx)))]) (\<lambda>struct_bytes.
     bindE (print_all TxInput_get_sighash_bytes (inputs tx)) (\<lambda>ib.
     bindE (print_all TxOutput_bytes (outputs tx)) (\<lambda>ob.
     bindE (print_all nano_get_sighash_bytes (headers tx)) (\<lambda>hb.
     Inr (struct_bytes @ concat (tokens tx) @ ib @ ob @ hb)))))"

definition get_sighash_all_data :: "(bytes \<Rightarrow> bytes) \<Rightarrow> 'a transaction_scheme \<Rightarrow> bytes result" where
  "get_sighash_all_data sha256 tx = bindE (get_sighash_all tx) (\<lambda>bs. Inr (sha256 bs))"

definition tx_get_struct :: "transaction \<Rightarrow> bytes result" where
  "tx_get_struct tx = get_struct (get_funds_struct tx) (get_graph_struct tx) 4 tx"

definition tx_calculate_hash :: "(bytes \<Rightarrow> bytes) \<Rightarrow> transaction \<Rightarrow> bytes result" where
  "tx_calculate_hash sha256 tx = calculate_hash sha256 (get_funds_struct tx) (get_graph_struct tx) tx"

definition update_hash :: "(bytes \<Rightarrow> bytes) \<Rightarrow> transaction \<Rightarrow> transaction result" where
  "update_hash sha256 tx = bindE (tx_calculate_hash sha256 tx) (\<lambda>h. Inr (tx\<lparr>vhash := Some h\<rparr>))"

text \<open>The object the constructor makes before parsing; \<open>now\<close> is \<^verbatim>\<open>int(time.time())\<close>.\<close>

definition new_tx :: "int \<Rightarrow> transaction" where
  "new_tx now = \<lparr>nonce = 0, timestamp = now, signal_bits = 0, version = 1, weight = 0, inputs = [],
     outputs = [], parents = [], headers = [], vhash = None, tokens = []\<rparr>"

definition create_from_struct ::
    "hathor_settings \<Rightarrow> (bytes \<Rightarrow> bytes) \<Rightarrow> int \<Rightarrow> bytes \<Rightarrow> transaction result" where
  "create_from_struct stg sha256 now struct_bytes =
     bindE (get_funds_fields_from_struct (new_tx now) struct_bytes) (\<lambda>(tx, buf).
     bindE (get_graph_fields_from_struct tx buf) (\<lambda>(tx, buf).
     if length buf < 4 then Inl ValueError
     else bindE (unpack [4] buf) (\<lambda>(flds, buf).
     bindE (get_headers_from_bytes stg True [] buf) (\<lambda>hs.
     update_hash sha256 (tx\<lparr>nonce := flds ! 0, headers := hs\<rparr>)))))"

definition get_token_uid :: "hathor_settings \<Rightarrow> 'a transaction_scheme \<Rightarrow> int \<Rightarrow> bytes result" where
  "get_token_uid stg tx index =
     (if index = 0 then Inr (HATHOR_TOKEN_UID stg)
      else py_nth (tokens tx) (index - 1))"

subsection \<open>Token creation transactions\<close>

definition TOKEN_INFO_VERSION :: int where
  "TOKEN_INFO_VERSION = 1"

definition serialize_token_info :: "pystr \<Rightarrow> pystr \<Rightarrow> bytes result" where
  "serialize_token_info name symbol =
     bindE (utf8_encode name) (\<lambda>encoded_name.
     bindE (utf8_encode symbol) (\<lambda>encoded_symbol.
     bindE (int_to_bytes 1 False TOKEN_INFO_VERSION) (\<lambda>vb.
     bindE (int_to_bytes 1 False (int (length encoded_name))) (\<lambda>nb.
     bindE (int_to_bytes 1 False (int (length encoded_symbol))) (\<lambda>sb.
     Inr (vb @ nb @ encoded_name @ sb @ encoded_symbol))))))"

definition deserialize_token_info :: "bytes \<Rightarrow> ((pystr \<times> pystr) \<times> bytes) result" where
  "deserialize_token_info buf =
     bindE (unpack [1] buf) (\<lambda>(f1, buf).
     if f1 ! 0 \<noteq> TOKEN_INFO_VERSION then Inl ValueError
     else bindE (unpack [1] buf) (\<lambda>(f2, buf).
     let (name, buf) = unpack_len (f2 ! 0) buf in
     bindE (unpack [1] buf) (\<lambda>(f3, buf).
     let (symbol, buf) = unpack_len (f3 ! 0) buf in
     bindE (decode_string_utf8 name) (\<lambda>decoded_name.
     bindE (decode_string_utf8 symbol) (\<lambda>decoded_symbol.
     Inr ((decoded_name, decoded_symbol), buf))))))"

definition tct_get_funds_fields_from_struct ::
    "token_creation_tx \<Rightarrow> bytes \<Rightarrow> (token_creation_tx \<times> bytes) result" where
  "tct_get_funds_fields_from_struct tx buf =
     bindE (unpack [1, 1, 1, 1] buf) (\<lambda>(flds, buf).
     bindE (parse_n TxInput_create_from_bytes (nat (flds ! 2)) buf) (\<lambda>(ins, buf).
     bindE (parse_n TxOutput_create_from_bytes (nat (flds ! 3)) buf) (\<lambda>(outs, buf).
     bindE (deserialize_token_info buf) (\<lambda>((name, symbol), buf).
     Inr (tx\<lparr>signal_bits := flds ! 0, version := flds ! 1, inputs := ins, outputs := outs,
             token_name := name, token_symbol := symbol\<rparr>, buf)))))"

definition tct_get_funds_struct :: "token_creation_tx \<Rightarrow> bytes result" where
  "tct_get_funds_struct tx =
     bindE (pack [(1, signal_bits tx), (1, version tx),
                  (1, int (length (inputs tx))), (1, int (length (outputs tx)))]) (\<lambda>struct_bytes.
     bindE (print_all TxInput_bytes (inputs tx)) (\<lambda>ib.
     bindE (print_all TxOutput_bytes (outputs tx)) (\<lambda>ob.
     bindE (serialize_token_info (token_name tx) (token_symbol tx)) (\<lambda>tb.
     Inr (struct_bytes @ ib @ ob @ tb)))))"

definition tct_get_sighash_all :: "token_creation_tx \<Rightarrow> bytes result" where
  "tct_get_sighash_all tx =
     bindE (pack [(1, signal_bits tx), (1, version tx),
                  (1, int (length (inputs tx))), (1, int (length (outputs tx)))]) (\<lambda>struct_bytes.
     bindE (print_all TxInput_get_sighash_bytes (inputs tx)) (\<lambda>ib.
     bindE (print_all TxOutput_bytes (outputs tx)) (\<lambda>ob.
     bindE (serialize_token_info (token_name tx) (token_symbol tx)) (\<lambda>tb.
     bindE (print_all nano_get_sighash_bytes (headers tx)) (\<lambda>hb.
     Inr (struct_bytes @ ib @ ob @ tb @ hb))))))"

definition tct_get_struct :: "token_creation_tx \<Rightarrow> bytes result" where
  "tct_get_struct tx = get_struct (tct_get_funds_struct tx) (get_graph_struct tx) 4 tx"

definition tct_update_hash :: "(bytes \<Rightarrow> bytes) \<Rightarrow> token_creation_tx \<Rightarrow> token_creation_tx result" where
  "tct_update_hash sha256 tx =
     bindE (calculate_hash sha256 (tct_get_funds_struct tx) (get_graph_struct tx) tx) (\<lambda>h.
     Inr (tx\<lparr>vhash := Some h, tokens := [h]\<rparr>))"

definition new_tct :: "int \<Rightarrow> token_creation_tx" where
  "new_tct now = \<lparr>nonce = 0, timestamp = now, signal_bits = 0, version = 2, weight = 0, inputs = [],
     outputs = [], parents = [], headers = [], vhash = None, tokens = [], token_name = [],
     token_symbol = []\<rparr>"

definition tct_create_from_struct ::
    "hathor_settings \<Rightarrow> (bytes \<Rightarrow> bytes) \<Rightarrow> int \<Rightarrow> bytes \<Rightarrow> token_creation_tx result" where
  "tct_create_from_struct stg sha256 now struct_bytes =
     bindE (tct_get_funds_fields_from_struct (new_tct now) struct_bytes) (\<lambda>(tx, buf).
     bindE (get_graph_fields_from_struct tx buf) (\<lambda>(tx, buf).
     if length buf < 4 then Inl ValueError
     else bindE (unpack [4] buf) (\<lambda>(flds, buf).
     bindE (get_headers_from_bytes stg True [] buf) (\<lambda>hs.
     tct_update_hash sha256 (tx\<lparr>nonce := flds ! 0, headers := hs\<rparr>)))))"

subsection \<open>Blocks\<close>

definition block_get_funds_fields_from_struct :: "block \<Rightarrow> bytes \<Rightarrow> (block \<times> bytes) result" where
  "block_get_funds_fields_from_struct b buf =
     bindE (unpack [1, 1, 1] buf) (\<lambda>(flds, buf).
     bindE (parse_n TxOutput_create_from_bytes (nat (flds ! 2)) buf) (\<lambda>(outs, buf).
     Inr (b\<lparr>signal_bits := flds ! 0, version := flds ! 1, outputs := outs\<rparr>, buf)))"

definition block_get_graph_fields_from_struct :: "block \<Rightarrow> bytes \<Rightarrow> (block \<times> bytes) result" where
  "block_get_graph_fields_from_struct b buf =
     bindE (get_graph_fields_from_struct b buf) (\<lambda>(b, buf).
     bindE (unpack [1] buf) (\<lambda>(flds, buf).
     let (data, buf) = unpack_len (flds ! 0) buf in
     Inr (b\<lparr>block_data := data\<rparr>, buf)))"

definition block_get_funds_struct :: "block \<Rightarrow> bytes result" where
  "block_get_funds_struct b =
     bindE (pack [(1, signal_bits b), (1, version b), (1, int (length (outputs b)))]) (\<lambda>struct_bytes.
     bindE (print_all TxOutput_bytes (outputs b)) (\<lambda>ob.
     Inr (struct_bytes @ ob)))"

definition block_get_graph_struct :: "block \<Rightarrow> bytes result" where
  "block_get_graph_struct b =
     bindE (get_graph_struct b) (\<lambda>struct_bytes_without_data.
     bindE (int_to_bytes 1 False (int (length (block_data b)))) (\<lambda>data_bytes.
     Inr (struct_bytes_without_data @ data_bytes @ block_data b)))"

definition block_get_struct :: "block \<Rightarrow> bytes result" where
  "block_get_struct b = get_struct (block_get_funds_struct b) (block_get_graph_struct b) 16 b"

definition block_calculate_hash :: "(bytes \<Rightarrow> bytes) \<Rightarrow> block \<Rightarrow> bytes result" where
  "block_calculate_hash sha256 b =
     calculate_hash sha256 (block_get_funds_struct b) (block_get_graph_struct b) b"

definition new_block :: "int \<Rightarrow> block" where
  "new_block now = \<lparr>nonce = 0, timestamp = now, signal_bits = 0, version = 0, weight = 0, inputs = [],
     outputs = [], parents = [], headers = [], vhash = None, block_data = []\<rparr>"

definition block_create_from_struct ::
    "hathor_settings \<Rightarrow> (bytes \<Rightarrow> bytes) \<Rightarrow> int \<Rightarrow> bytes \<Rightarrow> block result" where
  "block_create_from_struct stg sha256 now struct_bytes =
     bindE (block_get_funds_fields_from_struct (new_block now) struct_bytes) (\<lambda>(b, buf).
     bindE (block_get_graph_fields_from_struct b buf) (\<lambda>(b, buf).
     if length buf < 16 then Inl ValueError
     else bindE (get_headers_from_bytes stg False [] (drop 16 buf)) (\<lambda>hs.
     let b = b\<lparr>nonce := int_from_bytes False (take 16 buf), headers := hs\<rparr> in
     bindE (block_calculate_hash sha256 b) (\<lambda>h. Inr (b\<lparr>vhash := Some h\<rparr>)))))"

definition block_get_token_uid :: "hathor_settings \<Rightarrow> int \<Rightarrow> bytes result" where
  "block_get_token_uid stg index =
     bindE (guardE (index = 0) AssertionError) (\<lambda>_. Inr (HATHOR_TOKEN_UID stg))"

section \<open>Any transaction, any vertex\<close>

text \<open>
  Code that takes a \<^verbatim>\<open>Transaction\<close> also gets its subclass; code that takes a \<^verbatim>\<open>BaseTransaction\<close> gets a
  transaction or a block. The inherited fields are read through \<open>as_transaction\<close> and the functions
  below, the overridden methods dispatch on the constructor.
\<close>

datatype any_tx = RegularTx transaction | TokenCreationTx token_creation_tx

fun as_transaction :: "any_tx \<Rightarrow> transaction" where
  "as_transaction (RegularTx tx) = tx"
| "as_transaction (TokenCreationTx tx) = transaction.truncate tx"

fun any_get_sighash_all :: "any_tx \<Rightarrow> bytes result" where
  "any_get_sighash_all (RegularTx tx) = get_sighash_all tx"
| "any_get_sighash_all (TokenCreationTx tx) = tct_get_sighash_all tx"

definition any_get_sighash_all_data :: "(bytes \<Rightarrow> bytes) \<Rightarrow> any_tx \<Rightarrow> bytes result" where
  "any_get_sighash_all_data sha256 tx = bindE (any_get_sighash_all tx) (\<lambda>bs. Inr (sha256 bs))"

definition is_nano_contract :: "any_tx \<Rightarrow> bool" where
  "is_nano_contract tx = (headers (as_transaction tx) \<noteq> [])"

definition get_nano_header :: "any_tx \<Rightarrow> nano_header result" where
  "get_nano_header tx = (case headers (as_transaction tx) of [] \<Rightarrow> Inl ValueError | h # _ \<Rightarrow> Inr h)"

datatype vertex = TxVertex any_tx | BlockVertex block

fun v_outputs :: "vertex \<Rightarrow> tx_output list" where
  "v_outputs (TxVertex tx) = outputs (as_transaction tx)"
| "v_outputs (BlockVertex b) = outputs b"

fun v_timestamp :: "vertex \<Rightarrow> int" where
  "v_timestamp (TxVertex tx) = timestamp (as_transaction tx)"
| "v_timestamp (BlockVertex b) = timestamp b"

fun v_parents :: "vertex \<Rightarrow> bytes list" where
  "v_parents (TxVertex tx) = parents (as_transaction tx)"
| "v_parents (BlockVertex b) = parents b"

fun v_is_block :: "vertex \<Rightarrow> bool" where
  "v_is_block (TxVertex tx) = False"
| "v_is_block (BlockVertex b) = True"

fun v_get_token_uid :: "hathor_settings \<Rightarrow> vertex \<Rightarrow> int \<Rightarrow> bytes result" where
  "v_get_token_uid stg (TxVertex tx) index = get_token_uid stg (as_transaction tx) index"
| "v_get_token_uid stg (BlockVertex b) index = block_get_token_uid stg index"

end
