(* ===== verification/Vertex_Codec.thy ===== *)
theory Vertex_Codec
  imports Vertex
begin

text \<open>
  Correctness of the wire format of \<^verbatim>\<open>Vertex\<close>: each pair of a printing and a parsing method meets the
  contract \<open>wire\<close>, vertices survive the round trip, and the signature hash determines everything it is
  meant to cover.
\<close>


section \<open>Printers and parsers of buffers\<close>

text \<open>
  The contract of the wire format: a printable value is printed, and parsing what was printed,
  followed by anything, gives back the value and what followed.
\<close>

locale wire =
  fixes pr :: "'a \<Rightarrow> bytes result"
    and ps :: "bytes \<Rightarrow> ('a \<times> bytes) result"
    and ok :: "'a \<Rightarrow> bool"
  assumes print_ok: "ok v \<Longrightarrow> \<exists>bs. pr v = Inr bs"
    and parse_print: "ok v \<Longrightarrow> pr v = Inr bs \<Longrightarrow> ps (bs @ rest) = Inr (v, rest)"
begin

lemma print_prefix_free:
  assumes "ok v" and "ok w" and "pr v = Inr a" and "pr w = Inr b" and "a @ xs = b @ ys"
  shows "v = w \<and> xs = ys"
  using parse_print [OF assms(1,3), of xs] parse_print [OF assms(2,4), of ys] assms(5) by simp

lemma print_all_ok: "list_all ok vs \<Longrightarrow> \<exists>bs. print_all pr vs = Inr bs"
  by (induction vs) (auto dest: print_ok)

lemma parse_print_all:
  "list_all ok vs \<Longrightarrow> print_all pr vs = Inr bs \<Longrightarrow> parse_n ps (length vs) (bs @ rest) = Inr (vs, rest)"
proof (induction vs arbitrary: bs)
  case Nil
  then show ?case by simp
next
  case (Cons v vs)
  then obtain b bs' where "pr v = Inr b" "print_all pr vs = Inr bs'" "bs = b @ bs'"
    by (auto simp: result_simps)
  with Cons show ?case using parse_print [of v b "bs' @ rest"] by simp
qed

lemma wire_all: "wire (print_all pr) (parse_n ps n) (\<lambda>vs. length vs = n \<and> list_all ok vs)"
  by unfold_locales (auto simp: print_all_ok parse_print_all)

lemma print_all_prefix_free:
  assumes "list_all ok vs" and "list_all ok ws" and "length vs = length ws"
    and "print_all pr vs = Inr a" and "print_all pr ws = Inr b" and "a @ xs = b @ ys"
  shows "vs = ws \<and> xs = ys"
  using wire.print_prefix_free [OF wire_all [of "length ws"], of vs ws a b xs ys] assms by simp

end

section \<open>Fields\<close>

lemma int_to_bytes_ok: "int_fits n False v \<Longrightarrow> int_to_bytes n False v = Inr (be_bytes n v)"
  by (simp add: int_to_bytes_def)

lemma int_fits_unsigned: "int_fits n False v \<longleftrightarrow> 0 \<le> v \<and> v < 2 ^ (8 * n)"
  by (simp add: int_fits_def)

lemma int_from_be_bytes_unsigned:
  "0 \<le> v \<Longrightarrow> v < 2 ^ (8 * n) \<Longrightarrow> int_from_bytes False (be_bytes n v) = v"
  by (rule int_from_bytes_be_bytes) (simp add: int_fits_def)

lemma pack_ok:
  "list_all (\<lambda>(n, v). int_fits n False v) fs \<Longrightarrow>
   pack fs = Inr (concat (map (\<lambda>(n, v). be_bytes n v) fs))"
  by (induction fs) (auto simp: struct_pack_def)

lemma struct_fields_ok:
  "list_all (\<lambda>(n, v). int_fits n False v) fs \<Longrightarrow>
   struct_fields (map fst fs) (concat (map (\<lambda>(n, v). be_bytes n v) fs)) = map snd fs"
  by (induction fs) (auto simp: int_from_bytes_be_bytes)

lemma length_packed: "length (concat (map (\<lambda>(n, v). be_bytes n v) fs)) = sum_list (map fst fs)"
  by (induction fs) auto

lemma unpack_packed:
  assumes "list_all (\<lambda>(n, v). int_fits n False v) fs" and "fmt = map fst fs"
  shows "unpack fmt (concat (map (\<lambda>(n, v). be_bytes n v) fs) @ rest) = Inr (map snd fs, rest)"
  using struct_fields_ok [OF assms(1)] length_packed [of fs] assms(2) by (simp add: unpack_def)

lemma unpack_1: "int_fits n False v \<Longrightarrow> unpack [n] (be_bytes n v @ rest) = Inr ([v], rest)"
  using unpack_packed [of "[(n, v)]" "[n]" rest] by simp

lemma unpack_2:
  "int_fits m False v \<Longrightarrow> int_fits n False w \<Longrightarrow>
   unpack [m, n] (be_bytes m v @ be_bytes n w @ rest) = Inr ([v, w], rest)"
  using unpack_packed [of "[(m, v), (n, w)]" "[m, n]" rest] by simp

lemma unpack_len_append: "int (length xs) = n \<Longrightarrow> unpack_len n (xs @ rest) = (xs, rest)"
  by (auto simp: unpack_len_def)

lemma output_value_to_bytes_ok:
  assumes "0 < v" and "v \<le> MAX_OUTPUT_VALUE_64"
  shows "output_value_to_bytes v = Inr (output_value_img v)"
proof -
  have v: "output_value_valid True v" using assms by (simp add: output_value_valid_def)
  then obtain t where "encode_output_value True build_bytes_serializer v = Inr t"
    using output_value.enc_ok [OF v, of build_bytes_serializer] by (auto simp: build_bytes_serializer_def)
  then show ?thesis
    using output_value.enc_finalize [OF v] by (simp add: output_value_to_bytes_def)
qed

lemma bytes_to_output_value_ok:
  assumes "0 < v" and "v \<le> MAX_OUTPUT_VALUE_64"
  shows "bytes_to_output_value (output_value_img v @ rest) = Inr (v, rest)"
proof -
  have v: "output_value_valid True v" using assms by (simp add: output_value_valid_def)
  show ?thesis
    using output_value.dec_ok [OF v, of "BytesDeserializer (output_value_img v @ rest)" rest]
    by (simp add: bytes_to_output_value_def build_bytes_deserializer_def)
qed

lemma ascii_decode_encode:
  assumes "ascii_encode s = Inr bs"
  shows "ascii_decode bs = Inr s"
proof -
  have lt: "\<forall>c \<in> set s. c < 128" and bs: "bs = map of_nat s"
    using assms by (auto simp: ascii_encode_def split: if_splits)
  then have id: "\<forall>c \<in> set s. unat (of_nat c :: byte) = c"
    by (auto intro!: unat_of_nat_byte)
  then have "map (unat \<circ> (of_nat :: nat \<Rightarrow> byte)) s = s"
    by (intro map_idI) simp
  then show ?thesis
    using lt id bs by (simp add: ascii_decode_def)
qed

lemma length_ascii_encode: "ascii_encode s = Inr bs \<Longrightarrow> length bs = length s"
  by (auto simp: ascii_encode_def split: if_splits)

definition is_hash :: "bytes \<Rightarrow> bool" where
  "is_hash h = (length h = 32)"

interpretation hash_field: wire "\<lambda>h. Inr h" "\<lambda>buf. Inr (unpack_len TX_HASH_SIZE buf)" is_hash
  by unfold_locales (auto simp: is_hash_def TX_HASH_SIZE_def unpack_len_append)

lemma print_all_Inr: "print_all (\<lambda>h. Inr h) hs = Inr (concat hs)"
  by (induction hs) auto

section \<open>Inputs, outputs, headers\<close>

definition input_ok :: "tx_input \<Rightarrow> bool" where
  "input_ok i = (is_hash (in_tx_id i) \<and> int_fits 1 False (in_index i) \<and> length (in_data i) < 2 ^ 16)"

definition output_ok :: "tx_output \<Rightarrow> bool" where
  "output_ok out = (0 < out_value out \<and> out_value out \<le> MAX_OUTPUT_VALUE_64 \<and>
     int_fits 1 False (token_data out) \<and> length (out_script out) < 2 ^ 16)"

definition action_ok :: "nano_header_action \<Rightarrow> bool" where
  "action_ok a = (int_fits 1 False (token_index a) \<and>
     0 < action_amount a \<and> action_amount a \<le> MAX_OUTPUT_VALUE_64)"

definition header_ok :: "nano_header \<Rightarrow> bool" where
  "header_ok h = (is_hash (nc_id h) \<and> 0 \<le> nc_seqnum h \<and> nc_seqnum h < 2 ^ 56 \<and>
     list_all (\<lambda>c. c < 128) (nc_method h) \<and> length (nc_method h) < 2 ^ 8 \<and>
     length (nc_args_bytes h) < 2 ^ 16 \<and> length (nc_actions h) < 2 ^ 8 \<and>
     list_all action_ok (nc_actions h) \<and> length (nc_address h) = 25 \<and> length (nc_script h) < 2 ^ 14)"

lemma int_fits_length: "length xs < 2 ^ (8 * n) \<Longrightarrow> int_fits n False (int (length xs))"
  unfolding int_fits_unsigned by (simp flip: of_nat_power add: of_nat_less_iff) 

lemmas wire_simps = int_to_bytes_ok unpack_1 unpack_2 unpack_len_append TX_HASH_SIZE_def

interpretation input: wire TxInput_bytes TxInput_create_from_bytes input_ok
proof
  fix i bs rest
  assume ok: "input_ok i"
  have len: "int_fits 2 False (int (length (in_data i)))"
    using ok int_fits_length [of "in_data i" 2] by (simp add: input_ok_def)
  then show "\<exists>bs. TxInput_bytes i = Inr bs"
    using ok by (simp add: TxInput_bytes_def input_ok_def wire_simps)
  assume "TxInput_bytes i = Inr bs"
  then have "bs = in_tx_id i @ be_bytes 1 (in_index i) @ be_bytes 2 (int (length (in_data i))) @ in_data i"
    using ok len by (simp add: TxInput_bytes_def input_ok_def wire_simps del: be_bytes.simps)
  then show "TxInput_create_from_bytes (bs @ rest) = Inr (i, rest)"
    using ok len by (simp add: TxInput_create_from_bytes_def input_ok_def is_hash_def wire_simps del: be_bytes.simps)
qed

interpretation txout: wire TxOutput_bytes TxOutput_create_from_bytes output_ok
proof
  fix out bs rest
  assume ok: "output_ok out"
  have len: "int_fits 2 False (int (length (out_script out)))"
    using ok int_fits_length [of "out_script out" 2] by (simp add: output_ok_def)
  then show "\<exists>bs. TxOutput_bytes out = Inr bs"
    using ok by (simp add: TxOutput_bytes_def output_ok_def wire_simps output_value_to_bytes_ok)
  assume "TxOutput_bytes out = Inr bs"
  then have "bs = output_value_img (out_value out) @ be_bytes 1 (token_data out)
      @ be_bytes 2 (int (length (out_script out))) @ out_script out"
    using ok len
    by (simp add: TxOutput_bytes_def output_ok_def wire_simps output_value_to_bytes_ok del: be_bytes.simps)
  then show "TxOutput_create_from_bytes (bs @ rest) = Inr (out, rest)"
    using ok len
    by (simp add: TxOutput_create_from_bytes_def TxOutput_init_def output_ok_def wire_simps
        bytes_to_output_value_ok del: be_bytes.simps)
qed

lemma nc_action_round_trip:
  "\<exists>b. nc_action_to_bytes ty = Inr [b] \<and> nc_action_from_bytes [b] = Inr ty"
  by (cases ty)
    (simp_all add: nc_action_to_bytes_def nc_action_from_bytes_def int_to_bytes_def int_fits_def
      int_from_bytes_def be_val_def)

interpretation action: wire serialize_action deserialize_action action_ok
proof
  fix a bs rest
  assume ok: "action_ok a"
  obtain b where b: "nc_action_to_bytes (action_type a) = Inr [b]"
    "nc_action_from_bytes [b] = Inr (action_type a)"
    using nc_action_round_trip by blast
  then show "\<exists>bs. serialize_action a = Inr bs"
    using ok by (simp add: serialize_action_def action_ok_def wire_simps output_value_to_bytes_ok)
  assume "serialize_action a = Inr bs"
  then have "bs = b # be_bytes 1 (token_index a) @ output_value_img (action_amount a)"
    using ok b
    by (simp add: serialize_action_def action_ok_def wire_simps output_value_to_bytes_ok del: be_bytes.simps)
  then show "deserialize_action (bs @ rest) = Inr (a, rest)"
    using ok b
    by (simp add: deserialize_action_def action_ok_def wire_simps bytes_to_output_value_ok del: be_bytes.simps)
qed

lemma leb128_2_bytes: "0 \<le> v \<Longrightarrow> v < 2 ^ 14 \<Longrightarrow> length (leb128_img False v) \<le> 2"
  using unsigned_img_length [of v 1] by simp

lemma leb128_8_bytes: "0 \<le> v \<Longrightarrow> v < 2 ^ 56 \<Longrightarrow> length (leb128_img False v) \<le> 8"
  using unsigned_img_length [of v 7] by simp

text \<open>The bytes of a header whose fields are in range.\<close>

definition header_img :: "bytes \<Rightarrow> nano_header \<Rightarrow> bytes" where
  "header_img script h =
     nc_id h @ leb128_img False (nc_seqnum h) @ be_bytes 1 (int (length (nc_method h))) @ map of_nat (nc_method h)
     @ be_bytes 2 (int (length (nc_args_bytes h))) @ nc_args_bytes h
     @ be_bytes 1 (int (length (nc_actions h)))
     @ (case print_all serialize_action (nc_actions h) of Inl _ \<Rightarrow> [] | Inr bs \<Rightarrow> bs)
     @ nc_address h @ leb128_img False (int (length script)) @ script"

lemma header_fields_ok:
  assumes "header_ok h"
  shows "int_fits 1 False (int (length (nc_method h)))"
    and "int_fits 2 False (int (length (nc_args_bytes h)))"
    and "int_fits 1 False (int (length (nc_actions h)))"
    and "ascii_encode (nc_method h) = Inr (map of_nat (nc_method h))"
    and "\<exists>bs. print_all serialize_action (nc_actions h) = Inr bs"
    and "encode_unsigned (nc_seqnum h) (Some 8) = Inr (leb128_img False (nc_seqnum h))"
    and "encode_unsigned (int (length (nc_script h))) (Some 2) = Inr (leb128_img False (int (length (nc_script h))))"
  using assms int_fits_length [of "nc_method h" 1] int_fits_length [of "nc_args_bytes h" 2]
    int_fits_length [of "nc_actions h" 1] action.print_all_ok [of "nc_actions h"]
    leb128_8_bytes [of "nc_seqnum h"] leb128_2_bytes [of "int (length (nc_script h))"]
  by (simp_all add: header_ok_def ascii_encode_def list_all_iff encode_unsigned_img)

lemma serialize_without_header_id_ok:
  assumes "header_ok h"
  shows "serialize_without_header_id skip h = Inr (header_img (if skip then [] else nc_script h) h)"
proof -
  note f = header_fields_ok [OF assms]
  obtain bs where bs: "print_all serialize_action (nc_actions h) = Inr bs"
    using f(5) by blast
  have z: "encode_unsigned 0 (Some 2) = Inr (leb128_img False 0)"
    using leb128_2_bytes [of 0] by (simp add: encode_unsigned_img)
  show ?thesis
    using f bs z
    by (simp add: serialize_without_header_id_def header_img_def ADDRESS_SEQNUM_SIZE_def
        NC_SCRIPT_LEN_MAX_BYTES_def int_to_bytes_ok del: be_bytes.simps)
qed

lemma nano_deserialize_img:
  assumes "header_ok h"
  shows "nano_deserialize True (NANO_HEADER_ID @ header_img (nc_script h) h @ rest) = Inr (h, rest)"
proof -
  note f = header_fields_ok [OF assms]
  obtain bs where bs: "print_all serialize_action (nc_actions h) = Inr bs"
    using f(5) by blast
  have acts: "parse_n deserialize_action (length (nc_actions h)) (bs @ xs) = Inr (nc_actions h, xs)" for xs
    using assms action.parse_print_all [OF _ bs] by (simp add: header_ok_def)
  have seq: "decode_unsigned (leb128_img False (nc_seqnum h) @ xs) (Some 8) = Inr (nc_seqnum h, xs)" for xs
    using assms leb128_8_bytes [of "nc_seqnum h"] by (intro decode_unsigned_img) (auto simp: header_ok_def)
  have scr: "decode_unsigned (leb128_img False (int (length (nc_script h))) @ xs) (Some 2)
      = Inr (int (length (nc_script h)), xs)" for xs
    using assms leb128_2_bytes [of "int (length (nc_script h))"]
    by (intro decode_unsigned_img) (auto simp: header_ok_def)
  show ?thesis
    using assms bs f ascii_decode_encode [OF f(4)]
    by (simp add: nano_deserialize_def header_img_def NANO_HEADER_ID_def header_ok_def is_hash_def
        ADDRESS_SEQNUM_SIZE_def NC_SCRIPT_LEN_MAX_BYTES_def ADDRESS_LEN_BYTES_def
        unpack_len_append unpack_1 acts seq scr del: be_bytes.simps)
qed

interpretation header: wire nano_serialize "nano_deserialize True" header_ok
  by unfold_locales
    (auto simp: nano_serialize_def serialize_without_header_id_ok nano_deserialize_img)

section \<open>Vertices\<close>

definition vertex_ok :: "'a generic_vertex_scheme \<Rightarrow> bool" where
  "vertex_ok v = (int_fits 1 False (signal_bits v) \<and> int_fits 1 False (version v) \<and>
     int_fits 4 False (timestamp v) \<and>
     length (parents v) < 2 ^ 8 \<and> list_all is_hash (parents v) \<and>
     length (outputs v) < 2 ^ 8 \<and> list_all output_ok (outputs v) \<and>
     length (headers v) \<le> 1 \<and> list_all header_ok (headers v))"

definition tx_ok :: "'a transaction_scheme \<Rightarrow> bool" where
  "tx_ok tx = (vertex_ok tx \<and> int_fits 4 False (nonce tx) \<and>
     length (tokens tx) < 2 ^ 8 \<and> list_all is_hash (tokens tx) \<and>
     length (inputs tx) < 2 ^ 8 \<and> list_all input_ok (inputs tx))"

lemma graph_round_trip:
  assumes "vertex_ok v"
  shows "\<exists>gb. get_graph_struct v = Inr gb"
    and "get_graph_struct v = Inr gb \<Longrightarrow> get_graph_fields_from_struct v0 (gb @ rest) =
      Inr (v0\<lparr>weight := weight v, timestamp := timestamp v, parents := parents v\<rparr>, rest)"
proof -
  let ?fs = "[(8, uint (weight v)), (4, timestamp v), (1, int (length (parents v)))]"
  have fits: "list_all (\<lambda>(n, v). int_fits n False v) ?fs"
    using assms int_fits_length [of "parents v" 1] uint_lt2p [of "weight v"]
    by (simp add: vertex_ok_def int_fits_unsigned)
  show "\<exists>gb. get_graph_struct v = Inr gb"
    using pack_ok [OF fits] by (simp add: get_graph_struct_def del: pack.simps)
  assume "get_graph_struct v = Inr gb"
  then have gb: "gb = concat (map (\<lambda>(n, v). be_bytes n v) ?fs) @ concat (parents v)"
    using pack_ok [OF fits] by (simp add: get_graph_struct_def del: pack.simps be_bytes.simps)
  have "parse_n (\<lambda>buf. Inr (unpack_len TX_HASH_SIZE buf)) (length (parents v)) (concat (parents v) @ rest)
      = Inr (parents v, rest)"
    using hash_field.parse_print_all [OF _ print_all_Inr] assms by (simp add: vertex_ok_def)
  then show "get_graph_fields_from_struct v0 (gb @ rest) =
      Inr (v0\<lparr>weight := weight v, timestamp := timestamp v, parents := parents v\<rparr>, rest)"
    using unpack_packed [OF fits, of "[8, 4, 1]" "concat (parents v) @ rest"]
    by (simp add: get_graph_fields_from_struct_def gb del: be_bytes.simps)
qed

lemma headers_round_trip:
  assumes "vertex_ok v" and "headers v = [] \<or> ENABLE_NANO_CONTRACTS stg"
  shows "\<exists>hb. get_headers_struct v = Inr hb"
    and "get_headers_struct v = Inr hb \<Longrightarrow> get_headers_from_bytes stg True [] hb = Inr (headers v)"
proof -
  have ok: "list_all header_ok (headers v)" and one: "length (headers v) \<le> 1"
    using assms(1) by (auto simp: vertex_ok_def)
  then show "\<exists>hb. get_headers_struct v = Inr hb"
    by (simp add: get_headers_struct_def header.print_all_ok)
  assume hb: "get_headers_struct v = Inr hb"
  show "get_headers_from_bytes stg True [] hb = Inr (headers v)"
  proof (cases "headers v")
    case Nil
    then show ?thesis
      using hb by (simp add: get_headers_struct_def get_headers_from_bytes.simps [of _ _ _ "[]"])
  next
    case (Cons h hs)
    then have hs: "hs = []" "header_ok h" using one ok by auto
    then have "hb = NANO_HEADER_ID @ header_img (nc_script h) h"
      using hb Cons
      by (simp add: get_headers_struct_def nano_serialize_def serialize_without_header_id_ok)
    then show ?thesis
      using Cons hs assms(2) nano_deserialize_img [of h "[]"]
      by (simp add: get_headers_from_bytes.simps [of _ _ "[]"] get_headers_from_bytes.simps [of _ _ _ "[]"]
          get_header_from_bytes_def
          NANO_HEADER_ID_def get_maximum_number_of_headers_def)
  qed
qed

lemma funds_round_trip:
  fixes tx :: "'a transaction_scheme"
  assumes "tx_ok tx"
  shows "\<exists>fb. get_funds_struct tx = Inr fb"
    and "get_funds_struct tx = Inr fb \<Longrightarrow> get_funds_fields_from_struct tx0 (fb @ rest) =
      Inr (tx0\<lparr>signal_bits := signal_bits tx, version := version tx, tokens := tokens tx,
             inputs := inputs tx, outputs := outputs tx\<rparr>, rest)"
proof -
  let ?fs = "[(1, signal_bits tx), (1, version tx), (1, int (length (tokens tx))),
              (1, int (length (inputs tx))), (1, int (length (outputs tx)))]"
  have fits: "list_all (\<lambda>(n, v). int_fits n False v) ?fs"
    using assms int_fits_length [of "tokens tx" 1] int_fits_length [of "inputs tx" 1]
      int_fits_length [of "outputs tx" 1]
    by (simp add: tx_ok_def vertex_ok_def)
  obtain ib ob where ib: "print_all TxInput_bytes (inputs tx) = Inr ib"
    and ob: "print_all TxOutput_bytes (outputs tx) = Inr ob"
    using assms input.print_all_ok txout.print_all_ok by (fastforce simp: tx_ok_def vertex_ok_def)
  show "\<exists>fb. get_funds_struct tx = Inr fb"
    using pack_ok [OF fits] ib ob by (simp add: get_funds_struct_def del: pack.simps)
  assume "get_funds_struct tx = Inr fb"
  then have fb: "fb = concat (map (\<lambda>(n, v). be_bytes n v) ?fs) @ concat (tokens tx) @ ib @ ob"
    using pack_ok [OF fits] ib ob by (simp add: get_funds_struct_def del: pack.simps be_bytes.simps)
  have t: "parse_n (\<lambda>buf. Inr (unpack_len TX_HASH_SIZE buf)) (length (tokens tx)) (concat (tokens tx) @ xs)
      = Inr (tokens tx, xs)" for xs
    using hash_field.parse_print_all [OF _ print_all_Inr] assms by (simp add: tx_ok_def)
  have i: "parse_n TxInput_create_from_bytes (length (inputs tx)) (ib @ xs) = Inr (inputs tx, xs)" for xs
    using input.parse_print_all [OF _ ib] assms by (simp add: tx_ok_def)
  have out: "parse_n TxOutput_create_from_bytes (length (outputs tx)) (ob @ xs) = Inr (outputs tx, xs)" for xs
    using txout.parse_print_all [OF _ ob] assms by (simp add: tx_ok_def vertex_ok_def)
  show "get_funds_fields_from_struct tx0 (fb @ rest) =
      Inr (tx0\<lparr>signal_bits := signal_bits tx, version := version tx, tokens := tokens tx,
             inputs := inputs tx, outputs := outputs tx\<rparr>, rest)"
    using unpack_packed [OF fits, of "[1, 1, 1, 1, 1]" "concat (tokens tx) @ ib @ ob @ rest"]
    by (simp add: get_funds_fields_from_struct_def fb t i out del: be_bytes.simps)
qed

lemma update_hash_vhash [simp]: "update_hash sha256 (tx\<lparr>vhash := x\<rparr>) = update_hash sha256 tx"
  by (simp add: update_hash_def tx_calculate_hash_def calculate_hash_def calculate_hash2_def
      get_mining_header_without_nonce_def get_graph_and_headers_hash_def get_headers_struct_def
      get_funds_struct_def get_graph_struct_def del: pack.simps)

text \<open>Parsing a serialized transaction gives the transaction with its hash computed.\<close>

lemma tx_struct_round_trip:
  assumes "tx_ok tx" and "headers tx = [] \<or> ENABLE_NANO_CONTRACTS stg"
  shows "\<exists>bs. tx_get_struct tx = Inr bs \<and> create_from_struct stg sha256 now bs = update_hash sha256 tx"
proof -
  have v: "vertex_ok tx" and n: "int_fits 4 False (nonce tx)"
    using assms(1) by (auto simp: tx_ok_def)
  obtain fb gb hb where fb: "get_funds_struct tx = Inr fb" and gb: "get_graph_struct tx = Inr gb"
    and hb: "get_headers_struct tx = Inr hb"
    using funds_round_trip(1) [OF assms(1)] graph_round_trip(1) [OF v] headers_round_trip(1) [OF v assms(2)] by blast
  have "tx_get_struct tx = Inr (fb @ gb @ be_bytes 4 (nonce tx) @ hb)"
    using n fb gb hb
    by (simp add: tx_get_struct_def get_struct_def get_struct_without_nonce_def get_struct_nonce_def
        int_to_bytes_ok del: be_bytes.simps)
  moreover have parsed: "new_tx now\<lparr>signal_bits := signal_bits tx, version := version tx,
      tokens := tokens tx, inputs := inputs tx, outputs := outputs tx, weight := weight tx,
      timestamp := timestamp tx, parents := parents tx, nonce := nonce tx, headers := headers tx\<rparr>
      = tx\<lparr>vhash := None\<rparr>"
    by (cases tx) (simp add: new_tx_def)
  moreover have "create_from_struct stg sha256 now (fb @ gb @ be_bytes 4 (nonce tx) @ hb) = update_hash sha256 tx"
    by (simp add: create_from_struct_def funds_round_trip(2) [OF assms(1) fb] graph_round_trip(2) [OF v gb]
        headers_round_trip(2) [OF v assms(2) hb] unpack_1 [OF n] parsed del: be_bytes.simps)
  ultimately show ?thesis by blast
qed

section \<open>What the signature hash covers\<close>

text \<open>The content a signature commits to: all but the input data and the script of the header.\<close>

definition sighash_view where
  "sighash_view tx = (signal_bits tx, version tx, tokens tx,
     map (\<lambda>i. (in_tx_id i, in_index i)) (inputs tx), outputs tx,
     map (\<lambda>h. h\<lparr>nc_script := []\<rparr>) (headers tx))"

definition clear_data :: "tx_input \<Rightarrow> tx_input" where
  "clear_data i = i\<lparr>in_data := []\<rparr>"

lemma sighash_input: "TxInput_get_sighash_bytes i = TxInput_bytes (clear_data i)"
  by (simp add: TxInput_get_sighash_bytes_def TxInput_bytes_def clear_data_def)

lemma print_all_map: "(\<And>x. f x = g (h x)) \<Longrightarrow> print_all f xs = print_all g (map h xs)"
  by (induction xs) auto

lemma input_ok_clear: "input_ok i \<Longrightarrow> input_ok (clear_data i)"
  by (simp add: input_ok_def clear_data_def)

lemma clear_data_inject:
  "map clear_data xs = map clear_data ys \<longleftrightarrow>
   map (\<lambda>i. (in_tx_id i, in_index i)) xs = map (\<lambda>i. (in_tx_id i, in_index i)) ys"
proof (induction xs arbitrary: ys)
  case Nil
  then show ?case by auto
next
  case (Cons x xs)
  have "clear_data x = clear_data y \<longleftrightarrow> (in_tx_id x, in_index x) = (in_tx_id y, in_index y)" for y
    by (cases x; cases y) (simp add: clear_data_def)
  with Cons show ?case by (cases ys) auto
qed

lemma sighash_header: "nano_get_sighash_bytes h = serialize_without_header_id True (h\<lparr>nc_script := []\<rparr>)"
  by (simp add: nano_get_sighash_bytes_def serialize_without_header_id_def)

lemma header_img_inject:
  assumes "header_ok h" and "header_ok k" and "header_img [] h = header_img [] k"
  shows "h\<lparr>nc_script := []\<rparr> = k\<lparr>nc_script := []\<rparr>"
proof -
  have *: "header_ok (h\<lparr>nc_script := []\<rparr>)" if "header_ok h" for h
    using that by (simp add: header_ok_def)
  have "nano_serialize (h\<lparr>nc_script := []\<rparr>) = nano_serialize (k\<lparr>nc_script := []\<rparr>)"
    using assms * by (simp add: nano_serialize_def serialize_without_header_id_ok header_img_def)
  moreover obtain b where "nano_serialize (k\<lparr>nc_script := []\<rparr>) = Inr b"
    using header.print_ok [OF * [OF assms(2)]] by blast
  ultimately show ?thesis
    using header.print_prefix_free [OF * * , of h k b b "[]" "[]"] assms(1,2) by simp
qed

lemma vertex_headers_cases:
  assumes "vertex_ok v"
  obtains (none) "headers v = []" | (one) h where "headers v = [h]" and "header_ok h"
  using assms by (cases "headers v") (auto simp: vertex_ok_def)

lemma header_img_nonempty: "header_img s h \<noteq> []"
  using leb128_img_length_pos [of False "nc_seqnum h"] by (auto simp: header_img_def)

lemma sighash_one_header: "header_ok h \<Longrightarrow> print_all nano_get_sighash_bytes [h] = Inr (header_img [] h)"
  by (simp add: nano_get_sighash_bytes_def serialize_without_header_id_ok)

lemma sighash_headers_ok:
  assumes "vertex_ok v"
  shows "\<exists>x. print_all nano_get_sighash_bytes (headers v) = Inr x"
  using assms by (cases rule: vertex_headers_cases) (simp_all add: sighash_one_header del: print_all.simps(2))

lemma sighash_headers_inject:
  assumes "vertex_ok v" and "vertex_ok w"
    and "print_all nano_get_sighash_bytes (headers v) = Inr a"
    and "print_all nano_get_sighash_bytes (headers w) = Inr a"
  shows "map (\<lambda>h. h\<lparr>nc_script := []\<rparr>) (headers v) = map (\<lambda>h. h\<lparr>nc_script := []\<rparr>) (headers w)"
  using assms(1)
proof (cases rule: vertex_headers_cases)
  case none
  with assms(3) have "a = []" by simp
  with assms(2,4) none show ?thesis
    by (auto elim!: vertex_headers_cases simp: sighash_one_header header_img_nonempty simp del: print_all.simps(2))
next
  case (one h)
  then have a: "a = header_img [] h"
    using assms(3) by (simp add: sighash_one_header del: print_all.simps(2))
  show ?thesis
    using assms(2)
  proof (cases rule: vertex_headers_cases)
    case none
    then show ?thesis using assms(4) a header_img_nonempty [of "[]" h] by simp
  next
    case (one k)
    then show ?thesis
      using assms(4) a header_img_inject [of h k] \<open>headers v = [h]\<close> \<open>header_ok h\<close>
      by (simp add: sighash_one_header del: print_all.simps(2))
  qed
qed

lemma sighash_all_funds:
  "get_sighash_all tx =
     bindE (get_funds_struct (tx\<lparr>inputs := map clear_data (inputs tx)\<rparr>)) (\<lambda>fb.
     bindE (print_all nano_get_sighash_bytes (headers tx)) (\<lambda>hb. Inr (fb @ hb)))"
  by (simp add: get_sighash_all_def get_funds_struct_def bindE_assoc
      print_all_map [of TxInput_get_sighash_bytes TxInput_bytes clear_data, OF sighash_input] del: pack.simps)

lemma tx_ok_clear: "tx_ok tx \<Longrightarrow> tx_ok (tx\<lparr>inputs := map clear_data (inputs tx)\<rparr>)"
  by (auto simp: tx_ok_def vertex_ok_def list_all_iff input_ok_clear)

lemma funds_prefix_free:
  assumes "tx_ok (t :: transaction)" and "tx_ok (u :: transaction)"
    and "get_funds_struct t = Inr a" and "get_funds_struct u = Inr b" and "a @ xs = b @ ys"
  shows "signal_bits t = signal_bits u \<and> version t = version u \<and> tokens t = tokens u \<and>
    inputs t = inputs u \<and> outputs t = outputs u \<and> xs = ys"
proof -
  let ?f = "\<lambda>t. new_tx 0\<lparr>signal_bits := signal_bits t, version := version t, tokens := tokens t,
      inputs := inputs t, outputs := outputs t\<rparr>"
  have "?f t = ?f u \<and> xs = ys"
    using funds_round_trip(2) [OF assms(1,3), of "new_tx 0" xs]
      funds_round_trip(2) [OF assms(2,4), of "new_tx 0" ys] assms(5) by simp
  then show ?thesis by (simp add: new_tx_def)
qed

lemma sighash_all_inject:
  assumes "tx_ok t" and "tx_ok u" and "get_sighash_all t = get_sighash_all u"
  shows "sighash_view (t :: transaction) = sighash_view (u :: transaction)"
proof -
  note ct = tx_ok_clear [OF assms(1)] and cu = tx_ok_clear [OF assms(2)]
  have v: "vertex_ok t" "vertex_ok u" using assms(1,2) by (auto simp: tx_ok_def)
  obtain a b where a: "get_funds_struct (t\<lparr>inputs := map clear_data (inputs t)\<rparr>) = Inr a"
    and b: "get_funds_struct (u\<lparr>inputs := map clear_data (inputs u)\<rparr>) = Inr b"
    using funds_round_trip(1) [OF ct] funds_round_trip(1) [OF cu] by blast
  obtain x y where x: "print_all nano_get_sighash_bytes (headers t) = Inr x"
    and y: "print_all nano_get_sighash_bytes (headers u) = Inr y"
    using sighash_headers_ok v by blast
  have eq: "a @ x = b @ y"
    using assms(3) a b x y by (simp add: sighash_all_funds)
  show ?thesis
    using funds_prefix_free [OF ct cu a b eq] sighash_headers_inject [OF v x] y
    by (simp add: sighash_view_def clear_data_inject)
qed

lemma sighash_all_view:
  fixes t u :: transaction
  assumes "sighash_view t = sighash_view u"
  shows "get_sighash_all t = get_sighash_all u"
proof -
  have i: "map clear_data (inputs t) = map clear_data (inputs u)"
    using assms by (simp add: sighash_view_def clear_data_inject)
  have h: "print_all nano_get_sighash_bytes (headers t) = print_all nano_get_sighash_bytes (headers u)"
    using assms
    by (simp add: sighash_view_def print_all_map [of nano_get_sighash_bytes
          "serialize_without_header_id True" "\<lambda>h. h\<lparr>nc_script := []\<rparr>", OF sighash_header])
  have l: "length (inputs t) = length (inputs u)"
    using i by (metis length_map)
  show ?thesis
    using assms i h l
    by (simp add: sighash_all_funds get_funds_struct_def sighash_view_def del: pack.simps)
qed

section \<open>Token creation transactions and blocks\<close>

definition token_string_ok :: "pystr \<Rightarrow> bool" where
  "token_string_ok s = (utf8_valid s \<and> (case utf8_encode s of Inl _ \<Rightarrow> False | Inr bs \<Rightarrow> length bs < 2 ^ 8))"

interpretation token_info: wire "\<lambda>(n, s). serialize_token_info n s" deserialize_token_info
  "\<lambda>(n, s). token_string_ok n \<and> token_string_ok s"
proof (unfold_locales, goal_cases)
  case (1 v)
  then obtain n s where v: "v = (n, s)" "token_string_ok n" "token_string_ok s" by (cases v) auto
  then obtain nb sb where "utf8_encode n = Inr nb" "utf8_encode s = Inr sb" "length nb < 2 ^ 8" "length sb < 2 ^ 8"
    by (auto simp: token_string_ok_def split: sum.splits)
  then show ?case
    using v int_fits_length [of nb 1] int_fits_length [of sb 1]
    by (simp add: serialize_token_info_def int_to_bytes_ok TOKEN_INFO_VERSION_def int_fits_unsigned del: be_bytes.simps)
next
  case (2 v bs rest)
  then obtain n s where v: "v = (n, s)" "token_string_ok n" "token_string_ok s" by (cases v) auto
  then obtain nb sb where b: "utf8_encode n = Inr nb" "utf8_encode s = Inr sb" "length nb < 2 ^ 8" "length sb < 2 ^ 8"
    by (auto simp: token_string_ok_def split: sum.splits)
  then have d: "utf8_decode nb = Inr n" "utf8_decode sb = Inr s"
    using v utf8_encode_ok [of n] utf8_encode_ok [of s] by (auto simp: token_string_ok_def)
  have f: "int_fits 1 False (int (length nb))" "int_fits 1 False (int (length sb))" "int_fits 1 False 1"
    using b int_fits_length [of nb 1] int_fits_length [of sb 1] by (simp_all add: int_fits_unsigned)
  have "bs = be_bytes 1 1 @ be_bytes 1 (int (length nb)) @ nb @ be_bytes 1 (int (length sb)) @ sb"
    using 2(2) v b f
    by (simp add: serialize_token_info_def int_to_bytes_ok TOKEN_INFO_VERSION_def del: be_bytes.simps)
  then show ?case
    using v d f
    by (simp add: deserialize_token_info_def unpack_1 unpack_len_append TOKEN_INFO_VERSION_def
        decode_string_utf8_def del: be_bytes.simps)
qed

definition tct_ok :: "token_creation_tx \<Rightarrow> bool" where
  "tct_ok tx = (vertex_ok tx \<and> int_fits 4 False (nonce tx) \<and>
     length (inputs tx) < 2 ^ 8 \<and> list_all input_ok (inputs tx) \<and>
     token_string_ok (token_name tx) \<and> token_string_ok (token_symbol tx))"

lemma tct_funds_round_trip:
  assumes "tct_ok tx"
  shows "\<exists>fb. tct_get_funds_struct tx = Inr fb"
    and "tct_get_funds_struct tx = Inr fb \<Longrightarrow> tct_get_funds_fields_from_struct tx0 (fb @ rest) =
      Inr (tx0\<lparr>signal_bits := signal_bits tx, version := version tx, inputs := inputs tx,
             outputs := outputs tx, token_name := token_name tx, token_symbol := token_symbol tx\<rparr>, rest)"
proof -
  let ?fs = "[(1, signal_bits tx), (1, version tx),
              (1, int (length (inputs tx))), (1, int (length (outputs tx)))]"
  have fits: "list_all (\<lambda>(n, v). int_fits n False v) ?fs"
    using assms int_fits_length [of "inputs tx" 1] int_fits_length [of "outputs tx" 1]
    by (simp add: tct_ok_def vertex_ok_def)
  obtain ib ob tb where ib: "print_all TxInput_bytes (inputs tx) = Inr ib"
    and ob: "print_all TxOutput_bytes (outputs tx) = Inr ob"
    and tb: "serialize_token_info (token_name tx) (token_symbol tx) = Inr tb"
    using assms input.print_all_ok txout.print_all_ok token_info.print_ok [of "(token_name tx, token_symbol tx)"]
    by (fastforce simp: tct_ok_def vertex_ok_def)
  show "\<exists>fb. tct_get_funds_struct tx = Inr fb"
    using pack_ok [OF fits] ib ob tb by (simp add: tct_get_funds_struct_def del: pack.simps)
  assume "tct_get_funds_struct tx = Inr fb"
  then have fb: "fb = concat (map (\<lambda>(n, v). be_bytes n v) ?fs) @ ib @ ob @ tb"
    using pack_ok [OF fits] ib ob tb by (simp add: tct_get_funds_struct_def del: pack.simps be_bytes.simps)
  have i: "parse_n TxInput_create_from_bytes (length (inputs tx)) (ib @ xs) = Inr (inputs tx, xs)" for xs
    using input.parse_print_all [OF _ ib] assms by (simp add: tct_ok_def)
  have out: "parse_n TxOutput_create_from_bytes (length (outputs tx)) (ob @ xs) = Inr (outputs tx, xs)" for xs
    using txout.parse_print_all [OF _ ob] assms by (simp add: tct_ok_def vertex_ok_def)
  have t: "deserialize_token_info (tb @ xs) = Inr ((token_name tx, token_symbol tx), xs)" for xs
    using token_info.parse_print [of "(token_name tx, token_symbol tx)" tb] tb assms by (simp add: tct_ok_def)
  show "tct_get_funds_fields_from_struct tx0 (fb @ rest) =
      Inr (tx0\<lparr>signal_bits := signal_bits tx, version := version tx, inputs := inputs tx,
             outputs := outputs tx, token_name := token_name tx, token_symbol := token_symbol tx\<rparr>, rest)"
    using unpack_packed [OF fits, of "[1, 1, 1, 1]" "ib @ ob @ tb @ rest"]
    by (simp add: tct_get_funds_fields_from_struct_def fb t i out del: be_bytes.simps)
qed

lemma tct_update_hash_cong [simp]:
  "tct_update_hash sha256 (tx\<lparr>vhash := x, tokens := ts\<rparr>) = tct_update_hash sha256 tx"
  by (simp add: tct_update_hash_def calculate_hash_def calculate_hash2_def
      get_mining_header_without_nonce_def get_graph_and_headers_hash_def get_headers_struct_def
      tct_get_funds_struct_def get_graph_struct_def del: pack.simps)

lemma tct_struct_round_trip:
  assumes "tct_ok tx" and "headers tx = [] \<or> ENABLE_NANO_CONTRACTS stg"
  shows "\<exists>bs. tct_get_struct tx = Inr bs \<and> tct_create_from_struct stg sha256 now bs = tct_update_hash sha256 tx"
proof -
  have v: "vertex_ok tx" and n: "int_fits 4 False (nonce tx)"
    using assms(1) by (auto simp: tct_ok_def)
  obtain fb gb hb where fb: "tct_get_funds_struct tx = Inr fb" and gb: "get_graph_struct tx = Inr gb"
    and hb: "get_headers_struct tx = Inr hb"
    using tct_funds_round_trip(1) [OF assms(1)] graph_round_trip(1) [OF v] headers_round_trip(1) [OF v assms(2)]
    by blast
  have "tct_get_struct tx = Inr (fb @ gb @ be_bytes 4 (nonce tx) @ hb)"
    using n fb gb hb
    by (simp add: tct_get_struct_def get_struct_def get_struct_without_nonce_def get_struct_nonce_def
        int_to_bytes_ok del: be_bytes.simps)
  moreover have parsed: "new_tct now\<lparr>signal_bits := signal_bits tx, version := version tx,
      inputs := inputs tx, outputs := outputs tx, token_name := token_name tx,
      token_symbol := token_symbol tx, weight := weight tx, timestamp := timestamp tx,
      parents := parents tx, nonce := nonce tx, headers := headers tx\<rparr>
      = tx\<lparr>vhash := None, tokens := []\<rparr>"
    by (cases tx) (simp add: new_tct_def)
  moreover have "tct_create_from_struct stg sha256 now (fb @ gb @ be_bytes 4 (nonce tx) @ hb)
      = tct_update_hash sha256 tx"
    by (simp add: tct_create_from_struct_def tct_funds_round_trip(2) [OF assms(1) fb]
        graph_round_trip(2) [OF v gb] headers_round_trip(2) [OF v assms(2) hb] unpack_1 [OF n] parsed
        del: be_bytes.simps)
  ultimately show ?thesis by blast
qed

definition block_ok :: "block \<Rightarrow> bool" where
  "block_ok b = (vertex_ok b \<and> headers b = [] \<and> inputs b = [] \<and> int_fits 16 False (nonce b) \<and>
     length (block_data b) < 2 ^ 8)"

lemma block_funds_round_trip:
  assumes "block_ok b"
  shows "\<exists>fb. block_get_funds_struct b = Inr fb"
    and "block_get_funds_struct b = Inr fb \<Longrightarrow> block_get_funds_fields_from_struct b0 (fb @ rest) =
      Inr (b0\<lparr>signal_bits := signal_bits b, version := version b, outputs := outputs b\<rparr>, rest)"
proof -
  let ?fs = "[(1, signal_bits b), (1, version b), (1, int (length (outputs b)))]"
  have fits: "list_all (\<lambda>(n, v). int_fits n False v) ?fs"
    using assms int_fits_length [of "outputs b" 1] by (simp add: block_ok_def vertex_ok_def)
  obtain ob where ob: "print_all TxOutput_bytes (outputs b) = Inr ob"
    using assms txout.print_all_ok by (fastforce simp: block_ok_def vertex_ok_def)
  show "\<exists>fb. block_get_funds_struct b = Inr fb"
    using pack_ok [OF fits] ob by (simp add: block_get_funds_struct_def del: pack.simps)
  assume "block_get_funds_struct b = Inr fb"
  then have fb: "fb = concat (map (\<lambda>(n, v). be_bytes n v) ?fs) @ ob"
    using pack_ok [OF fits] ob by (simp add: block_get_funds_struct_def del: pack.simps be_bytes.simps)
  have out: "parse_n TxOutput_create_from_bytes (length (outputs b)) (ob @ xs) = Inr (outputs b, xs)" for xs
    using txout.parse_print_all [OF _ ob] assms by (simp add: block_ok_def vertex_ok_def)
  show "block_get_funds_fields_from_struct b0 (fb @ rest) =
      Inr (b0\<lparr>signal_bits := signal_bits b, version := version b, outputs := outputs b\<rparr>, rest)"
    using unpack_packed [OF fits, of "[1, 1, 1]" "ob @ rest"]
    by (simp add: block_get_funds_fields_from_struct_def fb out del: be_bytes.simps)
qed

lemma block_struct_round_trip:
  assumes "block_ok b"
  shows "\<exists>bs. block_get_struct b = Inr bs \<and> block_create_from_struct stg sha256 now bs =
    bindE (block_calculate_hash sha256 b) (\<lambda>h. Inr (b\<lparr>vhash := Some h\<rparr>))"
proof -
  have v: "vertex_ok b" and n: "int_fits 16 False (nonce b)" and hs: "headers b = []" "inputs b = []"
    and d: "int_fits 1 False (int (length (block_data b)))"
    using assms int_fits_length [of "block_data b" 1] by (auto simp: block_ok_def)
  obtain fb gb where fb: "block_get_funds_struct b = Inr fb" and gb: "get_graph_struct b = Inr gb"
    using block_funds_round_trip(1) [OF assms] graph_round_trip(1) [OF v] by blast
  let ?db = "be_bytes 1 (int (length (block_data b))) @ block_data b"
  have "block_get_struct b = Inr (fb @ gb @ ?db @ be_bytes 16 (nonce b))"
    using n d fb gb hs
    by (simp add: block_get_struct_def get_struct_def get_struct_without_nonce_def get_struct_nonce_def
        get_headers_struct_def block_get_graph_struct_def int_to_bytes_ok del: be_bytes.simps)
  moreover have parsed: "new_block now\<lparr>signal_bits := signal_bits b, version := version b,
      outputs := outputs b, weight := weight b, timestamp := timestamp b, parents := parents b,
      block_data := block_data b, nonce := nonce b, headers := []\<rparr> = b\<lparr>vhash := None\<rparr>"
    using hs by (cases b) (simp add: new_block_def)
  moreover have "block_calculate_hash sha256 (b\<lparr>vhash := None\<rparr>) = block_calculate_hash sha256 b"
    by (simp add: block_calculate_hash_def calculate_hash_def calculate_hash2_def
        get_mining_header_without_nonce_def get_graph_and_headers_hash_def get_headers_struct_def
        block_get_funds_struct_def block_get_graph_struct_def get_graph_struct_def del: pack.simps)
  moreover have "block_create_from_struct stg sha256 now (fb @ gb @ ?db @ be_bytes 16 (nonce b)) =
    bindE (block_calculate_hash sha256 b) (\<lambda>h. Inr (b\<lparr>vhash := Some h\<rparr>))"
    using calculation(2,3) d
    by (simp add: block_create_from_struct_def block_get_graph_fields_from_struct_def
        block_funds_round_trip(2) [OF assms fb] graph_round_trip(2) [OF v gb] unpack_1
        unpack_len_append get_headers_from_bytes.simps [of _ _ _ "[]"] int_from_bytes_be_bytes [OF n]
        del: be_bytes.simps)
  ultimately show ?thesis by blast
qed

section \<open>The vertex hash\<close>

lemma calculate_hash_ok:
  assumes "\<forall>x. length (sha256 x) = 32" and "funds = Inr fb" and "graph = Inr gb"
    and "get_headers_struct v = Inr hb" and "int_fits 16 False (nonce v)"
  shows "calculate_hash sha256 funds graph v =
    Inr (rev (sha256 (sha256 (sha256 fb @ sha256 (gb @ hb) @ be_bytes 16 (nonce v)))))"
  using assms
  by (simp add: calculate_hash_def calculate_hash2_def get_mining_header_without_nonce_def
      get_funds_hash_def get_graph_and_headers_hash_def HASH_NONCE_SIZE_def int_to_bytes_ok
      del: be_bytes.simps)

lemma headers_struct_ok: "vertex_ok v \<Longrightarrow> \<exists>hb. get_headers_struct v = Inr hb"
  by (simp add: get_headers_struct_def header.print_all_ok vertex_ok_def)

lemma int_fits_mono: "int_fits m False v \<Longrightarrow> m \<le> n \<Longrightarrow> int_fits n False v"
  unfolding int_fits_unsigned
  using power_increasing [of "8 * m" "8 * n" "2 :: int"] by linarith

lemma tx_calculate_hash_ok:
  assumes "tx_ok tx" and "\<forall>x. length (sha256 x) = 32"
  shows "\<exists>h. tx_calculate_hash sha256 tx = Inr h"
proof -
  have v: "vertex_ok tx" and n: "int_fits 16 False (nonce tx)"
    using assms(1) int_fits_mono [of 4 "nonce tx" 16] by (auto simp: tx_ok_def)
  obtain fb gb hb where c: "get_funds_struct tx = Inr fb" "get_graph_struct tx = Inr gb" "get_headers_struct tx = Inr hb"
    using funds_round_trip(1) [OF assms(1)] graph_round_trip(1) [OF v] headers_struct_ok [OF v] by blast
  show ?thesis
    using calculate_hash_ok [OF assms(2) c n] by (simp add: tx_calculate_hash_def)
qed

lemma tct_calculate_hash_ok:
  assumes "tct_ok tx" and "\<forall>x. length (sha256 x) = 32"
  shows "\<exists>h. calculate_hash sha256 (tct_get_funds_struct tx) (get_graph_struct tx) tx = Inr h"
proof -
  have v: "vertex_ok tx" and n: "int_fits 16 False (nonce tx)"
    using assms(1) int_fits_mono [of 4 "nonce tx" 16] by (auto simp: tct_ok_def)
  obtain fb gb hb where c: "tct_get_funds_struct tx = Inr fb" "get_graph_struct tx = Inr gb" "get_headers_struct tx = Inr hb"
    using tct_funds_round_trip(1) [OF assms(1)] graph_round_trip(1) [OF v] headers_struct_ok [OF v] by blast
  show ?thesis
    using calculate_hash_ok [OF assms(2) c n] by simp
qed

lemma block_calculate_hash_ok:
  assumes "block_ok b" and "\<forall>x. length (sha256 x) = 32"
  shows "\<exists>h. block_calculate_hash sha256 b = Inr h"
proof -
  have v: "vertex_ok b" and n: "int_fits 16 False (nonce b)" and hs: "headers b = []"
    and d: "int_fits 1 False (int (length (block_data b)))"
    using assms(1) int_fits_length [of "block_data b" 1] by (auto simp: block_ok_def)
  obtain fb gb where fb: "block_get_funds_struct b = Inr fb" and gb: "get_graph_struct b = Inr gb"
    using block_funds_round_trip(1) [OF assms(1)] graph_round_trip(1) [OF v] by blast
  have "\<exists>g. block_get_graph_struct b = Inr g"
    using gb d by (simp add: block_get_graph_struct_def int_to_bytes_ok)
  moreover have "get_headers_struct b = Inr []"
    using hs by (simp add: get_headers_struct_def)
  ultimately show ?thesis
    using calculate_hash_ok [OF assms(2) fb _ _ n] by (auto simp: block_calculate_hash_def)
qed

text \<open>\<open>collision f a b\<close>: two different byte strings with the same digest.\<close>

definition collision :: "(bytes \<Rightarrow> bytes) \<Rightarrow> bytes \<Rightarrow> bytes \<Rightarrow> bool" where
  "collision f a b = (a \<noteq> b \<and> f a = f b)"

lemma no_collision: "f a = f b \<Longrightarrow> \<not> collision f a b \<Longrightarrow> a = b"
  by (auto simp: collision_def)

lemma graph_and_headers_inject:
  assumes "vertex_ok v" and "vertex_ok w" and "get_graph_struct v = Inr g" and "get_graph_struct w = Inr g'"
    and "get_headers_struct v = Inr h" and "get_headers_struct w = Inr h'" and "g @ h = g' @ h'"
  shows "weight v = weight w \<and> timestamp v = timestamp w \<and> parents v = parents w \<and> headers v = headers w"
proof -
  define stg where "stg = mainnet_settings\<lparr>ENABLE_NANO_CONTRACTS := True\<rparr>"
  have e: "ENABLE_NANO_CONTRACTS stg" by (simp add: stg_def)
  have "weight v = weight w \<and> timestamp v = timestamp w \<and> parents v = parents w \<and> h = h'"
    using graph_round_trip(2) [OF assms(1,3), of "new_tx 0" h]
      graph_round_trip(2) [OF assms(2,4), of "new_tx 0" h'] assms(7)
    by (simp add: new_tx_def)
  moreover have "h = h' \<Longrightarrow> headers v = headers w"
    using headers_round_trip(2) [OF assms(1) _ assms(5), of stg] headers_round_trip(2) [OF assms(2) _ assms(6), of stg] e
    by simp
  ultimately show ?thesis by blast
qed

lemma be_bytes_inject: "int_fits n False v \<Longrightarrow> int_fits n False w \<Longrightarrow> be_bytes n v = be_bytes n w \<Longrightarrow> v = w"
  using int_from_bytes_be_bytes by metis

text \<open>
  The four strings that are given to the digest while the hash of a transaction is calculated, in this order: the funds,
  the graph with the headers, the mining header made of their digests and the nonce, and the digest of
  the mining header.
\<close>

definition digested_strings :: "(bytes \<Rightarrow> bytes) \<Rightarrow> transaction \<Rightarrow> bytes list result" where
  "digested_strings sha256 t =
     bindE (get_funds_struct t) (\<lambda>f.
     bindE (get_graph_struct t) (\<lambda>g.
     bindE (get_headers_struct t) (\<lambda>h.
     bindE (int_to_bytes 16 False (nonce t)) (\<lambda>n.
     let m = sha256 f @ sha256 (g @ h) @ n in Inr [f, g @ h, m, sha256 m]))))"

text \<open>
  Two transactions with the same hash have the same content, or the digest collides on two strings at the same
  place of the two calculations.
\<close>

lemma tx_hash_inject:
  fixes t u :: transaction
  assumes "tx_ok t" and "tx_ok u" and len: "\<forall>x. length (sha256 x) = 32"
    and "tx_calculate_hash sha256 t = tx_calculate_hash sha256 u"
  shows "\<exists>xs ys. digested_strings sha256 t = Inr xs \<and> digested_strings sha256 u = Inr ys \<and>
    tx_calculate_hash sha256 t = Inr (rev (sha256 (last xs))) \<and>
    (t\<lparr>vhash := None\<rparr> = u\<lparr>vhash := None\<rparr> \<or> (\<exists>i<4. collision sha256 (xs ! i) (ys ! i)))"
proof -
  have v: "vertex_ok t" "vertex_ok u" and n: "int_fits 16 False (nonce t)" "int_fits 16 False (nonce u)"
    using assms(1,2) int_fits_mono [of 4 _ 16] by (auto simp: tx_ok_def)
  obtain f g h where t: "get_funds_struct t = Inr f" "get_graph_struct t = Inr g" "get_headers_struct t = Inr h"
    using funds_round_trip(1) [OF assms(1)] graph_round_trip(1) [OF v(1)] headers_struct_ok [OF v(1)] by blast
  obtain f' g' h' where u: "get_funds_struct u = Inr f'" "get_graph_struct u = Inr g'" "get_headers_struct u = Inr h'"
    using funds_round_trip(1) [OF assms(2)] graph_round_trip(1) [OF v(2)] headers_struct_ok [OF v(2)] by blast
  let ?m = "sha256 f @ sha256 (g @ h) @ be_bytes 16 (nonce t)"
  let ?m' = "sha256 f' @ sha256 (g' @ h') @ be_bytes 16 (nonce u)"
  let ?xs = "[f, g @ h, ?m, sha256 ?m]" and ?ys = "[f', g' @ h', ?m', sha256 ?m']"
  have strings: "digested_strings sha256 t = Inr ?xs" "digested_strings sha256 u = Inr ?ys"
    using t u n by (simp_all add: digested_strings_def int_to_bytes_ok Let_def del: be_bytes.simps)
  have hash: "tx_calculate_hash sha256 t = Inr (rev (sha256 (sha256 ?m)))"
    using calculate_hash_ok [OF len t n(1)] by (simp add: tx_calculate_hash_def del: be_bytes.simps)
  have eq: "sha256 (sha256 ?m) = sha256 (sha256 ?m')"
    using assms(4) hash calculate_hash_ok [OF len u n(2)] by (simp add: tx_calculate_hash_def del: be_bytes.simps)
  have "t\<lparr>vhash := None\<rparr> = u\<lparr>vhash := None\<rparr>" if no: "\<not> (\<exists>i<4. collision sha256 (?xs ! i) (?ys ! i))"
  proof -
    have c: "\<not> collision sha256 f f'" "\<not> collision sha256 (g @ h) (g' @ h')" "\<not> collision sha256 ?m ?m'"
      "\<not> collision sha256 (sha256 ?m) (sha256 ?m')"
      using no [simplified, rule_format, of 0] no [simplified, rule_format, of 1] no [simplified, rule_format, of 2]
        no [simplified, rule_format, of 3]
      by (simp_all del: be_bytes.simps)
    have "?m = ?m'" using eq c(3,4) no_collision by metis
    then have "sha256 f = sha256 f'" "sha256 (g @ h) = sha256 (g' @ h')" "be_bytes 16 (nonce t) = be_bytes 16 (nonce u)"
      using len by (simp_all del: be_bytes.simps)
    then have "f = f'" "g @ h = g' @ h'" "nonce t = nonce u"
      using c(1,2) no_collision be_bytes_inject [OF n] by metis+
    then show ?thesis
      using graph_and_headers_inject [OF v t(2) u(2) t(3) u(3)]
        funds_prefix_free [OF assms(1,2) t(1) u(1), of "[]" "[]"]
      by (cases t; cases u) simp
  qed
  then show ?thesis using strings hash by (intro exI [of _ ?xs] exI [of _ ?ys]) (auto simp del: be_bytes.simps)
qed

section \<open>A header cut short\<close>

lemma unpack_len_short: "int (length xs) \<le> n \<Longrightarrow> unpack_len n xs = (xs, [])"
  by (simp add: unpack_len_def)

text \<open>
  The parser takes the script with a slice and does not check how many bytes it got, so the last
  field of the last header may be cut anywhere.
\<close>

lemma nano_deserialize_cut:
  assumes "header_ok h" and "k \<le> length (nc_script h)"
  shows "nano_deserialize True (take (1 + length (header_img (nc_script h) h) - k)
      (NANO_HEADER_ID @ header_img (nc_script h) h)) =
    Inr (h\<lparr>nc_script := take (length (nc_script h) - k) (nc_script h)\<rparr>, [])"
proof -
  let ?cut = "take (length (nc_script h) - k) (nc_script h)"
  note f = header_fields_ok [OF assms(1)]
  obtain bs where bs: "print_all serialize_action (nc_actions h) = Inr bs"
    using f(5) by blast
  have acts: "parse_n deserialize_action (length (nc_actions h)) (bs @ xs) = Inr (nc_actions h, xs)" for xs
    using assms action.parse_print_all [OF _ bs] by (simp add: header_ok_def)
  have seq: "decode_unsigned (leb128_img False (nc_seqnum h) @ xs) (Some 8) = Inr (nc_seqnum h, xs)" for xs
    using assms leb128_8_bytes [of "nc_seqnum h"] by (intro decode_unsigned_img) (auto simp: header_ok_def)
  have scr: "decode_unsigned (leb128_img False (int (length (nc_script h))) @ xs) (Some 2)
      = Inr (int (length (nc_script h)), xs)" for xs
    using assms leb128_2_bytes [of "int (length (nc_script h))"]
    by (intro decode_unsigned_img) (auto simp: header_ok_def)
  define pre where "pre = nc_id h @ leb128_img False (nc_seqnum h) @ be_bytes 1 (int (length (nc_method h)))
     @ map of_nat (nc_method h) @ be_bytes 2 (int (length (nc_args_bytes h))) @ nc_args_bytes h
     @ be_bytes 1 (int (length (nc_actions h))) @ bs @ nc_address h @ leb128_img False (int (length (nc_script h)))"
  have img: "header_img (nc_script h) h = pre @ nc_script h"
    using bs by (simp add: header_img_def pre_def)
  have "take (1 + length (header_img (nc_script h) h) - k) (NANO_HEADER_ID @ header_img (nc_script h) h)
      = NANO_HEADER_ID @ pre @ ?cut"
    using assms(2) by (simp add: img NANO_HEADER_ID_def Suc_diff_le)
  moreover have "nano_deserialize True (NANO_HEADER_ID @ pre @ ?cut) = Inr (h\<lparr>nc_script := ?cut\<rparr>, [])"
    using assms bs f ascii_decode_encode [OF f(4)]
    by (simp add: nano_deserialize_def pre_def NANO_HEADER_ID_def header_ok_def is_hash_def
        ADDRESS_SEQNUM_SIZE_def NC_SCRIPT_LEN_MAX_BYTES_def ADDRESS_LEN_BYTES_def
        unpack_len_append unpack_len_short unpack_1 acts seq scr del: be_bytes.simps)
  ultimately show ?thesis by simp
qed

lemma tx_struct_cut:
  assumes "tx_ok tx" and "headers tx = [h]" and "ENABLE_NANO_CONTRACTS stg" and "k \<le> length (nc_script h)"
    and "tx_get_struct tx = Inr bs"
  shows "create_from_struct stg sha256 now (take (length bs - k) bs) =
    update_hash sha256 (tx\<lparr>headers := [h\<lparr>nc_script := take (length (nc_script h) - k) (nc_script h)\<rparr>]\<rparr>)"
proof -
  let ?h = "h\<lparr>nc_script := take (length (nc_script h) - k) (nc_script h)\<rparr>"
  have v: "vertex_ok tx" and n: "int_fits 4 False (nonce tx)" and h: "header_ok h"
    using assms(1,2) by (auto simp: tx_ok_def vertex_ok_def)
  obtain fb gb where fb: "get_funds_struct tx = Inr fb" and gb: "get_graph_struct tx = Inr gb"
    using funds_round_trip(1) [OF assms(1)] graph_round_trip(1) [OF v] by blast
  define hb where "hb = NANO_HEADER_ID @ header_img (nc_script h) h"
  define hb' where "hb' = take (1 + length (header_img (nc_script h) h) - k) hb"
  have hd: "get_headers_struct tx = Inr hb"
    using h assms(2) by (simp add: hb_def get_headers_struct_def nano_serialize_def serialize_without_header_id_ok)
  have "bs = fb @ gb @ be_bytes 4 (nonce tx) @ hb"
    using n fb gb hd assms(5)
    by (simp add: tx_get_struct_def get_struct_def get_struct_without_nonce_def get_struct_nonce_def
        int_to_bytes_ok del: be_bytes.simps)
  moreover have "k \<le> length hb"
    using assms(4) by (simp add: hb_def header_img_def)
  ultimately have bs: "take (length bs - k) bs = fb @ gb @ be_bytes 4 (nonce tx) @ hb'"
    by (simp add: hb'_def hb_def NANO_HEADER_ID_def)
  have "take 1 hb' = NANO_HEADER_ID" and "hb' \<noteq> []"
    using assms(4) header_img_nonempty [of "nc_script h" h]
    by (auto simp: hb'_def hb_def NANO_HEADER_ID_def header_img_def Suc_diff_le)
  then have hs: "get_headers_from_bytes stg True [] hb' = Inr [?h]"
    using assms(3) nano_deserialize_cut [OF h assms(4)]
    by (simp add: get_headers_from_bytes.simps [of _ _ "[]"] get_headers_from_bytes.simps [of _ _ _ "[]"]
        get_header_from_bytes_def get_maximum_number_of_headers_def hb'_def hb_def)
  have parsed: "new_tx now\<lparr>signal_bits := signal_bits tx, version := version tx,
      tokens := tokens tx, inputs := inputs tx, outputs := outputs tx, weight := weight tx,
      timestamp := timestamp tx, parents := parents tx, nonce := nonce tx, headers := [?h]\<rparr>
      = tx\<lparr>headers := [?h], vhash := None\<rparr>"
    by (cases tx) (simp add: new_tx_def)
  show ?thesis
    unfolding bs
    by (simp add: create_from_struct_def funds_round_trip(2) [OF assms(1) fb] graph_round_trip(2) [OF v gb]
        hs unpack_1 [OF n] parsed del: be_bytes.simps)
qed

section \<open>Properties\<close>

text \<open>Concrete vertices and a concrete digest, for the witnesses.\<close>

definition sample_digest :: "bytes \<Rightarrow> bytes" where
  "sample_digest bs = replicate 32 (of_nat (length bs))"

definition sample_header :: nano_header where
  "sample_header = \<lparr>nc_seqnum = 5, nc_id = replicate 32 9,
     nc_method = [105, 110, 105, 116, 105, 97, 108, 105, 122, 101], nc_args_bytes = [0],
     nc_actions = [\<lparr>action_type = DEPOSIT, token_index = 0, action_amount = 100\<rparr>],
     nc_address = replicate 25 7, nc_script = [1, 2, 3]\<rparr>"

definition sample_tx :: transaction where
  "sample_tx = \<lparr>nonce = 7, timestamp = 1600000000, signal_bits = 0, version = 1, weight = 0x4031000000000000,
     inputs = [\<lparr>in_tx_id = replicate 32 1, in_index = 3, in_data = [1, 2]\<rparr>],
     outputs = [\<lparr>out_value = 3000000000, out_script = [0x76, 0xa9], token_data = 1\<rparr>],
     parents = [replicate 32 2, replicate 32 3], headers = [sample_header], vhash = None,
     tokens = [replicate 32 4]\<rparr>"

definition sample_tct :: token_creation_tx where
  "sample_tct = \<lparr>nonce = 7, timestamp = 1600000000, signal_bits = 0, version = 2, weight = 0,
     inputs = [\<lparr>in_tx_id = replicate 32 1, in_index = 3, in_data = [1, 2]\<rparr>],
     outputs = [\<lparr>out_value = 100, out_script = [0x76, 0xa9], token_data = 1\<rparr>],
     parents = [], headers = [], vhash = None, tokens = [],
     token_name = [84, 233], token_symbol = [0x20AC]\<rparr>"

definition sample_block :: block where
  "sample_block = \<lparr>nonce = 2 ^ 100, timestamp = 1600000000, signal_bits = 3, version = 0, weight = 0,
     inputs = [], outputs = [\<lparr>out_value = 6400, out_script = [0x76, 0xa9], token_data = 0\<rparr>],
     parents = [replicate 32 2], headers = [], vhash = None, block_data = [1, 2, 3]\<rparr>"

definition nano_settings :: hathor_settings where
  "nano_settings = mainnet_settings\<lparr>ENABLE_NANO_CONTRACTS := True\<rparr>"

lemmas sample_ok_defs = vertex_ok_def is_hash_def input_ok_def output_ok_def header_ok_def action_ok_def
  int_fits_def MAX_OUTPUT_VALUE_64_def sample_header_def

lemma sample_tx_ok: "tx_ok sample_tx"
  by (simp add: sample_tx_def tx_ok_def sample_ok_defs)

lemma sample_tct_ok: "tct_ok sample_tct"
  by (simp add: sample_tct_def tct_ok_def token_string_ok_def utf8_valid_def is_char_def is_surrogate_def
      utf8_char_def sample_ok_defs)

lemma sample_block_ok: "block_ok sample_block"
  by (simp add: sample_block_def block_ok_def sample_ok_defs)

lemma length_sample_digest: "\<forall>x. length (sample_digest x) = 32"
  by (simp add: sample_digest_def)

text \<open>
  C4. Round trip of transactions: a transaction whose fields are in range, with or without a nano
  header, is serialized by \<open>get_struct\<close>, and \<open>create_from_struct\<close> on those bytes returns the same
  transaction with its hash filled in, the hash that \<open>calculate_hash\<close> computes for it.
\<close>

theorem transaction_round_trip:
  assumes "tx_ok tx" and "headers tx = [] \<or> ENABLE_NANO_CONTRACTS stg"
    and "\<forall>x. length (sha256 x) = 32"
  shows "\<exists>bs h. tx_get_struct tx = Inr bs \<and> tx_calculate_hash sha256 tx = Inr h \<and>
    create_from_struct stg sha256 now bs = Inr (tx\<lparr>vhash := Some h\<rparr>)"
  using tx_struct_round_trip [OF assms(1,2), of sha256 now] tx_calculate_hash_ok [OF assms(1,3)]
  by (auto simp: update_hash_def)

theorem transaction_round_trip_witness:
  "tx_ok sample_tx \<and> (\<exists>bs h. tx_get_struct sample_tx = Inr bs \<and>
    tx_calculate_hash sample_digest sample_tx = Inr h \<and>
    create_from_struct nano_settings sample_digest 0 bs = Inr (sample_tx\<lparr>vhash := Some h\<rparr>))"
  using transaction_round_trip [OF sample_tx_ok _ length_sample_digest, of nano_settings 0] sample_tx_ok
  by (simp add: nano_settings_def)

text \<open>
  C12. Round trip of token creation transactions: parsing the serialization gives back the
  transaction, with its hash filled in and with that hash as the only token of its token list.
\<close>

theorem token_creation_round_trip:
  assumes "tct_ok tx" and "headers tx = [] \<or> ENABLE_NANO_CONTRACTS stg"
    and "\<forall>x. length (sha256 x) = 32"
  shows "\<exists>bs h. tct_get_struct tx = Inr bs \<and>
    tct_create_from_struct stg sha256 now bs = Inr (tx\<lparr>vhash := Some h, tokens := [h]\<rparr>)"
  using tct_struct_round_trip [OF assms(1,2), of sha256 now] tct_calculate_hash_ok [OF assms(1,3)]
  by (auto simp: tct_update_hash_def)

theorem token_creation_round_trip_witness:
  "tct_ok sample_tct \<and> (\<exists>bs h. tct_get_struct sample_tct = Inr bs \<and>
    tct_create_from_struct mainnet_settings sample_digest 0 bs =
      Inr (sample_tct\<lparr>vhash := Some h, tokens := [h]\<rparr>))"
  using token_creation_round_trip [OF sample_tct_ok _ length_sample_digest, of mainnet_settings 0] sample_tct_ok
  by (simp add: sample_tct_def)

text \<open>
  C13. Round trip of blocks: parsing the serialization of a block gives back the block with its hash
  filled in.
\<close>

theorem block_round_trip:
  assumes "block_ok b" and "\<forall>x. length (sha256 x) = 32"
  shows "\<exists>bs h. block_get_struct b = Inr bs \<and> block_calculate_hash sha256 b = Inr h \<and>
    block_create_from_struct stg sha256 now bs = Inr (b\<lparr>vhash := Some h\<rparr>)"
  using block_struct_round_trip [OF assms(1), of stg sha256 now] block_calculate_hash_ok [OF assms]
  by auto

theorem block_round_trip_witness:
  "block_ok sample_block \<and> (\<exists>bs h. block_get_struct sample_block = Inr bs \<and>
    block_calculate_hash sample_digest sample_block = Inr h \<and>
    block_create_from_struct mainnet_settings sample_digest 0 bs = Inr (sample_block\<lparr>vhash := Some h\<rparr>))"
  using block_round_trip [OF sample_block_ok length_sample_digest, of mainnet_settings 0] sample_block_ok by simp

text \<open>
  C5. What a signature covers: two well-formed transactions have the same signature hash input
  exactly when they agree on the signal bits, the version, the tokens, the outputs, the outpoints
  they spend and the nano header up to its script. Neither the data of the inputs nor the script of
  the header has an influence, and nothing else can be changed without changing what is signed. The docstring of
  \<^verbatim>\<open>get_sighash_all\<close> says less: inputs, outputs and tokens, "without including any other field"; signal bits, version and
  nano headers are covered as well.
\<close>

theorem sighash_covers:
  assumes "tx_ok t" and "tx_ok u"
  shows "get_sighash_all t = get_sighash_all u \<longleftrightarrow>
    sighash_view (t :: transaction) = sighash_view (u :: transaction)"
  using sighash_all_inject [OF assms] sighash_all_view by blast

theorem sighash_covers_witness:
  "tx_ok sample_tx \<and> (get_sighash_all sample_tx = get_sighash_all (sample_tx\<lparr>nonce := 8\<rparr>) \<longleftrightarrow>
    sighash_view sample_tx = sighash_view (sample_tx\<lparr>nonce := 8\<rparr>))"
proof -
  have "tx_ok (sample_tx\<lparr>nonce := 8\<rparr>)"
    by (simp add: sample_tx_def tx_ok_def sample_ok_defs)
  then show ?thesis
    using sighash_covers [OF sample_tx_ok] sample_tx_ok by blast
qed

text \<open>
  C6. The hash of a transaction commits to all of its content: two well-formed transactions with
  the same hash are equal up to the cached hash, unless the digest collides on two different strings at the same
  place of the two calculations: their funds, their graphs with headers, their mining headers, or the digests
  of their mining headers.
\<close>

theorem transaction_hash_binding:
  fixes t u :: transaction
  assumes "tx_ok t" and "tx_ok u" and "\<forall>x. length (sha256 x) = 32"
    and "tx_calculate_hash sha256 t = tx_calculate_hash sha256 u"
  shows "\<exists>xs ys. digested_strings sha256 t = Inr xs \<and> digested_strings sha256 u = Inr ys \<and>
    tx_calculate_hash sha256 t = Inr (rev (sha256 (last xs))) \<and>
    (t\<lparr>vhash := None\<rparr> = u\<lparr>vhash := None\<rparr> \<or> (\<exists>i<4. collision sha256 (xs ! i) (ys ! i)))"
  by (rule tx_hash_inject [OF assms])

theorem transaction_hash_binding_witness:
  "\<exists>xs ys. digested_strings sample_digest sample_tx = Inr xs \<and>
     digested_strings sample_digest (sample_tx\<lparr>vhash := Some [1]\<rparr>) = Inr ys \<and>
     tx_calculate_hash sample_digest sample_tx = Inr (rev (sample_digest (last xs))) \<and>
     (sample_tx\<lparr>vhash := None\<rparr> = (sample_tx\<lparr>vhash := Some [1]\<rparr>)\<lparr>vhash := None\<rparr> \<or>
      (\<exists>i<4. collision sample_digest (xs ! i) (ys ! i)))"
proof -
  have ok: "tx_ok (sample_tx\<lparr>vhash := Some [1]\<rparr>)"
    by (simp add: sample_tx_def tx_ok_def sample_ok_defs)
  have "update_hash sample_digest sample_tx = update_hash sample_digest (sample_tx\<lparr>vhash := Some [1]\<rparr>)"
    by simp
  then have "tx_calculate_hash sample_digest sample_tx =
      tx_calculate_hash sample_digest (sample_tx\<lparr>vhash := Some [1]\<rparr>)"
    by (cases "tx_calculate_hash sample_digest sample_tx";
        cases "tx_calculate_hash sample_digest (sample_tx\<lparr>vhash := Some [1]\<rparr>)")
      (auto simp: update_hash_def sample_tx_def)
  then show ?thesis
    by (rule transaction_hash_binding [OF sample_tx_ok ok length_sample_digest])
qed

text \<open>
  C14. Bytes missing at the end are not noticed: when the serialization of a transaction with a nano
  header loses up to all the bytes of the header's script, \<open>create_from_struct\<close> still accepts it and
  returns the transaction with the script cut to the bytes that were there. The declared script
  length is not compared with the bytes left.
\<close>

theorem truncated_script_accepted:
  assumes "tx_ok tx" and "headers tx = [h]" and "ENABLE_NANO_CONTRACTS stg" and "k \<le> length (nc_script h)"
    and "tx_get_struct tx = Inr bs"
  shows "create_from_struct stg sha256 now (take (length bs - k) bs) =
    update_hash sha256 (tx\<lparr>headers := [h\<lparr>nc_script := take (length (nc_script h) - k) (nc_script h)\<rparr>]\<rparr>)"
  by (rule tx_struct_cut [OF assms])

theorem truncated_script_accepted_witness:
  "\<exists>bs. tx_get_struct sample_tx = Inr bs \<and>
    create_from_struct nano_settings sample_digest 0 (take (length bs - 2) bs) =
    update_hash sample_digest (sample_tx\<lparr>headers := [sample_header\<lparr>nc_script := [1]\<rparr>]\<rparr>)"
proof -
  have h: "headers sample_tx = [sample_header]" and k: "2 \<le> length (nc_script sample_header)"
    and e: "ENABLE_NANO_CONTRACTS nano_settings"
    by (simp_all add: sample_tx_def sample_header_def nano_settings_def)
  obtain bs where bs: "tx_get_struct sample_tx = Inr bs"
    using tx_struct_round_trip [OF sample_tx_ok, of nano_settings] e by blast
  have "take (length (nc_script sample_header) - 2) (nc_script sample_header) = [1]"
    by (simp add: sample_header_def)
  then show ?thesis
    using truncated_script_accepted [OF sample_tx_ok h e k bs, of sample_digest 0] bs by auto
qed

end
