(* ===== verification/Crypto_Util.thy ===== *)
theory Crypto_Util
  imports Vertex
begin

text \<open>
  Addresses and key hashes (\<^verbatim>\<open>hathor/crypto/util.py\<close>). The primitives come from \<^verbatim>\<open>hashlib\<close> and from the
  third-party packages \<^verbatim>\<open>cryptography\<close> and \<^verbatim>\<open>base58\<close>; they are the fields of a record that every
  definition takes as an argument, so that the theorems hold for all of their implementations.
\<close>

record crypto =
  sha256 :: "bytes \<Rightarrow> bytes"
  ripemd160 :: "bytes \<Rightarrow> bytes"
  valid_point :: "bytes \<Rightarrow> bool"
  ecdsa_verify :: "bytes \<Rightarrow> bytes \<Rightarrow> bytes \<Rightarrow> bool"
  b58encode :: "bytes \<Rightarrow> pystr"
  b58decode :: "pystr \<Rightarrow> bytes option"

text \<open>
  \<open>valid_point\<close> tells whether \<^verbatim>\<open>get_public_key_from_bytes_compressed\<close> accepts the bytes (it raises
  \<^verbatim>\<open>ValueError\<close> otherwise); \<open>ecdsa_verify pubkey signature data\<close> whether \<^verbatim>\<open>public_key.verify\<close> returns
  rather than raising \<^verbatim>\<open>InvalidSignature\<close>.
\<close>

definition get_hash160 :: "crypto \<Rightarrow> bytes \<Rightarrow> bytes" where
  "get_hash160 c public_key_bytes = ripemd160 c (sha256 c public_key_bytes)"

definition get_checksum :: "crypto \<Rightarrow> bytes \<Rightarrow> bytes" where
  "get_checksum c address_bytes = take 4 (sha256 c (sha256 c address_bytes))"

definition get_address_from_public_key_hash ::
    "hathor_settings \<Rightarrow> crypto \<Rightarrow> bytes \<Rightarrow> bytes option \<Rightarrow> bytes" where
  "get_address_from_public_key_hash stg c public_key_hash version_byte =
     (let actual_version_byte = (case version_byte of None \<Rightarrow> P2PKH_VERSION_BYTE stg | Some b \<Rightarrow> b);
          address = actual_version_byte @ public_key_hash
      in address @ get_checksum c address)"

definition get_address_from_redeem_script_hash ::
    "hathor_settings \<Rightarrow> crypto \<Rightarrow> bytes \<Rightarrow> bytes option \<Rightarrow> bytes" where
  "get_address_from_redeem_script_hash stg c redeem_script_hash version_byte =
     (let actual_version_byte = (case version_byte of None \<Rightarrow> MULTISIG_VERSION_BYTE stg | Some b \<Rightarrow> b);
          address = actual_version_byte @ redeem_script_hash
      in address @ get_checksum c address)"

definition get_address_b58_from_bytes :: "crypto \<Rightarrow> bytes \<Rightarrow> pystr" where
  "get_address_b58_from_bytes c address = b58encode c address"

definition get_address_b58_from_public_key_hash :: "hathor_settings \<Rightarrow> crypto \<Rightarrow> bytes \<Rightarrow> pystr" where
  "get_address_b58_from_public_key_hash stg c public_key_hash =
     b58encode c (get_address_from_public_key_hash stg c public_key_hash None)"

definition get_address_from_public_key_bytes :: "hathor_settings \<Rightarrow> crypto \<Rightarrow> bytes \<Rightarrow> bytes" where
  "get_address_from_public_key_bytes stg c public_key_bytes =
     get_address_from_public_key_hash stg c (get_hash160 c public_key_bytes) None"

definition get_address_b58_from_public_key_bytes :: "hathor_settings \<Rightarrow> crypto \<Rightarrow> bytes \<Rightarrow> pystr" where
  "get_address_b58_from_public_key_bytes stg c public_key_bytes =
     get_address_b58_from_public_key_hash stg c (get_hash160 c public_key_bytes)"

definition get_address_b58_from_redeem_script_hash ::
    "hathor_settings \<Rightarrow> crypto \<Rightarrow> bytes \<Rightarrow> bytes option \<Rightarrow> pystr" where
  "get_address_b58_from_redeem_script_hash stg c redeem_script_hash version_byte =
     (let actual_version_byte = (case version_byte of None \<Rightarrow> MULTISIG_VERSION_BYTE stg | Some b \<Rightarrow> b)
      in b58encode c (get_address_from_redeem_script_hash stg c redeem_script_hash (Some actual_version_byte)))"

text \<open>\<open>xs[-4:]\<close> and \<open>xs[:-4]\<close> on a 25-byte address.\<close>

definition decode_address :: "crypto \<Rightarrow> pystr \<Rightarrow> bytes result" where
  "decode_address c address58 =
     (case b58decode c address58 of
        None \<Rightarrow> Inl InvalidAddress
      | Some decoded_address \<Rightarrow>
          if length decoded_address \<noteq> 25 then Inl InvalidAddress
          else if drop (length decoded_address - 4) decoded_address
                  \<noteq> get_checksum c (take (length decoded_address - 4) decoded_address)
          then Inl InvalidAddress
          else Inr decoded_address)"

definition is_pubkey_compressed :: "bytes \<Rightarrow> bool" where
  "is_pubkey_compressed pubkey =
     (case pubkey of [] \<Rightarrow> False | b # _ \<Rightarrow> b = 2 \<or> b = 3)"

text \<open>An address built from a 20-byte hash decodes, and decoding checks the checksum.\<close>

lemma length_get_checksum: "\<forall>x. length (sha256 c x) = 32 \<Longrightarrow> length (get_checksum c a) = 4"
  by (simp add: get_checksum_def)

lemma decode_built_address:
  assumes "\<forall>x. length (sha256 c x) = 32" and "length (ver @ h) = 21"
    and "b58decode c s = Some (ver @ h @ get_checksum c (ver @ h))"
  shows "decode_address c s = Inr (ver @ h @ get_checksum c (ver @ h))"
proof -
  let ?a = "ver @ h"
  have l: "length (get_checksum c ?a) = 4" using assms(1) by (rule length_get_checksum)
  have "length (?a @ get_checksum c ?a) = 25" and "drop 21 (?a @ get_checksum c ?a) = get_checksum c ?a"
    and "take 21 (?a @ get_checksum c ?a) = ?a"
    using l assms(2) by auto
  then show ?thesis
    using assms(3) by (simp add: decode_address_def)
qed

end
