(* ===== verification/Script_Ops.thy ===== *)
theory Script_Ops
  imports Crypto_Util
begin

text \<open>
  Opcodes and the reading of scripts (\<^verbatim>\<open>hathor/transaction/scripts/opcode.py\<close>: \<^verbatim>\<open>Opcode\<close>;
  \<^verbatim>\<open>execute.py\<close>: \<^verbatim>\<open>get_script_op\<close>, \<^verbatim>\<open>decode_opn\<close>, \<^verbatim>\<open>get_data_value\<close>, \<^verbatim>\<open>binary_to_int\<close>,
  \<^verbatim>\<open>get_data_bytes\<close>, \<^verbatim>\<open>get_data_single_byte\<close>). The stack is a list with its top at the head; the
  model keeps the two types that are ever pushed. Log messages are not modelled.
\<close>

datatype stack_item = SBytes bytes | SInt int

type_synonym stack = "stack_item list"

section \<open>Opcodes\<close>

datatype opcode =
    OP_N nat
  | OP_DUP
  | OP_EQUAL
  | OP_EQUALVERIFY
  | OP_CHECKSIG
  | OP_HASH160
  | OP_PUSHDATA1
  | OP_GREATERTHAN_TIMESTAMP
  | OP_CHECKMULTISIG
  | OP_CHECKDATASIG
  | OP_DATA_STREQUAL
  | OP_DATA_GREATERTHAN
  | OP_FIND_P2PKH
  | OP_DATA_MATCH_VALUE

text \<open>The members \<^verbatim>\<open>OP_0\<close> to \<^verbatim>\<open>OP_16\<close> are \<open>OP_N 0\<close> to \<open>OP_N 16\<close>.\<close>

fun opcode_value :: "opcode \<Rightarrow> int" where
  "opcode_value (OP_N n) = 0x50 + int n"
| "opcode_value OP_DUP = 0x76"
| "opcode_value OP_EQUAL = 0x87"
| "opcode_value OP_EQUALVERIFY = 0x88"
| "opcode_value OP_CHECKSIG = 0xAC"
| "opcode_value OP_HASH160 = 0xA9"
| "opcode_value OP_PUSHDATA1 = 0x4C"
| "opcode_value OP_GREATERTHAN_TIMESTAMP = 0x6F"
| "opcode_value OP_CHECKMULTISIG = 0xAE"
| "opcode_value OP_CHECKDATASIG = 0xBA"
| "opcode_value OP_DATA_STREQUAL = 0xC0"
| "opcode_value OP_DATA_GREATERTHAN = 0xC1"
| "opcode_value OP_FIND_P2PKH = 0xD0"
| "opcode_value OP_DATA_MATCH_VALUE = 0xD1"

text \<open>\<^verbatim>\<open>Opcode(value)\<close>, \<^verbatim>\<open>ValueError\<close> when no member has the value.\<close>

definition Opcode :: "int \<Rightarrow> opcode result" where
  "Opcode v =
     (if 0x50 \<le> v \<and> v \<le> 0x60 then Inr (OP_N (nat (v - 0x50)))
      else case filter (\<lambda>op. opcode_value op = v)
             [OP_DUP, OP_EQUAL, OP_EQUALVERIFY, OP_CHECKSIG, OP_HASH160, OP_PUSHDATA1,
              OP_GREATERTHAN_TIMESTAMP, OP_CHECKMULTISIG, OP_CHECKDATASIG, OP_DATA_STREQUAL,
              OP_DATA_GREATERTHAN, OP_FIND_P2PKH, OP_DATA_MATCH_VALUE] of
        [] \<Rightarrow> Inl ValueError
      | op # _ \<Rightarrow> Inr op)"

definition is_pushdata :: "int \<Rightarrow> bool" where
  "is_pushdata opcode =
     (if 1 \<le> opcode \<and> opcode \<le> 75 then True
      else if opcode_value (OP_N 0) \<le> opcode \<and> opcode \<le> opcode_value (OP_N 16) then True
      else opcode = opcode_value OP_PUSHDATA1)"

definition is_valid_opcode :: "int \<Rightarrow> bool" where
  "is_valid_opcode opcode =
     (if is_pushdata opcode then True else case Opcode opcode of Inl _ \<Rightarrow> False | Inr _ \<Rightarrow> True)"

section \<open>Reading data\<close>

definition get_data_single_byte :: "int \<Rightarrow> bytes \<Rightarrow> int result" where
  "get_data_single_byte position data =
     (if \<not> (0 \<le> position \<and> position < int (length data)) then Inl (ScriptError OutOfData)
      else Inr (uint (data ! nat position)))"

definition get_data_bytes :: "int \<Rightarrow> int \<Rightarrow> bytes \<Rightarrow> bytes result" where
  "get_data_bytes position len data =
     (if \<not> (0 < len \<and> len \<le> int (length data)) then Inl (ScriptError OutOfData)
      else if \<not> (0 < position \<and> position < int (length data)) then Inl (ScriptError OutOfData)
      else if position + len > int (length data) then Inl (ScriptError OutOfData)
      else Inr (take (nat len) (drop (nat position) data)))"

definition decode_opn :: "int \<Rightarrow> int result" where
  "decode_opn opcode =
     (let int_val = opcode - opcode_value (OP_N 0)
      in if \<not> (0 \<le> int_val \<and> int_val \<le> 16) then Inl (TxValidationError InvalidScriptError)
         else Inr int_val)"

text \<open>
  The result is the opcode, the next position and the stack after the push. A caller that passes no
  stack ignores it.
\<close>

definition get_script_op :: "int \<Rightarrow> bytes \<Rightarrow> stack \<Rightarrow> (int \<times> int \<times> stack) result" where
  "get_script_op pos data stack =
     bindE (get_data_single_byte pos data) (\<lambda>opcode.
     if \<not> is_valid_opcode opcode then Inl (TxValidationError InvalidScriptError)
     else if 1 \<le> opcode \<and> opcode \<le> 75 then
       bindE (get_data_bytes (pos + 1) opcode data) (\<lambda>to_append.
       Inr (opcode, pos + 1 + opcode, SBytes to_append # stack))
     else if opcode = opcode_value OP_PUSHDATA1 then
       bindE (get_data_single_byte (pos + 1) data) (\<lambda>len.
       bindE (get_data_bytes (pos + 2) len data) (\<lambda>to_append.
       Inr (opcode, pos + 2 + len, SBytes to_append # stack)))
     else if opcode_value (OP_N 0) \<le> opcode \<and> opcode \<le> opcode_value (OP_N 16) then
       bindE (decode_opn opcode) (\<lambda>to_append.
       Inr (opcode, pos + 1, SInt to_append # stack))
     else Inr (opcode, pos + 1, stack))"

text \<open>\<^verbatim>\<open>get_data_value\<close>: the loop over the values, each preceded by its length.\<close>

function get_data_value_loop :: "int \<Rightarrow> bytes \<Rightarrow> int \<Rightarrow> nat \<Rightarrow> bytes result" where
  "get_data_value_loop k data iteration position =
     (if position < length data then
        (let len = unat (data ! position); position = position + 1 in
         if position + len > length data then Inl (ScriptError OutOfData)
         else if iteration = k then Inr (take len (drop position data))
         else get_data_value_loop k data (iteration + 1) (position + len))
      else Inl (ScriptError DataIndexError))"
  by pat_completeness auto

termination
  by (relation "measure (\<lambda>(k, data, iteration, position). length data - position)") auto

declare get_data_value_loop.simps [simp del]

definition get_data_value :: "int \<Rightarrow> bytes \<Rightarrow> bytes result" where
  "get_data_value k data = get_data_value_loop k data 0 0"

definition binary_to_int :: "bytes \<Rightarrow> int result" where
  "binary_to_int binary =
     (if length binary = 1 then struct_unpack 1 False binary
      else if length binary = 2 then struct_unpack 2 False binary
      else if length binary = 4 then struct_unpack 4 False binary
      else if length binary = 8 then struct_unpack 8 False binary
      else Inl StructError)"

end
