(* ===== verification/Script_Templates.thy ===== *)
theory Script_Templates
  imports Script_Ops
begin

text \<open>
  Building and recognising standard scripts (\<^verbatim>\<open>hathor/transaction/scripts\<close>: \<^verbatim>\<open>hathor_script.py\<close>,
  \<^verbatim>\<open>construct.py\<close>, \<^verbatim>\<open>p2pkh.py\<close>, \<^verbatim>\<open>multi_sig.py\<close>) and counting signature operations. The regular
  expressions \<^verbatim>\<open>re_match\<close> are modelled by functions that return the captured groups. Each is
  anchored at both ends and its optional parts start with bytes that the alternatives do not start
  with, so a match is unique; \<^verbatim>\<open>$\<close> also matches before a final newline byte, as in Python.
\<close>

section \<open>\<^verbatim>\<open>HathorScript\<close>\<close>

definition addOpcode :: "bytes \<Rightarrow> opcode \<Rightarrow> bytes" where
  "addOpcode s op = s @ [word_of_int (opcode_value op)]"

definition pushData_bytes :: "bytes \<Rightarrow> bytes \<Rightarrow> bytes result" where
  "pushData_bytes s data =
     (if length data \<le> 75 then Inr (s @ [of_nat (length data)] @ data)
      else if length data > 255 then Inl ValueError
      else Inr (s @ [word_of_int (opcode_value OP_PUSHDATA1)] @ [of_nat (length data)] @ data))"

definition pushData_int :: "bytes \<Rightarrow> int \<Rightarrow> bytes result" where
  "pushData_int s data =
     bindE (if data > 4294967295 then struct_pack 8 False data
            else if data > 65535 then struct_pack 4 False data
            else if data > 255 then struct_pack 2 False data
            else struct_pack 1 False data) (\<lambda>n. pushData_bytes s n)"

section \<open>Matching\<close>

text \<open>\<^verbatim>\<open>_re_pushdata\<close>: a length byte and that many bytes, after an optional \<^verbatim>\<open>OP_PUSHDATA1\<close>.\<close>

definition re_pushdata :: "nat \<Rightarrow> bytes \<Rightarrow> (bytes \<times> bytes) option" where
  "re_pushdata len bs =
     (case bs of
        [] \<Rightarrow> None
      | b # rest \<Rightarrow>
          if b = of_nat len then
            (if length rest < len then None else Some (take (1 + len) bs, drop (1 + len) bs))
          else if b = word_of_int (opcode_value OP_PUSHDATA1) \<and> rest \<noteq> [] \<and> hd rest = of_nat len then
            (if length rest < 1 + len then None else Some (take (2 + len) bs, drop (2 + len) bs))
          else None)"

definition re_op :: "opcode \<Rightarrow> bytes \<Rightarrow> bytes option" where
  "re_op op bs =
     (case bs of [] \<Rightarrow> None | b # rest \<Rightarrow> if b = word_of_int (opcode_value op) then Some rest else None)"

definition re_end :: "bytes \<Rightarrow> bool" where
  "re_end bs = (bs = [] \<or> bs = [0x0a])"

text \<open>The prefix \<^verbatim>\<open>(?:(DATA_4) OP_GREATERTHAN_TIMESTAMP)?\<close>: the group and the rest.\<close>

definition re_timelock :: "bytes \<Rightarrow> bytes option \<times> bytes" where
  "re_timelock bs =
     (case re_pushdata 4 bs of
        None \<Rightarrow> (None, bs)
      | Some (g, rest) \<Rightarrow>
          (case re_op OP_GREATERTHAN_TIMESTAMP rest of
             None \<Rightarrow> (None, bs)
           | Some rest' \<Rightarrow> (Some g, rest')))"

definition P2PKH_re_match :: "bytes \<Rightarrow> (bytes option \<times> bytes) option" where
  "P2PKH_re_match script =
     (let (g0, bs) = re_timelock script in
      case re_op OP_DUP bs of None \<Rightarrow> None | Some bs \<Rightarrow>
      (case re_op OP_HASH160 bs of None \<Rightarrow> None | Some bs \<Rightarrow>
      (case re_pushdata 20 bs of None \<Rightarrow> None | Some (g1, bs) \<Rightarrow>
      (case re_op OP_EQUALVERIFY bs of None \<Rightarrow> None | Some bs \<Rightarrow>
      (case re_op OP_CHECKSIG bs of None \<Rightarrow> None | Some bs \<Rightarrow>
       if re_end bs then Some (g0, g1) else None)))))"

definition MultiSig_re_match :: "bytes \<Rightarrow> (bytes option \<times> bytes) option" where
  "MultiSig_re_match script =
     (let (g0, bs) = re_timelock script in
      case re_op OP_HASH160 bs of None \<Rightarrow> None | Some bs \<Rightarrow>
      (case re_pushdata 20 bs of None \<Rightarrow> None | Some (g1, bs) \<Rightarrow>
      (case re_op OP_EQUAL bs of None \<Rightarrow> None | Some bs \<Rightarrow>
       if re_end bs then Some (g0, g1) else None)))"

definition get_pushdata :: "bytes \<Rightarrow> bytes result" where
  "get_pushdata data =
     bindE (py_nth data 0) (\<lambda>b.
     if uint b > 75 then bindE (py_nth data 1) (\<lambda>len. Inr (take (unat len) (drop 2 data)))
     else Inr (take (unat b) (drop 1 data)))"

section \<open>\<^verbatim>\<open>P2PKH\<close>\<close>

record base_script =
  bs_address :: pystr
  bs_timelock :: "int option"

definition P2PKH_create_output_script :: "bytes \<Rightarrow> int option \<Rightarrow> bytes result" where
  "P2PKH_create_output_script address timelock =
     bindE (guardE (length address = 25) AssertionError) (\<lambda>_.
     let public_key_hash = drop 1 (take (length address - 4) address) in
     bindE (case timelock of
              None \<Rightarrow> Inr []
            | Some t \<Rightarrow> if t = 0 then Inr []
                else bindE (pushData_int [] t) (\<lambda>s. Inr (addOpcode s OP_GREATERTHAN_TIMESTAMP))) (\<lambda>s.
     bindE (pushData_bytes (addOpcode (addOpcode s OP_DUP) OP_HASH160) public_key_hash) (\<lambda>s.
     Inr (addOpcode (addOpcode s OP_EQUALVERIFY) OP_CHECKSIG))))"

definition P2PKH_create_input_data :: "bytes \<Rightarrow> bytes \<Rightarrow> bytes result" where
  "P2PKH_create_input_data public_key_bytes signature =
     bindE (pushData_bytes [] signature) (\<lambda>s. pushData_bytes s public_key_bytes)"

definition parse_timelock :: "bytes option \<Rightarrow> int option result" where
  "parse_timelock g =
     (case g of
        None \<Rightarrow> Inr None
      | Some pushdata_timelock \<Rightarrow>
          bindE (struct_unpack 4 False (drop 1 pushdata_timelock)) (\<lambda>t. Inr (Some t)))"

definition P2PKH_parse_script :: "hathor_settings \<Rightarrow> crypto \<Rightarrow> bytes \<Rightarrow> base_script option result" where
  "P2PKH_parse_script stg c script =
     (case P2PKH_re_match script of
        None \<Rightarrow> Inr None
      | Some (g0, g1) \<Rightarrow>
          bindE (parse_timelock g0) (\<lambda>timelock.
          bindE (get_pushdata g1) (\<lambda>public_key_hash.
          Inr (Some \<lparr>bs_address = get_address_b58_from_public_key_hash stg c public_key_hash,
                     bs_timelock = timelock\<rparr>))))"

section \<open>\<^verbatim>\<open>MultiSig\<close>\<close>

lemma get_script_op_pos:
  assumes "get_script_op pos data st = Inr (opcode, pos', st')"
  shows "pos < pos'" and "0 \<le> pos" and "pos < int (length data)" and "pos' \<le> int (length data)"
    and "opcode = uint (data ! nat pos)"
  using assms
  by (auto simp: get_script_op_def get_data_single_byte_def get_data_bytes_def result_simps split: if_splits)

text \<open>\<^verbatim>\<open>get_multisig_redeem_script_pos\<close>: the loop with \<open>pos\<close> and \<open>last_pos\<close>.\<close>

function redeem_script_pos_loop :: "bytes \<Rightarrow> int \<Rightarrow> int \<Rightarrow> int result" where
  "redeem_script_pos_loop input_data pos last_pos =
     (if pos < int (length input_data) then
        bindE (get_script_op pos input_data []) (\<lambda>p.
          redeem_script_pos_loop input_data (fst (snd p)) pos)
      else Inr last_pos)"
  by pat_completeness auto

termination
  by (relation "measure (\<lambda>(input_data, pos, last_pos). nat (int (length input_data) - pos))")
    (auto dest: get_script_op_pos(1))

declare redeem_script_pos_loop.simps [simp del]

definition get_multisig_redeem_script_pos :: "bytes \<Rightarrow> int result" where
  "get_multisig_redeem_script_pos input_data = redeem_script_pos_loop input_data 0 0"

definition MultiSig_create_output_script :: "bytes \<Rightarrow> int option \<Rightarrow> bytes result" where
  "MultiSig_create_output_script address timelock =
     bindE (guardE (length address = 25) AssertionError) (\<lambda>_.
     let redeem_script_hash = drop 1 (take (length address - 4) address) in
     bindE (case timelock of
              None \<Rightarrow> Inr []
            | Some t \<Rightarrow> if t = 0 then Inr []
                else bindE (pushData_int [] t) (\<lambda>s. Inr (addOpcode s OP_GREATERTHAN_TIMESTAMP))) (\<lambda>s.
     bindE (pushData_bytes (addOpcode s OP_HASH160) redeem_script_hash) (\<lambda>s.
     Inr (addOpcode s OP_EQUAL))))"

fun push_all :: "bytes \<Rightarrow> bytes list \<Rightarrow> bytes result" where
  "push_all s [] = Inr s"
| "push_all s (x # xs) = bindE (pushData_bytes s x) (\<lambda>s. push_all s xs)"

definition MultiSig_create_input_data :: "bytes \<Rightarrow> bytes list \<Rightarrow> bytes result" where
  "MultiSig_create_input_data redeem_script signatures =
     bindE (push_all [] signatures) (\<lambda>s. pushData_bytes s redeem_script)"

definition MultiSig_parse_script :: "hathor_settings \<Rightarrow> crypto \<Rightarrow> bytes \<Rightarrow> base_script option result" where
  "MultiSig_parse_script stg c script =
     (case MultiSig_re_match script of
        None \<Rightarrow> Inr None
      | Some (g0, g1) \<Rightarrow>
          bindE (parse_timelock g0) (\<lambda>timelock.
          bindE (get_pushdata g1) (\<lambda>redeem_script_hash.
          Inr (Some \<lparr>bs_address = get_address_b58_from_redeem_script_hash stg c redeem_script_hash None,
                     bs_timelock = timelock\<rparr>))))"

definition op_pushdata :: "int \<Rightarrow> bytes \<Rightarrow> stack \<Rightarrow> (int \<times> stack) result" where
  "op_pushdata position full_data stack =
     bindE (get_script_op position full_data stack) (\<lambda>(len, new_pos, stack).
     bindE (guardE (len \<le> 75) AssertionError) (\<lambda>_. Inr (new_pos, stack)))"

definition op_pushdata1 :: "int \<Rightarrow> bytes \<Rightarrow> stack \<Rightarrow> (int \<times> stack) result" where
  "op_pushdata1 position full_data stack =
     bindE (get_script_op position full_data stack) (\<lambda>(opcode, new_pos, stack).
     bindE (guardE (opcode = opcode_value OP_PUSHDATA1) AssertionError) (\<lambda>_. Inr (new_pos, stack)))"

text \<open>\<^verbatim>\<open>get_multisig_data\<close>: the loop with \<open>pos\<close>, \<open>last_pos\<close> and \<open>stack\<close>.\<close>

function multisig_data_loop :: "bytes \<Rightarrow> int \<Rightarrow> int \<Rightarrow> stack \<Rightarrow> (int \<times> stack) result" where
  "multisig_data_loop input_data pos last_pos stack =
     (if 0 \<le> pos \<and> pos < int (length input_data) then
        (let opcode = uint (input_data ! nat pos) in
         if 1 \<le> opcode \<and> opcode \<le> 75 then
           bindE (op_pushdata pos input_data stack) (\<lambda>p.
             multisig_data_loop input_data (fst p) pos (snd p))
         else if opcode = opcode_value OP_PUSHDATA1 then
           bindE (op_pushdata1 pos input_data stack) (\<lambda>p.
             multisig_data_loop input_data (fst p) pos (snd p))
         else multisig_data_loop input_data (pos + 1) pos stack)
      else Inr (last_pos, stack))"
  by pat_completeness auto

termination
  by (relation "measure (\<lambda>(input_data, pos, last_pos, stack). nat (int (length input_data) - pos))")
    (auto simp: op_pushdata_def op_pushdata1_def result_simps dest: get_script_op_pos(1) split: if_splits)

declare multisig_data_loop.simps [simp del]

definition get_multisig_data :: "bytes \<Rightarrow> bytes result" where
  "get_multisig_data input_data =
     bindE (multisig_data_loop input_data 0 0 []) (\<lambda>(last_pos, stack).
       case stack of
         [] \<Rightarrow> Inl IndexError
       | SInt _ # _ \<Rightarrow> Inl AssertionError
       | SBytes redeem_script # _ \<Rightarrow> Inr (take (nat last_pos) input_data @ redeem_script))"

section \<open>\<^verbatim>\<open>construct.py\<close>\<close>

datatype script_object = P2PKH base_script | MultiSig base_script

definition create_base_script :: "hathor_settings \<Rightarrow> crypto \<Rightarrow> pystr \<Rightarrow> int option \<Rightarrow> script_object result" where
  "create_base_script stg c address timelock =
     bindE (decode_address c address) (\<lambda>baddress.
     bindE (py_nth baddress 0) (\<lambda>b.
     bindE (binary_to_int (P2PKH_VERSION_BYTE stg)) (\<lambda>p2pkh_version.
     if uint b = p2pkh_version then Inr (P2PKH \<lparr>bs_address = address, bs_timelock = timelock\<rparr>)
     else bindE (binary_to_int (MULTISIG_VERSION_BYTE stg)) (\<lambda>multisig_version.
     if uint b = multisig_version then Inr (MultiSig \<lparr>bs_address = address, bs_timelock = timelock\<rparr>)
     else Inl (ScriptError ScriptErrorBase)))))"

definition create_output_script :: "hathor_settings \<Rightarrow> bytes \<Rightarrow> int option \<Rightarrow> bytes result" where
  "create_output_script stg address timelock =
     bindE (py_nth address 0) (\<lambda>b.
     bindE (binary_to_int (P2PKH_VERSION_BYTE stg)) (\<lambda>p2pkh_version.
     if uint b = p2pkh_version then P2PKH_create_output_script address timelock
     else bindE (binary_to_int (MULTISIG_VERSION_BYTE stg)) (\<lambda>multisig_version.
     if uint b = multisig_version then MultiSig_create_output_script address timelock
     else Inl (ScriptError ScriptErrorBase))))"

definition parse_address_script :: "hathor_settings \<Rightarrow> crypto \<Rightarrow> bytes \<Rightarrow> script_object option result" where
  "parse_address_script stg c script =
     (if P2PKH_re_match script \<noteq> None then
        bindE (P2PKH_parse_script stg c script) (\<lambda>r. Inr (map_option P2PKH r))
      else if MultiSig_re_match script \<noteq> None then
        bindE (MultiSig_parse_script stg c script) (\<lambda>r. Inr (map_option MultiSig r))
      else Inr None)"

definition get_script :: "crypto \<Rightarrow> script_object \<Rightarrow> bytes result" where
  "get_script c obj =
     (case obj of
        P2PKH s \<Rightarrow> bindE (decode_address c (bs_address s)) (\<lambda>a. P2PKH_create_output_script a (bs_timelock s))
      | MultiSig s \<Rightarrow> bindE (decode_address c (bs_address s)) (\<lambda>a. MultiSig_create_output_script a (bs_timelock s)))"

text \<open>\<^verbatim>\<open>count_sigops\<close>: the loop with \<open>n_ops\<close>, \<open>pos\<close> and \<open>last_opcode\<close>.\<close>

definition count_sigop :: "hathor_settings \<Rightarrow> int \<Rightarrow> int option \<Rightarrow> int result" where
  "count_sigop stg opcode last_opcode =
     (if opcode = opcode_value OP_CHECKSIG then Inr 1
      else if opcode = opcode_value OP_CHECKMULTISIG then
        (case last_opcode of
           None \<Rightarrow> Inl AssertionError
         | Some lo \<Rightarrow>
             if opcode_value (OP_N 0) \<le> lo \<and> lo \<le> opcode_value (OP_N 16) then decode_opn lo
             else Inr (MAX_MULTISIG_PUBKEYS stg))
      else Inr 0)"

function count_sigops_loop ::
    "hathor_settings \<Rightarrow> bytes \<Rightarrow> int \<Rightarrow> int \<Rightarrow> int option \<Rightarrow> int result" where
  "count_sigops_loop stg data n_ops pos last_opcode =
     (if pos < int (length data) then
        bindE (get_script_op pos data []) (\<lambda>p.
        bindE (count_sigop stg (fst p) last_opcode) (\<lambda>n.
          count_sigops_loop stg data (n_ops + n) (fst (snd p)) (Some (fst p))))
      else Inr n_ops)"
  by pat_completeness auto

termination
  by (relation "measure (\<lambda>(stg, data, n_ops, pos, last_opcode). nat (int (length data) - pos))")
    (auto dest: get_script_op_pos(1))

declare count_sigops_loop.simps [simp del]

definition count_sigops :: "hathor_settings \<Rightarrow> bytes \<Rightarrow> int result" where
  "count_sigops stg data = count_sigops_loop stg data 0 0 None"

definition get_sigops_count :: "hathor_settings \<Rightarrow> bytes \<Rightarrow> bytes option \<Rightarrow> int result" where
  "get_sigops_count stg data output_script =
     (case output_script of
        Some script \<Rightarrow>
          if MultiSig_re_match script \<noteq> None then
            bindE (get_multisig_data data) (\<lambda>multisig_data. count_sigops stg multisig_data)
          else count_sigops stg data
      | None \<Rightarrow> count_sigops stg data)"

section \<open>Multi-signature wallets (\<^verbatim>\<open>hathor/wallet/util.py\<close>)\<close>

text \<open>\<^verbatim>\<open>getattr(Opcode, 'OP_n')\<close>.\<close>

definition getattr_OP :: "int \<Rightarrow> opcode result" where
  "getattr_OP n = (if 0 \<le> n \<and> n \<le> 16 then Inr (OP_N (nat n)) else Inl AttributeError)"

definition generate_multisig_redeem_script :: "hathor_settings \<Rightarrow> int \<Rightarrow> bytes list \<Rightarrow> bytes result" where
  "generate_multisig_redeem_script stg signatures_required public_key_bytes =
     (if signatures_required > MAX_MULTISIG_SIGNATURES stg then Inl ValueError
      else if int (length public_key_bytes) > MAX_MULTISIG_PUBKEYS stg then Inl ValueError
      else
        bindE (getattr_OP signatures_required) (\<lambda>op_m.
        bindE (push_all (addOpcode [] op_m) public_key_bytes) (\<lambda>s.
        bindE (getattr_OP (int (length public_key_bytes))) (\<lambda>op_n.
        Inr (addOpcode (addOpcode s op_n) OP_CHECKMULTISIG)))))"

definition generate_multisig_address :: "hathor_settings \<Rightarrow> crypto \<Rightarrow> bytes \<Rightarrow> bytes option \<Rightarrow> pystr" where
  "generate_multisig_address stg c redeem_script version_byte =
     (let actual_version_byte = (case version_byte of None \<Rightarrow> MULTISIG_VERSION_BYTE stg | Some b \<Rightarrow> b);
          address = actual_version_byte @ get_hash160 c redeem_script;
          checksum = take 4 (sha256 c (sha256 c address))
      in b58encode c (address @ checksum))"

end
