(* ===== verification/Script_VM.thy ===== *)
theory Script_VM
  imports Script_Templates
begin

text \<open>
  The script machine (\<^verbatim>\<open>hathor/transaction/scripts\<close>: the operations of \<^verbatim>\<open>opcode.py\<close>, \<^verbatim>\<open>execute_eval\<close>,
  \<^verbatim>\<open>script_eval\<close> and \<^verbatim>\<open>raw_script_eval\<close> of \<^verbatim>\<open>execute.py\<close>). An operation takes the stack and returns the
  new stack or the exception it raises.
\<close>

text \<open>
  The \<^verbatim>\<open>tx\<close> of \<^verbatim>\<open>ScriptExtras\<close>, of which evaluation only takes \<^verbatim>\<open>get_sighash_all_data\<close>: a transaction, or a
  \<^verbatim>\<open>RawSignedData\<close> (\<^verbatim>\<open>nanocontracts/types.py\<close>), which passes itself there and answers with its
  serialized data. \<^verbatim>\<open>UtxoScriptExtras\<close> is the subclass for spending an output.
\<close>

datatype script_subject =
    SubjectTx any_tx
  | RawSignedData bytes

datatype script_extras =
    ScriptExtras script_subject
  | UtxoScriptExtras any_tx tx_input vertex

fun extras_sighash_all_data :: "crypto \<Rightarrow> script_extras \<Rightarrow> bytes result" where
  "extras_sighash_all_data c (ScriptExtras (SubjectTx tx)) = any_get_sighash_all_data (sha256 c) tx"
| "extras_sighash_all_data c (ScriptExtras (RawSignedData data)) = Inr data"
| "extras_sighash_all_data c (UtxoScriptExtras tx txin spent_tx) = any_get_sighash_all_data (sha256 c) tx"

text \<open>\<^verbatim>\<open>assert isinstance(x, bytes)\<close> and \<^verbatim>\<open>assert isinstance(x, int)\<close>.\<close>

fun as_bytes :: "stack_item \<Rightarrow> bytes result" where
  "as_bytes (SBytes b) = Inr b"
| "as_bytes (SInt _) = Inl AssertionError"

fun as_int :: "stack_item \<Rightarrow> int result" where
  "as_int (SInt i) = Inr i"
| "as_int (SBytes _) = Inl AssertionError"

section \<open>Operations\<close>

definition op_dup :: "stack \<Rightarrow> stack result" where
  "op_dup stack = (case stack of [] \<Rightarrow> Inl (ScriptError MissingStackItems) | x # xs \<Rightarrow> Inr (x # x # xs))"

definition op_greaterthan_timestamp :: "script_extras \<Rightarrow> stack \<Rightarrow> stack result" where
  "op_greaterthan_timestamp extras stack =
     (case stack of
        [] \<Rightarrow> Inl (ScriptError MissingStackItems)
      | buf # stack \<Rightarrow>
          bindE (as_bytes buf) (\<lambda>buf.
          bindE (struct_unpack 4 False buf) (\<lambda>timelock.
          case extras of
            ScriptExtras _ \<Rightarrow> Inl AssertionError
          | UtxoScriptExtras tx _ _ \<Rightarrow>
              if timestamp (as_transaction tx) \<le> timelock then Inl (ScriptError TimeLocked)
              else Inr stack)))"

definition op_equal :: "stack \<Rightarrow> stack result" where
  "op_equal stack =
     (case stack of
        elem1 # elem2 # stack \<Rightarrow>
          bindE (as_bytes elem1) (\<lambda>elem1.
          bindE (as_bytes elem2) (\<lambda>elem2.
          if elem1 = elem2 then Inr (SInt 1 # stack) else Inr (SInt 0 # stack)))
      | _ \<Rightarrow> Inl (ScriptError MissingStackItems))"

text \<open>\<^verbatim>\<open>if not x\<close>: an item is false when it is \<^verbatim>\<open>0\<close> or empty.\<close>

fun is_truthy :: "stack_item \<Rightarrow> bool" where
  "is_truthy (SInt i) = (i \<noteq> 0)"
| "is_truthy (SBytes b) = (b \<noteq> [])"

definition op_equalverify :: "stack \<Rightarrow> stack result" where
  "op_equalverify stack =
     (if length stack < 2 then Inl (ScriptError MissingStackItems)
      else bindE (op_equal stack) (\<lambda>stack.
        case stack of
          [] \<Rightarrow> Inl IndexError
        | is_equal # stack \<Rightarrow>
            if \<not> is_truthy is_equal then Inl (ScriptError EqualVerifyFailed) else Inr stack))"

definition op_checksig :: "crypto \<Rightarrow> script_extras \<Rightarrow> stack \<Rightarrow> stack result" where
  "op_checksig c extras stack =
     (case stack of
        pubkey # signature # stack \<Rightarrow>
          bindE (as_bytes pubkey) (\<lambda>pubkey.
          bindE (as_bytes signature) (\<lambda>signature.
          if \<not> is_pubkey_compressed pubkey then Inl (ScriptError ScriptErrorBase)
          else if \<not> valid_point c pubkey then Inl (ScriptError ScriptErrorBase)
          else bindE (extras_sighash_all_data c extras) (\<lambda>data.
            if ecdsa_verify c pubkey signature data then Inr (SInt 1 # stack) else Inr (SInt 0 # stack))))
      | _ \<Rightarrow> Inl (ScriptError MissingStackItems))"

definition op_hash160 :: "crypto \<Rightarrow> stack \<Rightarrow> stack result" where
  "op_hash160 c stack =
     (case stack of
        [] \<Rightarrow> Inl (ScriptError MissingStackItems)
      | elem1 # stack \<Rightarrow> bindE (as_bytes elem1) (\<lambda>elem1. Inr (SBytes (get_hash160 c elem1) # stack)))"

definition op_checkdatasig :: "crypto \<Rightarrow> stack \<Rightarrow> stack result" where
  "op_checkdatasig c stack =
     (case stack of
        pubkey # signature # data # stack \<Rightarrow>
          bindE (as_bytes pubkey) (\<lambda>pubkey.
          bindE (as_bytes signature) (\<lambda>signature.
          bindE (as_bytes data) (\<lambda>data.
          if \<not> is_pubkey_compressed pubkey then Inl (ScriptError ScriptErrorBase)
          else if \<not> valid_point c pubkey then Inl (ScriptError ScriptErrorBase)
          else if ecdsa_verify c pubkey signature data then Inr (SBytes data # stack)
          else Inl (ScriptError OracleChecksigFailed))))
      | _ \<Rightarrow> Inl (ScriptError MissingStackItems))"

text \<open>
  When the strings differ the message decodes both as UTF-8, which may itself raise
  \<^verbatim>\<open>UnicodeDecodeError\<close> before \<^verbatim>\<open>VerifyFailed\<close> is.
\<close>

definition op_data_strequal :: "stack \<Rightarrow> stack result" where
  "op_data_strequal stack =
     (case stack of
        val # data_k # data # stack \<Rightarrow>
          bindE (as_bytes val) (\<lambda>val.
          bindE (as_bytes data) (\<lambda>data.
          case data_k of
            SBytes _ \<Rightarrow> Inl (ScriptError VerifyFailed)
          | SInt k \<Rightarrow>
              bindE (get_data_value k data) (\<lambda>data_value.
              if data_value \<noteq> val then
                bindE (utf8_decode data_value) (\<lambda>_.
                bindE (utf8_decode val) (\<lambda>_. Inl (ScriptError VerifyFailed)))
              else Inr (SBytes data # stack))))
      | _ \<Rightarrow> Inl (ScriptError MissingStackItems))"

text \<open>\<^verbatim>\<open>except (ValueError, struct.error)\<close>: \<^verbatim>\<open>UnicodeDecodeError\<close> is a \<^verbatim>\<open>ValueError\<close>.\<close>

definition verify_failed_handler :: "exn \<Rightarrow> 'a result" where
  "verify_failed_handler e =
     (if e \<in> {ValueError, UnicodeDecodeError, UnicodeEncodeError} \<or> is_struct_error e
      then Inl (ScriptError VerifyFailed) else Inl e)"

definition op_data_greaterthan :: "stack \<Rightarrow> stack result" where
  "op_data_greaterthan stack =
     (case stack of
        val # data_k # data # stack \<Rightarrow>
          bindE (as_bytes val) (\<lambda>val.
          bindE (as_bytes data) (\<lambda>data.
          case data_k of
            SBytes _ \<Rightarrow> Inl (ScriptError VerifyFailed)
          | SInt k \<Rightarrow>
              bindE (get_data_value k data) (\<lambda>data_value.
              bindE (catchE (bindE (binary_to_int data_value) (\<lambda>data_int.
                             bindE (binary_to_int val) (\<lambda>value_int. Inr (data_int, value_int))))
                       verify_failed_handler) (\<lambda>(data_int, value_int).
              if data_int \<le> value_int then Inl (ScriptError VerifyFailed)
              else Inr (SBytes data # stack)))))
      | _ \<Rightarrow> Inl (ScriptError MissingStackItems))"

text \<open>
  The loop of \<^verbatim>\<open>op_data_match_value\<close> that pops \<open>n\<close> pairs into the dictionary \<open>items\<close>; a later pair
  with the same value replaces an earlier one.
\<close>

fun pop_items :: "nat \<Rightarrow> (int \<rightharpoonup> bytes) \<Rightarrow> stack \<Rightarrow> ((int \<rightharpoonup> bytes) \<times> stack) result" where
  "pop_items 0 items stack = Inr (items, stack)"
| "pop_items (Suc n) items (pubkey # buf # stack) =
     bindE (as_bytes pubkey) (\<lambda>pubkey.
     bindE (as_bytes buf) (\<lambda>buf.
     bindE (binary_to_int buf) (\<lambda>v. pop_items n (items(v \<mapsto> pubkey)) stack)))"
| "pop_items (Suc n) items _ = Inl IndexError"

definition op_data_match_value :: "stack \<Rightarrow> stack result" where
  "op_data_match_value stack =
     (case stack of
        [] \<Rightarrow> Inl (ScriptError MissingStackItems)
      | data_n_items # stack \<Rightarrow>
          bindE (as_bytes data_n_items) (\<lambda>data_n_items.
          bindE (py_nth data_n_items 0) (\<lambda>n_items.
          let will_use = 2 * unat n_items + 3 in
          if length stack < will_use then Inl (ScriptError MissingStackItems)
          else bindE (catchE (pop_items (unat n_items) (\<lambda>_. None) stack) verify_failed_handler) (\<lambda>(items, stack).
          case stack of
            last_pubkey # data_k # data # stack \<Rightarrow>
              bindE (as_int data_k) (\<lambda>k.
              bindE (as_bytes data) (\<lambda>data.
              bindE (get_data_value k data) (\<lambda>data_value.
              bindE (binary_to_int data_value) (\<lambda>data_int.
              case items data_int of
                Some winner_pubkey \<Rightarrow> Inr (SBytes winner_pubkey # stack)
              | None \<Rightarrow> bindE (as_bytes last_pubkey) (\<lambda>pk. Inr (SBytes pk # stack))))))
          | _ \<Rightarrow> Inl IndexError))))"

text \<open>The search through the outputs in \<^verbatim>\<open>op_find_p2pkh\<close>.\<close>

fun find_p2pkh :: "hathor_settings \<Rightarrow> crypto \<Rightarrow> pystr \<Rightarrow> int \<Rightarrow> tx_output list \<Rightarrow> bool result" where
  "find_p2pkh stg c address_b58 contract_value [] = Inr False"
| "find_p2pkh stg c address_b58 contract_value (out # outs) =
     bindE (P2PKH_parse_script stg c (out_script out)) (\<lambda>p2pkh_out.
     case p2pkh_out of
       None \<Rightarrow> find_p2pkh stg c address_b58 contract_value outs
     | Some s \<Rightarrow>
         if bs_address s = address_b58 \<and> out_value out = contract_value then Inr True
         else find_p2pkh stg c address_b58 contract_value outs)"

text \<open>\<^verbatim>\<open>b58encode\<close> of an integer raises \<^verbatim>\<open>TypeError\<close>.\<close>

definition op_find_p2pkh :: "hathor_settings \<Rightarrow> crypto \<Rightarrow> script_extras \<Rightarrow> stack \<Rightarrow> stack result" where
  "op_find_p2pkh stg c extras stack =
     (case stack of
        [] \<Rightarrow> Inl (ScriptError MissingStackItems)
      | address # stack \<Rightarrow>
          (case extras of
             ScriptExtras _ \<Rightarrow> Inl AssertionError
           | UtxoScriptExtras tx txin spent_tx \<Rightarrow>
               bindE (py_nth (v_outputs spent_tx) (in_index txin)) (\<lambda>spent_output.
               case address of
                 SInt _ \<Rightarrow> Inl TypeError
               | SBytes address \<Rightarrow>
                   bindE (find_p2pkh stg c (get_address_b58_from_bytes c address) (out_value spent_output)
                            (outputs (as_transaction tx))) (\<lambda>found.
                   if found then Inr (SInt 1 # stack) else Inl (ScriptError VerifyFailed)))))"

text \<open>
  The two loops of \<^verbatim>\<open>op_checkmultisig\<close>: each signature is tried against the public keys from
  \<open>pubkey_index\<close> on, which is the list of keys left. \<open>try_keys\<close> is the inner \<^verbatim>\<open>while ... else\<close>, with the
  keys left after a match, or \<open>None\<close> when they run out.
\<close>

fun try_keys :: "crypto \<Rightarrow> script_extras \<Rightarrow> stack_item \<Rightarrow> stack \<Rightarrow> stack option result" where
  "try_keys c extras signature [] = Inr None"
| "try_keys c extras signature (pubkey # pubkeys) =
     bindE (op_checksig c extras [pubkey, signature]) (\<lambda>new_stack.
     if new_stack = [SInt 1] then Inr (Some pubkeys) else try_keys c extras signature pubkeys)"

fun try_signatures :: "crypto \<Rightarrow> script_extras \<Rightarrow> stack \<Rightarrow> stack \<Rightarrow> bool result" where
  "try_signatures c extras [] pubkeys = Inr True"
| "try_signatures c extras (signature # signatures) pubkeys =
     bindE (try_keys c extras signature pubkeys) (\<lambda>r.
     case r of None \<Rightarrow> Inr False | Some pubkeys \<Rightarrow> try_signatures c extras signatures pubkeys)"

definition op_checkmultisig ::
    "hathor_settings \<Rightarrow> crypto \<Rightarrow> script_extras \<Rightarrow> stack \<Rightarrow> stack result" where
  "op_checkmultisig stg c extras stack =
     (case stack of
        [] \<Rightarrow> Inl (ScriptError MissingStackItems)
      | SBytes _ # _ \<Rightarrow> Inl (ScriptError InvalidStackData)
      | SInt pubkey_count # stack \<Rightarrow>
          if pubkey_count > MAX_MULTISIG_PUBKEYS stg then Inl (ScriptError InvalidStackData)
          else if int (length stack) < pubkey_count then Inl (ScriptError MissingStackItems)
          else
            (let pubkeys = take (nat pubkey_count) stack in
             case drop (nat pubkey_count) stack of
               [] \<Rightarrow> Inl (ScriptError MissingStackItems)
             | SBytes _ # _ \<Rightarrow> Inl (ScriptError InvalidStackData)
             | SInt signatures_count # stack \<Rightarrow>
                 if signatures_count > MAX_MULTISIG_SIGNATURES stg then Inl (ScriptError InvalidStackData)
                 else if int (length stack) < signatures_count then Inl (ScriptError MissingStackItems)
                 else
                   (let signatures = take (nat signatures_count) stack;
                        stack = drop (nat signatures_count) stack in
                    bindE (try_signatures c extras signatures pubkeys) (\<lambda>all_valid.
                    Inr (SInt (if all_valid then 1 else 0) # stack)))))"

definition op_integer :: "int \<Rightarrow> stack \<Rightarrow> stack result" where
  "op_integer opcode stack =
     bindE (catchE (decode_opn opcode)
              (\<lambda>e. if e = TxValidationError InvalidScriptError then Inl (ScriptError ScriptErrorBase) else Inl e))
       (\<lambda>i. Inr (SInt i # stack))"

definition execute_op_code ::
    "hathor_settings \<Rightarrow> crypto \<Rightarrow> script_extras \<Rightarrow> opcode \<Rightarrow> stack \<Rightarrow> stack result" where
  "execute_op_code stg c extras opcode stack =
     (case opcode of
        OP_DUP \<Rightarrow> op_dup stack
      | OP_EQUAL \<Rightarrow> op_equal stack
      | OP_EQUALVERIFY \<Rightarrow> op_equalverify stack
      | OP_CHECKSIG \<Rightarrow> op_checksig c extras stack
      | OP_HASH160 \<Rightarrow> op_hash160 c stack
      | OP_GREATERTHAN_TIMESTAMP \<Rightarrow> op_greaterthan_timestamp extras stack
      | OP_CHECKMULTISIG \<Rightarrow> op_checkmultisig stg c extras stack
      | OP_DATA_STREQUAL \<Rightarrow> op_data_strequal stack
      | OP_DATA_GREATERTHAN \<Rightarrow> op_data_greaterthan stack
      | OP_DATA_MATCH_VALUE \<Rightarrow> op_data_match_value stack
      | OP_CHECKDATASIG \<Rightarrow> op_checkdatasig c stack
      | OP_FIND_P2PKH \<Rightarrow> op_find_p2pkh stg c extras stack
      | _ \<Rightarrow> Inl (ScriptError ScriptErrorBase))"

section \<open>Execution\<close>

text \<open>The \<^verbatim>\<open>while\<close> loop of \<^verbatim>\<open>execute_eval\<close>; the result is the final stack.\<close>

function execute_loop ::
    "hathor_settings \<Rightarrow> crypto \<Rightarrow> script_extras \<Rightarrow> bytes \<Rightarrow> int \<Rightarrow> stack \<Rightarrow> stack result" where
  "execute_loop stg c extras data pos stack =
     (if pos < int (length data) then
        bindE (get_script_op pos data stack) (\<lambda>p.
          if is_pushdata (fst p) then execute_loop stg c extras data (fst (snd p)) (snd (snd p))
          else
            bindE (Opcode (fst p)) (\<lambda>op.
            bindE (execute_op_code stg c extras op (snd (snd p))) (\<lambda>stack'.
              execute_loop stg c extras data (fst (snd p)) stack')))
      else Inr stack)"
  by pat_completeness auto

termination
  by (relation "measure (\<lambda>(stg, c, extras, data, pos, stack). nat (int (length data) - pos))")
    (auto dest: get_script_op_pos(1))

declare execute_loop.simps [simp del]

definition evaluate_final_stack :: "stack \<Rightarrow> unit result" where
  "evaluate_final_stack stack =
     (if length stack = 0 then Inl (ScriptError FinalStackInvalid)
      else if length stack > 1 then Inl (ScriptError FinalStackInvalid)
      else if hd stack \<noteq> SInt 1 then Inl (ScriptError FinalStackInvalid)
      else Inr ())"

definition execute_eval :: "hathor_settings \<Rightarrow> crypto \<Rightarrow> script_extras \<Rightarrow> bytes \<Rightarrow> unit result" where
  "execute_eval stg c extras data =
     bindE (execute_loop stg c extras data 0 []) (\<lambda>stack. evaluate_final_stack stack)"

definition raw_script_eval ::
    "hathor_settings \<Rightarrow> crypto \<Rightarrow> bytes \<Rightarrow> bytes \<Rightarrow> script_extras \<Rightarrow> unit result" where
  "raw_script_eval stg c input_data output_script extras =
     (if MultiSig_re_match output_script \<noteq> None then
        bindE (get_multisig_redeem_script_pos input_data) (\<lambda>redeem_script_pos.
        bindE (execute_eval stg c extras (drop (nat redeem_script_pos) input_data @ output_script)) (\<lambda>_.
        bindE (get_multisig_data input_data) (\<lambda>multisig_data.
        execute_eval stg c extras multisig_data)))
      else execute_eval stg c extras (input_data @ output_script))"

definition script_eval ::
    "hathor_settings \<Rightarrow> crypto \<Rightarrow> any_tx \<Rightarrow> tx_input \<Rightarrow> vertex \<Rightarrow> unit result" where
  "script_eval stg c tx txin spent_tx =
     bindE (py_nth (v_outputs spent_tx) (in_index txin)) (\<lambda>out.
     raw_script_eval stg c (in_data txin) (out_script out) (UtxoScriptExtras tx txin spent_tx))"

text \<open>
  \<^verbatim>\<open>RawSignedData.checksig\<close>, given the serialized data: the oracle check of nano contracts.
\<close>

definition checksig :: "hathor_settings \<Rightarrow> crypto \<Rightarrow> bytes \<Rightarrow> bytes \<Rightarrow> bytes \<Rightarrow> bool result" where
  "checksig stg c data_bytes input_data script =
     (case execute_eval stg c (ScriptExtras (RawSignedData data_bytes)) (input_data @ script) of
        Inl (ScriptError _) \<Rightarrow> Inr False
      | Inl e \<Rightarrow> Inl e
      | Inr _ \<Rightarrow> Inr True)"

end
