(* ===== verification/Script_Proofs.thy ===== *)
theory Script_Proofs
  imports Script_VM "HOL-Library.Sublist"
begin

text \<open>
  What the script machine guarantees: input data and output script are executed one after the other
  when the input data is well delimited, a pay-to-public-key-hash output is spent exactly by a
  signature of the right key, a multi-signature output by the redeem script it names, and standard
  scripts are recognised by the templates that built them.
\<close>


section \<open>Reading a script that is part of a longer one\<close>

definition shift_op :: "int \<Rightarrow> (int \<times> int \<times> stack) result \<Rightarrow> (int \<times> int \<times> stack) result" where
  "shift_op k r = (case r of Inl e \<Rightarrow> Inl e | Inr (opcode, pos, st) \<Rightarrow> Inr (opcode, k + pos, st))"

lemma shift_op_simps [simp]:
  "shift_op k (Inl e) = Inl e" "shift_op k (Inr (opcode, pos, st)) = Inr (opcode, k + pos, st)"
  by (simp_all add: shift_op_def)

lemma get_data_single_byte_shift:
  "0 \<le> pos \<Longrightarrow> get_data_single_byte (int (length xs) + pos) (xs @ ys) = get_data_single_byte pos ys"
  by (simp add: get_data_single_byte_def nth_append nat_add_distrib)

lemma get_data_bytes_iff:
  "0 < pos \<Longrightarrow> get_data_bytes pos len data =
    (if 0 < len \<and> pos + len \<le> int (length data) then Inr (take (nat len) (drop (nat pos) data))
     else Inl (ScriptError OutOfData))"
  by (auto simp: get_data_bytes_def)

lemma get_data_bytes_shift:
  "0 < pos \<Longrightarrow> get_data_bytes (int (length xs) + pos) len (xs @ ys) = get_data_bytes pos len ys"
  by (simp add: get_data_bytes_iff nat_add_distrib)

lemma get_script_op_shift:
  assumes "0 \<le> pos"
  shows "get_script_op (int (length xs) + pos) (xs @ ys) st = shift_op (int (length xs)) (get_script_op pos ys st)"
proof -
  have 1: "get_data_single_byte (int (length xs) + pos + 1) (xs @ ys) = get_data_single_byte (pos + 1) ys"
    using get_data_single_byte_shift [of "pos + 1" xs ys] assms by (simp add: add.assoc)
  have 2: "get_data_bytes (int (length xs) + pos + 1) n (xs @ ys) = get_data_bytes (pos + 1) n ys"
    and 3: "get_data_bytes (int (length xs) + pos + 2) n (xs @ ys) = get_data_bytes (pos + 2) n ys" for n
    using get_data_bytes_shift [of "pos + 1" xs n ys] get_data_bytes_shift [of "pos + 2" xs n ys] assms
    by (simp_all add: add.assoc)
  show ?thesis
    unfolding get_script_op_def get_data_single_byte_shift [OF assms] 1 2 3
    by (cases "get_data_single_byte pos ys"; cases "get_data_single_byte (pos + 1) ys")
      (auto simp: bindE_def split: sum.split)
qed

lemma get_data_single_byte_append:
  "get_data_single_byte pos xs = Inr b \<Longrightarrow> get_data_single_byte pos (xs @ ys) = Inr b"
  by (auto simp: get_data_single_byte_def nth_append split: if_splits)

lemma get_data_bytes_append:
  "get_data_bytes pos len xs = Inr b \<Longrightarrow> get_data_bytes pos len (xs @ ys) = Inr b"
  by (auto simp: get_data_bytes_def split: if_splits)

text \<open>The four ways to read an operation.\<close>

lemma is_pushdata_iff: "is_pushdata x \<longleftrightarrow> 1 \<le> x \<and> x \<le> 75 \<or> 80 \<le> x \<and> x \<le> 96 \<or> x = 76"
  by (auto simp: is_pushdata_def)

lemma is_pushdata_valid: "is_pushdata x \<Longrightarrow> is_valid_opcode x"
  by (simp add: is_valid_opcode_def)

lemma get_script_op_Inr:
  assumes "get_script_op pos data st = Inr (opcode, pos', st')"
  obtains (push) d where "get_data_single_byte pos data = Inr opcode" "1 \<le> opcode" "opcode \<le> 75"
      "get_data_bytes (pos + 1) opcode data = Inr d" "pos' = pos + 1 + opcode" "st' = SBytes d # st"
    | (push1) n d where "get_data_single_byte pos data = Inr 76" "opcode = 76"
      "get_data_single_byte (pos + 1) data = Inr n" "get_data_bytes (pos + 2) n data = Inr d"
      "pos' = pos + 2 + n" "st' = SBytes d # st"
    | (opn) "get_data_single_byte pos data = Inr opcode" "80 \<le> opcode" "opcode \<le> 96"
      "pos' = pos + 1" "st' = SInt (opcode - 80) # st"
    | (func) "get_data_single_byte pos data = Inr opcode" "is_valid_opcode opcode" "\<not> is_pushdata opcode"
      "pos' = pos + 1" "st' = st"
proof -
  obtain b where b: "get_data_single_byte pos data = Inr b" and valid: "is_valid_opcode b"
    using assms by (auto simp: get_script_op_def result_simps split: if_splits)
  consider "1 \<le> b \<and> b \<le> 75" | "b = 76" | "80 \<le> b \<and> b \<le> 96" | "\<not> is_pushdata b"
    by (auto simp: is_pushdata_iff)
  then show thesis
  proof cases
    case 1
    then obtain d where "get_data_bytes (pos + 1) b data = Inr d"
      using assms b valid by (auto simp: get_script_op_def result_simps)
    then show thesis
      using assms b valid 1 by (intro push) (auto simp: get_script_op_def)
  next
    case 2
    then obtain n d where "get_data_single_byte (pos + 1) data = Inr n" "get_data_bytes (pos + 2) n data = Inr d"
      using assms b valid by (auto simp: get_script_op_def result_simps)
    then show thesis
      using assms b valid 2 by (intro push1) (auto simp: get_script_op_def)
  next
    case 3
    then show thesis
      using assms b valid by (intro opn) (auto simp: get_script_op_def decode_opn_def)
  next
    case 4
    then show thesis
      using assms b valid by (intro func) (auto simp: get_script_op_def is_pushdata_iff split: if_splits)
  qed
qed

lemma get_script_op_push:
  "get_data_single_byte pos data = Inr opcode \<Longrightarrow> 1 \<le> opcode \<Longrightarrow> opcode \<le> 75 \<Longrightarrow>
   get_data_bytes (pos + 1) opcode data = Inr d \<Longrightarrow>
   get_script_op pos data st = Inr (opcode, pos + 1 + opcode, SBytes d # st)"
  by (simp add: get_script_op_def is_pushdata_valid is_pushdata_iff)

lemma get_script_op_push1:
  "get_data_single_byte pos data = Inr 76 \<Longrightarrow> get_data_single_byte (pos + 1) data = Inr n \<Longrightarrow>
   get_data_bytes (pos + 2) n data = Inr d \<Longrightarrow>
   get_script_op pos data st = Inr (76, pos + 2 + n, SBytes d # st)"
  by (simp add: get_script_op_def is_pushdata_valid is_pushdata_iff)

lemma get_script_op_opn:
  "get_data_single_byte pos data = Inr opcode \<Longrightarrow> 80 \<le> opcode \<Longrightarrow> opcode \<le> 96 \<Longrightarrow>
   get_script_op pos data st = Inr (opcode, pos + 1, SInt (opcode - 80) # st)"
  by (simp add: get_script_op_def is_pushdata_valid is_pushdata_iff decode_opn_def)

lemma get_script_op_function:
  "get_data_single_byte pos data = Inr opcode \<Longrightarrow> is_valid_opcode opcode \<Longrightarrow> \<not> is_pushdata opcode \<Longrightarrow>
   get_script_op pos data st = Inr (opcode, pos + 1, st)"
  by (auto simp: get_script_op_def is_pushdata_iff)

lemmas get_script_op_intros =
  get_script_op_push get_script_op_push1 get_script_op_opn get_script_op_function

lemma get_script_op_append:
  assumes "get_script_op pos xs st = Inr (opcode, pos', st')"
  shows "get_script_op pos (xs @ ys) st = Inr (opcode, pos', st')"
  using assms
  by (cases rule: get_script_op_Inr)
    (auto simp: get_script_op_intros get_data_single_byte_append get_data_bytes_append)

text \<open>What is read does not depend on the stack it is pushed to.\<close>

lemma get_script_op_stack:
  assumes "get_script_op pos xs st = Inr (opcode, pos', st')"
  shows "\<exists>new. st' = new @ st \<and> (\<forall>st2. get_script_op pos xs st2 = Inr (opcode, pos', new @ st2))"
  using assms
proof (cases rule: get_script_op_Inr)
  case (push d)
  then show ?thesis by (intro exI [of _ "[SBytes d]"]) (simp add: get_script_op_push)
next
  case (push1 n d)
  then show ?thesis by (intro exI [of _ "[SBytes d]"]) (simp add: get_script_op_push1)
next
  case opn
  then show ?thesis by (intro exI [of _ "[SInt (opcode - 80)]"]) (simp add: get_script_op_opn)
next
  case func
  then show ?thesis by (intro exI [of _ "[]"]) (simp add: get_script_op_function)
qed

section \<open>Execution in two parts\<close>

lemma execute_loop_shift:
  assumes "0 \<le> pos"
  shows "execute_loop stg c ex (xs @ ys) (int (length xs) + pos) st = execute_loop stg c ex ys pos st"
  using assms
proof (induction stg c ex ys pos st rule: execute_loop.induct)
  case (1 stg c ex ys pos st)
  show ?case
  proof (cases "pos < int (length ys)")
    case False
    then show ?thesis by (simp add: execute_loop.simps)
  next
    case True
    show ?thesis
    proof (cases "get_script_op pos ys st")
      case (Inl e)
      then show ?thesis
        using True get_script_op_shift [OF 1(3), of xs ys st]
        by (subst (1 2) execute_loop.simps) simp
    next
      case (Inr r)
      obtain opcode pos' st' where r: "r = (opcode, pos', st')" by (cases r)
      have p: "0 \<le> pos'" using get_script_op_pos [OF Inr [unfolded r]] by simp
      have push: "is_pushdata opcode \<Longrightarrow>
          execute_loop stg c ex (xs @ ys) (int (length xs) + pos') st' = execute_loop stg c ex ys pos' st'"
        using 1(1) [OF True Inr] r p by simp
      have oper: "\<not> is_pushdata opcode \<Longrightarrow> Opcode opcode = Inr op \<Longrightarrow> execute_op_code stg c ex op st' = Inr st2 \<Longrightarrow>
          execute_loop stg c ex (xs @ ys) (int (length xs) + pos') st2 = execute_loop stg c ex ys pos' st2" for op st2
        using 1(2) [OF True Inr] r p by simp
      have o': "bindE (execute_op_code stg c ex op st') (execute_loop stg c ex (xs @ ys) (int (length xs) + pos'))
          = bindE (execute_op_code stg c ex op st') (execute_loop stg c ex ys pos')"
        if "\<not> is_pushdata opcode" "Opcode opcode = Inr op" for op
        using oper [OF that] by (cases "execute_op_code stg c ex op st'") simp_all
      have "bindE (Opcode opcode) (\<lambda>op. bindE (execute_op_code stg c ex op st') (execute_loop stg c ex (xs @ ys) (int (length xs) + pos')))
        = bindE (Opcode opcode) (\<lambda>op. bindE (execute_op_code stg c ex op st') (execute_loop stg c ex ys pos'))"
        if "\<not> is_pushdata opcode"
        using o' [OF that] by (cases "Opcode opcode") simp_all
      then show ?thesis
        using True get_script_op_shift [OF 1(3), of xs ys st] Inr r push
        by (subst (1 2) execute_loop.simps) simp
    qed
  qed
qed

lemma execute_loop_suffix:
  "execute_loop stg c ex (xs @ ys) (int (length xs)) st = execute_loop stg c ex ys 0 st"
  using execute_loop_shift [of 0 stg c ex xs ys st] by simp

text \<open>
  A script is well delimited when reading it operation by operation ends exactly at its end. That is
  what counting its signature operations establishes.
\<close>

function delimited :: "bytes \<Rightarrow> int \<Rightarrow> bool" where
  "delimited data pos =
     (if pos < int (length data) then
        (case get_script_op pos data [] of Inl _ \<Rightarrow> False | Inr p \<Rightarrow> delimited data (fst (snd p)))
      else True)"
  by pat_completeness auto

termination
  by (relation "measure (\<lambda>(data, pos). nat (int (length data) - pos))")
    (auto dest: get_script_op_pos(1))

declare delimited.simps [simp del]

lemma count_sigops_loop_delimited:
  "count_sigops_loop stg data n_ops pos last_opcode = Inr n \<Longrightarrow> delimited data pos"
proof (induction stg data n_ops pos last_opcode rule: count_sigops_loop.induct)
  case (1 stg data n_ops pos last_opcode)
  show ?case
  proof (cases "pos < int (length data)")
    case True
    then obtain p k where p: "get_script_op pos data [] = Inr p" and k: "count_sigop stg (fst p) last_opcode = Inr k"
      and "count_sigops_loop stg data (n_ops + k) (fst (snd p)) (Some (fst p)) = Inr n"
      using 1(2) by (auto simp: count_sigops_loop.simps [of stg data n_ops] result_simps)
    then show ?thesis
      using 1(1) [OF True p k] True by (simp add: delimited.simps [of data pos])
  next
    case False
    then show ?thesis by (simp add: delimited.simps)
  qed
qed

lemma count_sigops_delimited: "count_sigops stg data = Inr n \<Longrightarrow> delimited data 0"
  by (auto simp: count_sigops_def dest: count_sigops_loop_delimited)

lemma delimited_get_script_op:
  assumes "delimited data pos" and "pos < int (length data)"
  obtains opcode pos' st' where "get_script_op pos data st = Inr (opcode, pos', st')" and "delimited data pos'"
proof -
  obtain opcode pos' st0 where g: "get_script_op pos data [] = Inr (opcode, pos', st0)" and d: "delimited data pos'"
    using assms by (auto simp: delimited.simps [of data pos] split: sum.splits)
  show thesis
    using get_script_op_stack [OF g] d that by blast
qed

lemma execute_loop_split:
  assumes "delimited xs pos" and "pos \<le> int (length xs)"
  shows "execute_loop stg c ex (xs @ ys) pos st =
    bindE (execute_loop stg c ex xs pos st) (\<lambda>st'. execute_loop stg c ex ys 0 st')"
  using assms
proof (induction "nat (int (length xs) - pos)" arbitrary: pos st rule: less_induct)
  case less
  show ?case
  proof (cases "pos < int (length xs)")
    case False
    then have "pos = int (length xs)" using less.prems(2) by simp
    then show ?thesis
      using execute_loop_suffix [of stg c ex xs ys st] by (simp add: execute_loop.simps [of stg c ex xs])
  next
    case True
    obtain opcode pos' st' where g: "get_script_op pos xs st = Inr (opcode, pos', st')" and d: "delimited xs pos'"
      using delimited_get_script_op [OF less.prems(1) True] .
    note p = get_script_op_pos [OF g]
    have ih: "execute_loop stg c ex (xs @ ys) pos' u =
        bindE (execute_loop stg c ex xs pos' u) (\<lambda>st'. execute_loop stg c ex ys 0 st')" for u
      using less.hyps [OF _ d] p True by simp
    have ih': "execute_loop stg c ex (xs @ ys) pos' =
        (\<lambda>u. bindE (execute_loop stg c ex xs pos' u) (\<lambda>st'. execute_loop stg c ex ys 0 st'))"
      by (rule ext) (rule ih)
    show ?thesis
      using True g get_script_op_append [OF g, of ys] p
      by (subst (1 2) execute_loop.simps) (simp add: bindE_assoc ih')
  qed
qed

lemma execute_loop_input_output:
  assumes "delimited xs 0"
  shows "execute_loop stg c ex (xs @ ys) 0 [] =
    bindE (execute_loop stg c ex xs 0 []) (\<lambda>st. execute_loop stg c ex ys 0 st)"
  using assms by (intro execute_loop_split) simp_all

section \<open>Symbolic execution\<close>

lemma execute_loop_Nil [simp]: "execute_loop stg c ex [] 0 st = Inr st"
  by (simp add: execute_loop.simps)

lemma exec_push:
  assumes "d \<noteq> []" and "length d \<le> 75"
  shows "execute_loop stg c ex (of_nat (length d) # d @ rest) 0 st = execute_loop stg c ex rest 0 (SBytes d # st)"
proof -
  let ?all = "(of_nat (length d) # d) @ rest"
  have pos: "0 < int (length d) + int (length rest)" using assms(1) by (cases d) simp_all
  have u: "uint (of_nat (length d) :: byte) = int (length d)"
    using assms(2) by (simp add: uint_nat unat_of_nat_byte)
  have "get_script_op 0 ?all st = Inr (int (length d), 0 + 1 + int (length d), SBytes d # st)"
    using assms u pos by (intro get_script_op_push) (auto simp: get_data_single_byte_def get_data_bytes_def Suc_leI)
  moreover have "is_pushdata (int (length d))"
    using assms by (cases d) (auto simp: is_pushdata_iff)
  ultimately show ?thesis
    using execute_loop_suffix [of stg c ex "of_nat (length d) # d" rest "SBytes d # st"]
    by (subst execute_loop.simps) (simp add: add.commute)
qed

lemma exec_push1:
  assumes "d \<noteq> []" and "length d \<le> 255"
  shows "execute_loop stg c ex (0x4c # of_nat (length d) # d @ rest) 0 st =
    execute_loop stg c ex rest 0 (SBytes d # st)"
proof -
  let ?all = "(0x4c # of_nat (length d) # d) @ rest"
  have pos: "0 < int (length d) + int (length rest)" using assms(1) by (cases d) simp_all
  have u: "uint (of_nat (length d) :: byte) = int (length d)"
    using assms(2) by (simp add: uint_nat unat_of_nat_byte)
  have "get_script_op 0 ?all st = Inr (76, 0 + 2 + int (length d), SBytes d # st)"
    using assms u pos by (intro get_script_op_push1) (auto simp: get_data_single_byte_def get_data_bytes_def Suc_leI)
  moreover have "is_pushdata 76"
    by (auto simp: is_pushdata_iff)
  ultimately show ?thesis
    using execute_loop_suffix [of stg c ex "0x4c # of_nat (length d) # d" rest "SBytes d # st"]
    by (subst execute_loop.simps) (simp add: add.commute)
qed

lemma exec_op:
  assumes "Opcode (uint b) = Inr op" and "\<not> is_pushdata (uint b)"
  shows "execute_loop stg c ex (b # rest) 0 st =
    bindE (execute_op_code stg c ex op st) (\<lambda>st'. execute_loop stg c ex rest 0 st')"
proof -
  have "get_script_op 0 (b # rest) st = Inr (uint b, 0 + 1, st)"
    using assms by (intro get_script_op_function) (auto simp: get_data_single_byte_def is_valid_opcode_def)
  moreover have "execute_loop stg c ex (b # rest) 1 = execute_loop stg c ex rest 0"
    using execute_loop_suffix [of stg c ex "[b]" rest] by (intro ext) simp
  ultimately show ?thesis
    using assms by (subst execute_loop.simps) simp
qed

lemma exec_opn:
  assumes "80 \<le> uint b" and "uint b \<le> 96"
  shows "execute_loop stg c ex (b # rest) 0 st = execute_loop stg c ex rest 0 (SInt (uint b - 80) # st)"
proof -
  have "get_script_op 0 (b # rest) st = Inr (uint b, 0 + 1, SInt (uint b - 80) # st)"
    using assms by (intro get_script_op_opn) (auto simp: get_data_single_byte_def)
  moreover have "is_pushdata (uint b)" using assms by (simp add: is_pushdata_iff)
  ultimately show ?thesis
    using assms execute_loop_suffix [of stg c ex "[b]" rest]
    by (subst execute_loop.simps) simp
qed

section \<open>Pay to public key hash\<close>

lemma Opcode_eval:
  "Opcode 0x76 = Inr OP_DUP" "Opcode 0x87 = Inr OP_EQUAL" "Opcode 0x88 = Inr OP_EQUALVERIFY"
  "Opcode 0xAC = Inr OP_CHECKSIG" "Opcode 0xA9 = Inr OP_HASH160" "Opcode 0xAE = Inr OP_CHECKMULTISIG"
  "Opcode 0x6F = Inr OP_GREATERTHAN_TIMESTAMP"
  by (simp_all add: Opcode_def)

lemma is_pushdata_eval:
  "\<not> is_pushdata 0x76" "\<not> is_pushdata 0x87" "\<not> is_pushdata 0x88" "\<not> is_pushdata 0xAC"
  "\<not> is_pushdata 0xA9" "\<not> is_pushdata 0xAE" "\<not> is_pushdata 0x6F"
  by (simp_all add: is_pushdata_iff)

lemma exec_ops:
  "execute_loop stg c ex (0x76 # rest) 0 st = bindE (op_dup st) (\<lambda>st'. execute_loop stg c ex rest 0 st')"
  "execute_loop stg c ex (0x87 # rest) 0 st = bindE (op_equal st) (\<lambda>st'. execute_loop stg c ex rest 0 st')"
  "execute_loop stg c ex (0x88 # rest) 0 st = bindE (op_equalverify st) (\<lambda>st'. execute_loop stg c ex rest 0 st')"
  "execute_loop stg c ex (0xAC # rest) 0 st = bindE (op_checksig c ex st) (\<lambda>st'. execute_loop stg c ex rest 0 st')"
  "execute_loop stg c ex (0xA9 # rest) 0 st = bindE (op_hash160 c st) (\<lambda>st'. execute_loop stg c ex rest 0 st')"
  "execute_loop stg c ex (0xAE # rest) 0 st = bindE (op_checkmultisig stg c ex st) (\<lambda>st'. execute_loop stg c ex rest 0 st')"
  "execute_loop stg c ex (0x6F # rest) 0 st =
     bindE (op_greaterthan_timestamp ex st) (\<lambda>st'. execute_loop stg c ex rest 0 st')"
  by (simp_all add: exec_op Opcode_eval is_pushdata_eval execute_op_code_def)

lemma exec_push_20:
  "length d = 20 \<Longrightarrow> execute_loop stg c ex (0x14 # d @ rest) 0 st = execute_loop stg c ex rest 0 (SBytes d # st)"
  using exec_push [of d stg c ex rest st] by (cases "d = []") auto

text \<open>What a signature check asks for: a compressed key on the curve and a valid signature of the data.\<close>

definition signed_by :: "crypto \<Rightarrow> script_extras \<Rightarrow> bytes \<Rightarrow> bytes \<Rightarrow> bool" where
  "signed_by c ex pubkey signature =
     (is_pubkey_compressed pubkey \<and> valid_point c pubkey \<and>
      (\<exists>data. extras_sighash_all_data c ex = Inr data \<and> ecdsa_verify c pubkey signature data))"

lemma op_checksig_accepts:
  "op_checksig c ex st = Inr [SInt 1] \<longleftrightarrow>
    (\<exists>pubkey signature. st = [SBytes pubkey, SBytes signature] \<and> signed_by c ex pubkey signature)"
proof -
  have "op_checksig c ex (p # s # st') = Inr [SInt 1] \<longleftrightarrow>
      (\<exists>pubkey signature. p # s # st' = [SBytes pubkey, SBytes signature] \<and> signed_by c ex pubkey signature)"
    for p s st'
    by (cases p; cases s; cases "extras_sighash_all_data c ex")
      (auto simp: op_checksig_def signed_by_def)
  then show ?thesis
    by (cases st; cases "tl st") (auto simp: op_checksig_def)
qed

definition p2pkh_script :: "bytes \<Rightarrow> bytes" where
  "p2pkh_script h = [0x76, 0xa9, 0x14] @ h @ [0x88, 0xac]"

lemma exec_p2pkh_accepts:
  assumes "length h = 20"
  shows "execute_loop stg c ex (p2pkh_script h) 0 st = Inr [SInt 1] \<longleftrightarrow>
    (\<exists>pubkey signature. st = [SBytes pubkey, SBytes signature] \<and> get_hash160 c pubkey = h \<and>
       signed_by c ex pubkey signature)"
proof (cases st)
  case Nil
  then show ?thesis by (simp add: p2pkh_script_def exec_ops op_dup_def)
next
  case (Cons x st')
  show ?thesis
  proof (cases x)
    case (SInt i)
    then show ?thesis
      using Cons by (simp add: p2pkh_script_def exec_ops op_dup_def op_hash160_def)
  next
    case (SBytes pubkey)
    have "execute_loop stg c ex (p2pkh_script h) 0 st =
        (if h = get_hash160 c pubkey then op_checksig c ex st else Inl (ScriptError EqualVerifyFailed))"
      using Cons SBytes assms
      by (simp add: p2pkh_script_def exec_ops exec_push_20 op_dup_def op_hash160_def op_equalverify_def op_equal_def)
        (cases "op_checksig c ex (SBytes pubkey # st')"; simp)
    then show ?thesis
      using Cons SBytes op_checksig_accepts [of c ex st] by auto
  qed
qed

lemma evaluate_final_stack_ok: "evaluate_final_stack st = Inr u \<longleftrightarrow> st = [SInt 1]"
  by (cases st) (auto simp: evaluate_final_stack_def)

lemma execute_eval_ok: "execute_eval stg c ex data = Inr u \<longleftrightarrow> execute_loop stg c ex data 0 [] = Inr [SInt 1]"
  by (auto simp: execute_eval_def result_simps evaluate_final_stack_ok)

lemma P2PKH_create_output_script_form:
  assumes "length address = 25"
  shows "P2PKH_create_output_script address None = Inr (p2pkh_script (drop 1 (take 21 address)))"
  using assms
  by (simp add: P2PKH_create_output_script_def pushData_bytes_def addOpcode_def p2pkh_script_def)

lemma p2pkh_not_multisig: "MultiSig_re_match (p2pkh_script h) = None"
  by (simp add: MultiSig_re_match_def p2pkh_script_def re_timelock_def re_pushdata_def re_op_def)

lemma p2pkh_eval_accepts:
  assumes "length h = 20" and "delimited input_data 0"
  shows "raw_script_eval stg c input_data (p2pkh_script h) ex = Inr u \<longleftrightarrow>
    (\<exists>pubkey signature. execute_loop stg c ex input_data 0 [] = Inr [SBytes pubkey, SBytes signature] \<and>
       get_hash160 c pubkey = h \<and> signed_by c ex pubkey signature)"
proof -
  have "raw_script_eval stg c input_data (p2pkh_script h) ex = Inr u \<longleftrightarrow>
      bindE (execute_loop stg c ex input_data 0 []) (\<lambda>st. execute_loop stg c ex (p2pkh_script h) 0 st) = Inr [SInt 1]"
    by (simp add: raw_script_eval_def p2pkh_not_multisig execute_eval_ok execute_loop_input_output [OF assms(2)])
  also have "\<dots> \<longleftrightarrow> (\<exists>st. execute_loop stg c ex input_data 0 [] = Inr st \<and>
      execute_loop stg c ex (p2pkh_script h) 0 st = Inr [SInt 1])"
    by (simp add: result_simps)
  also have "\<dots> \<longleftrightarrow> (\<exists>pubkey signature. execute_loop stg c ex input_data 0 [] = Inr [SBytes pubkey, SBytes signature] \<and>
       get_hash160 c pubkey = h \<and> signed_by c ex pubkey signature)"
    by (auto simp only: exec_p2pkh_accepts [OF assms(1)])
  finally show ?thesis .
qed

subsection \<open>Spending with the right key\<close>

lemma delimited_shift: "0 \<le> pos \<Longrightarrow> delimited (xs @ ys) (int (length xs) + pos) = delimited ys pos"
proof (induction ys pos rule: delimited.induct)
  case (1 ys pos)
  show ?case
  proof (cases "pos < int (length ys)")
    case False
    then show ?thesis by (simp add: delimited.simps)
  next
    case True
    note sh = get_script_op_shift [OF 1(2), of xs ys "[]"]
    show ?thesis
    proof (cases "get_script_op pos ys []")
      case (Inl e)
      then show ?thesis using True sh by (simp add: delimited.simps [of "xs @ ys"] delimited.simps [of ys])
    next
      case (Inr p)
      obtain opcode pos' st' where p: "p = (opcode, pos', st')" by (cases p)
      have "0 \<le> pos'" using get_script_op_pos [OF Inr [unfolded p]] by simp
      then show ?thesis
        using True sh Inr p 1(1) [OF True Inr]
        by (simp add: delimited.simps [of "xs @ ys" "int (length xs) + pos"] delimited.simps [of ys pos])
    qed
  qed
qed

lemma delimited_suffix: "delimited (xs @ ys) (int (length xs)) = delimited ys 0"
  using delimited_shift [of 0 xs ys] by simp

lemma delimited_Nil [simp]: "delimited [] 0"
  by (simp add: delimited.simps)

lemma delimited_push:
  assumes "d \<noteq> []" and "length d \<le> 75"
  shows "delimited (of_nat (length d) # d @ rest) 0 = delimited rest 0"
proof -
  let ?all = "(of_nat (length d) # d) @ rest"
  have pos: "0 < int (length d) + int (length rest)" using assms(1) by (cases d) simp_all
  have u: "uint (of_nat (length d) :: byte) = int (length d)"
    using assms(2) by (simp add: uint_nat unat_of_nat_byte)
  have "get_script_op 0 ?all [] = Inr (int (length d), 0 + 1 + int (length d), [SBytes d])"
    using assms u pos by (intro get_script_op_push) (auto simp: get_data_single_byte_def get_data_bytes_def Suc_leI)
  then show ?thesis
    using delimited_suffix [of "of_nat (length d) # d" rest]
    by (subst delimited.simps) (simp add: add.commute)
qed

lemma P2PKH_create_input_data_form:
  "length sig \<le> 75 \<Longrightarrow> length pk \<le> 75 \<Longrightarrow> P2PKH_create_input_data pk sig =
     Inr (of_nat (length sig) # sig @ of_nat (length pk) # pk)"
  by (simp add: P2PKH_create_input_data_def pushData_bytes_def)

lemma two_pushes:
  assumes "a \<noteq> []" and "length a \<le> 75" and "b \<noteq> []" and "length b \<le> 75"
  shows "execute_loop stg c ex (of_nat (length a) # a @ of_nat (length b) # b @ rest) 0 [] =
      execute_loop stg c ex rest 0 [SBytes b, SBytes a]"
    and "delimited (of_nat (length a) # a @ of_nat (length b) # b @ rest) 0 = delimited rest 0"
  using assms by (simp_all add: exec_push delimited_push)

lemma p2pkh_honest_spend:
  assumes "length h = 20" and "get_hash160 c pk = h" and "signed_by c ex pk sig"
    and "sig \<noteq> []" "length sig \<le> 75" "length pk \<le> 75" and "P2PKH_create_input_data pk sig = Inr input_data"
  shows "raw_script_eval stg c input_data (p2pkh_script h) ex = Inr ()"
proof -
  have pk: "pk \<noteq> []" using assms(3) by (auto simp: signed_by_def is_pubkey_compressed_def)
  have inp: "input_data = of_nat (length sig) # sig @ of_nat (length pk) # pk"
    using assms(5-7) by (simp add: P2PKH_create_input_data_form)
  show ?thesis
    using p2pkh_eval_accepts [OF assms(1), of input_data stg c ex] two_pushes(1) [of sig pk stg c ex "[]"]
      two_pushes(2) [of sig pk "[]"] assms(2-6) pk
    by (simp add: inp)
qed

subsection \<open>A push across the boundary\<close>

text \<open>
  The last byte of the input data is a push of 23 bytes: in the concatenation it takes the first 23
  bytes of the output script, up to the key hash, as data.
\<close>

definition crossing_input :: "bytes \<Rightarrow> bytes \<Rightarrow> bytes \<Rightarrow> bytes" where
  "crossing_input sig pk h =
     of_nat (length sig) # sig @ of_nat (length pk) # pk @ 23 # ([0x76, 0xa9, 0x14] @ h) @ [23]"

lemma crossing_input_accepted:
  assumes "length h = 20" and "signed_by c ex pk sig" and "sig \<noteq> []" "length sig \<le> 75" "length pk \<le> 75"
  shows "raw_script_eval stg c (crossing_input sig pk h) (p2pkh_script h) ex = Inr ()"
proof -
  let ?x = "[0x76, 0xa9, 0x14] @ h"
  have pk: "pk \<noteq> []" using assms(2) by (auto simp: signed_by_def is_pubkey_compressed_def)
  have x: "execute_loop stg c ex (23 # ?x @ rest) 0 st = execute_loop stg c ex rest 0 (SBytes ?x # st)" for rest st
    using exec_push [of ?x stg c ex rest st] assms(1) by simp
  have data: "crossing_input sig pk h @ p2pkh_script h =
      of_nat (length sig) # sig @ of_nat (length pk) # pk @ 23 # ?x @ 23 # ?x @ [0x88, 0xac]"
    by (simp add: crossing_input_def p2pkh_script_def)
  have "execute_loop stg c ex (crossing_input sig pk h @ p2pkh_script h) 0 [] =
      execute_loop stg c ex [0x88, 0xac] 0 [SBytes ?x, SBytes ?x, SBytes pk, SBytes sig]"
    unfolding data two_pushes(1) [OF assms(3,4) pk assms(5)] x ..
  also have "\<dots> = op_checksig c ex [SBytes pk, SBytes sig]"
    by (simp add: exec_ops op_equalverify_def op_equal_def)
      (cases "op_checksig c ex [SBytes pk, SBytes sig]"; simp)
  also have "\<dots> = Inr [SInt 1]"
    using assms(2) op_checksig_accepts by blast
  finally show ?thesis
    by (simp add: raw_script_eval_def p2pkh_not_multisig execute_eval_ok)
qed

lemma crossing_input_not_delimited:
  assumes "length h = 20" and "sig \<noteq> []" "length sig \<le> 75" "pk \<noteq> []" "length pk \<le> 75"
  shows "\<not> delimited (crossing_input sig pk h) 0"
proof -
  let ?x = "[0x76, 0xa9, 0x14] @ h"
  have "delimited (23 # ?x @ rest) 0 = delimited rest 0" for rest
    using delimited_push [of ?x rest] assms(1) by simp
  then have "delimited (crossing_input sig pk h) 0 = delimited [23] 0"
    unfolding crossing_input_def two_pushes(2) [OF assms(2-5)] .
  also have "\<dots> = False"
    by (simp add: delimited.simps get_script_op_def get_data_single_byte_def get_data_bytes_def)
  finally show ?thesis by simp
qed

section \<open>Multi-signature\<close>

subsection \<open>Greedy matching of signatures and keys\<close>

definition sig_ok :: "crypto \<Rightarrow> script_extras \<Rightarrow> stack_item \<Rightarrow> stack_item \<Rightarrow> bool" where
  "sig_ok c ex s k = (\<exists>sb kb. s = SBytes sb \<and> k = SBytes kb \<and> signed_by c ex kb sb)"

text \<open>The specification: the signatures are valid for some keys, in the order of the keys.\<close>

definition signatures_match :: "crypto \<Rightarrow> script_extras \<Rightarrow> stack \<Rightarrow> stack \<Rightarrow> bool" where
  "signatures_match c ex sigs keys = (\<exists>ks. subseq ks keys \<and> list_all2 (sig_ok c ex) sigs ks)"

text \<open>Keys that no signature check refuses with an exception.\<close>

definition checkable :: "crypto \<Rightarrow> script_extras \<Rightarrow> stack \<Rightarrow> stack \<Rightarrow> bool" where
  "checkable c ex sigs keys =
     ((\<forall>k \<in> set keys. \<exists>kb. k = SBytes kb \<and> is_pubkey_compressed kb \<and> valid_point c kb) \<and>
      (\<forall>s \<in> set sigs. \<exists>sb. s = SBytes sb) \<and>
      (\<exists>data. extras_sighash_all_data c ex = Inr data))"

lemma op_checksig_pair: "op_checksig c ex [k, s] = Inr [SInt 1] \<longleftrightarrow> sig_ok c ex s k"
  by (auto simp: op_checksig_accepts sig_ok_def)

lemma try_keys_sound:
  "try_keys c ex s keys = Inr (Some rest) \<Longrightarrow> \<exists>pre k. keys = pre @ k # rest \<and> sig_ok c ex s k"
proof (induction keys)
  case Nil
  then show ?case by simp
next
  case (Cons k keys)
  then obtain st where st: "op_checksig c ex [k, s] = Inr st" by (auto simp: result_simps)
  show ?case
  proof (cases "st = [SInt 1]")
    case True
    then have "rest = keys" "sig_ok c ex s k"
      using Cons.prems st op_checksig_pair by auto
    then show ?thesis by (intro exI [of _ "[]"] exI [of _ k]) simp
  next
    case False
    then obtain pre k' where "keys = pre @ k' # rest" "sig_ok c ex s k'"
      using Cons st by auto
    then show ?thesis by (intro exI [of _ "k # pre"] exI [of _ k']) simp
  qed
qed

lemma try_signatures_sound:
  "try_signatures c ex sigs keys = Inr True \<Longrightarrow> signatures_match c ex sigs keys"
proof (induction sigs arbitrary: keys)
  case Nil
  show ?case unfolding signatures_match_def by (intro exI [of _ "[]"]) simp
next
  case (Cons s sigs)
  then obtain r where r: "try_keys c ex s keys = Inr r" by (auto simp: result_simps)
  show ?case
  proof (cases r)
    case None
    then show ?thesis using Cons.prems r by simp
  next
    case (Some rest)
    obtain pre k where k: "keys = pre @ k # rest" "sig_ok c ex s k"
      using try_keys_sound r Some by blast
    obtain ks where ks: "subseq ks rest" "list_all2 (sig_ok c ex) sigs ks"
      using Cons r Some by (auto simp: signatures_match_def)
    have "subseq (k # ks) keys"
      using k ks(1) by (simp add: list_emb_append2)
    then show ?thesis
      unfolding signatures_match_def using k ks(2) by (intro exI [of _ "k # ks"]) simp
  qed
qed

lemma op_checksig_checkable:
  assumes "checkable c ex (s # sigs) (k # keys)"
  shows "op_checksig c ex [k, s] = Inr [SInt (if sig_ok c ex s k then 1 else 0)]"
  using assms by (auto simp: checkable_def op_checksig_def sig_ok_def signed_by_def)

lemma try_keys_checkable:
  "checkable c ex (s # sigs) keys \<Longrightarrow> try_keys c ex s keys =
    Inr (case dropWhile (\<lambda>k. \<not> sig_ok c ex s k) keys of [] \<Rightarrow> None | _ # rest \<Rightarrow> Some rest)"
proof (induction keys)
  case Nil
  then show ?case by simp
next
  case (Cons k keys)
  have "checkable c ex (s # sigs) keys" using Cons.prems by (simp add: checkable_def)
  with Cons show ?case using op_checksig_checkable [OF Cons.prems] by simp
qed

lemma subseq_first_match:
  assumes "subseq (k # ks) keys" and "P k"
  shows "\<exists>k' rest. dropWhile (\<lambda>x. \<not> P x) keys = k' # rest \<and> subseq ks rest"
  using assms
proof (induction keys rule: list.induct)
  case Nil
  then show ?case by simp
next
  case (Cons x keys)
  show ?case
  proof (cases "P x")
    case True
    then show ?thesis
      using Cons.prems by (metis dropWhile.simps(2) subseq_Cons2_iff subseq_Cons')
  next
    case False
    then have "subseq (k # ks) keys" using Cons.prems by (metis subseq_Cons2_iff)
    then show ?thesis using Cons False by simp
  qed
qed

lemma try_signatures_complete:
  "checkable c ex sigs keys \<Longrightarrow> try_signatures c ex sigs keys = Inr (signatures_match c ex sigs keys)"
proof (induction sigs arbitrary: keys)
  case Nil
  show ?case unfolding signatures_match_def by (simp add: exI [of _ "[]"])
next
  case (Cons s sigs)
  note tk = try_keys_checkable [OF Cons.prems] and prems = Cons.prems and IH = Cons.IH
  show ?case
  proof (cases "dropWhile (\<lambda>k. \<not> sig_ok c ex s k) keys")
    case Nil
    have "\<not> signatures_match c ex (s # sigs) keys"
    proof
      assume "signatures_match c ex (s # sigs) keys"
      then obtain k ks where "subseq (k # ks) keys" "sig_ok c ex s k"
        by (auto simp: signatures_match_def list_all2_Cons1)
      then show False using subseq_first_match [of k ks keys "sig_ok c ex s"] Nil by simp
    qed
    then show ?thesis using tk Nil by simp
  next
    case (Cons k rest)
    have keys: "\<exists>pre. keys = pre @ k # rest" and k: "sig_ok c ex s k"
      using Cons takeWhile_dropWhile_id [of "\<lambda>k. \<not> sig_ok c ex s k" keys]
        hd_dropWhile [of "\<lambda>k. \<not> sig_ok c ex s k" keys] by (metis, simp)
    then have "checkable c ex sigs rest"
      using prems by (auto simp: checkable_def)
    moreover have "signatures_match c ex (s # sigs) keys \<longleftrightarrow> signatures_match c ex sigs rest"
    proof
      assume "signatures_match c ex (s # sigs) keys"
      then obtain k' ks where "subseq (k' # ks) keys" "sig_ok c ex s k'" "list_all2 (sig_ok c ex) sigs ks"
        by (auto simp: signatures_match_def list_all2_Cons1)
      then show "signatures_match c ex sigs rest"
        using subseq_first_match [of k' ks keys "sig_ok c ex s"] Cons by (auto simp: signatures_match_def)
    next
      assume "signatures_match c ex sigs rest"
      then obtain ks where ks: "subseq ks rest" "list_all2 (sig_ok c ex) sigs ks"
        by (auto simp: signatures_match_def)
      obtain pre where "keys = pre @ k # rest" using keys by blast
      then have "subseq (k # ks) keys" using ks(1) by (simp add: list_emb_append2)
      then show "signatures_match c ex (s # sigs) keys"
        unfolding signatures_match_def using k ks(2) by (intro exI [of _ "k # ks"]) simp
    qed
    ultimately show ?thesis
      using tk Cons IH by simp
  qed
qed

subsection \<open>The redeem script\<close>

definition push_img :: "bytes \<Rightarrow> bytes" where
  "push_img d = of_nat (length d) # d"

definition short_push :: "bytes \<Rightarrow> bool" where
  "short_push d = (d \<noteq> [] \<and> length d \<le> 75)"

lemma push_all_form: "list_all short_push ds \<Longrightarrow> push_all s ds = Inr (s @ concat (map push_img ds))"
  by (induction ds arbitrary: s) (auto simp: pushData_bytes_def push_img_def short_push_def)

lemma exec_push_img:
  "short_push d \<Longrightarrow> execute_loop stg c ex (push_img d @ rest) 0 st = execute_loop stg c ex rest 0 (SBytes d # st)"
  by (simp add: push_img_def short_push_def exec_push)

lemma exec_push_all:
  "list_all short_push ds \<Longrightarrow>
   execute_loop stg c ex (concat (map push_img ds) @ rest) 0 st = execute_loop stg c ex rest 0 (rev (map SBytes ds) @ st)"
  by (induction ds arbitrary: st) (auto simp: exec_push_img)

lemma uint_opn: "0 \<le> n \<Longrightarrow> n \<le> 16 \<Longrightarrow> uint (word_of_int (80 + n) :: byte) = 80 + n"
  unfolding uint_byte_of_int by (rule mod_pos_pos_trivial) simp_all

lemma exec_opn_byte:
  "0 \<le> n \<Longrightarrow> n \<le> 16 \<Longrightarrow>
   execute_loop stg c ex (word_of_int (80 + n) # rest) 0 st = execute_loop stg c ex rest 0 (SInt n # st)"
  using exec_opn [of "word_of_int (80 + n)" stg c ex rest st] uint_opn [of n] by simp

lemma redeem_script_form:
  assumes "generate_multisig_redeem_script stg m keys = Inr r" and "list_all short_push keys"
  shows "0 \<le> m" and "m \<le> 16" and "m \<le> MAX_MULTISIG_SIGNATURES stg" and "length keys \<le> 16"
    and "int (length keys) \<le> MAX_MULTISIG_PUBKEYS stg"
    and "r = word_of_int (80 + m) # concat (map push_img keys) @ [word_of_int (80 + int (length keys)), 0xae]"
  using assms
  by (auto simp: generate_multisig_redeem_script_def getattr_OP_def result_simps push_all_form addOpcode_def
      split: if_splits)

lemma op_checkmultisig_accepts:
  assumes "0 \<le> m" and "m \<le> MAX_MULTISIG_SIGNATURES stg" and "int (length keys) \<le> MAX_MULTISIG_PUBKEYS stg"
  shows "op_checkmultisig stg c ex (SInt (int (length keys)) # keys @ SInt m # st) = Inr [SInt 1] \<longleftrightarrow>
    int (length st) = m \<and> try_signatures c ex st keys = Inr True"
proof -
  have "op_checkmultisig stg c ex (SInt (int (length keys)) # keys @ SInt m # st) =
      (if int (length st) < m then Inl (ScriptError MissingStackItems)
       else bindE (try_signatures c ex (take (nat m) st) keys)
         (\<lambda>b. Inr (SInt (if b then 1 else 0) # drop (nat m) st)))"
    using assms by (simp add: op_checkmultisig_def)
  moreover have "drop (nat m) st = [] \<Longrightarrow> take (nat m) st = st"
    by simp
  ultimately show ?thesis
    using assms(1)
    by (cases "try_signatures c ex (take (nat m) st) keys") (auto simp: result_simps split: if_splits)
qed

lemma exec_redeem_accepts:
  assumes "generate_multisig_redeem_script stg m keys = Inr r" and "list_all short_push keys"
  shows "execute_loop stg c ex r 0 st = Inr [SInt 1] \<longleftrightarrow>
    int (length st) = m \<and> try_signatures c ex st (rev (map SBytes keys)) = Inr True"
proof -
  note f = redeem_script_form [OF assms]
  let ?keys = "rev (map SBytes keys)"
  have n: "execute_loop stg c ex (word_of_int (80 + int (length keys)) # rest) 0 st' =
      execute_loop stg c ex rest 0 (SInt (int (length ?keys)) # st')" for rest st'
    using exec_opn_byte [of "int (length keys)" stg c ex rest st'] f(4) by simp
  have "execute_loop stg c ex r 0 st = op_checkmultisig stg c ex (SInt (int (length ?keys)) # ?keys @ SInt m # st)"
    unfolding f(6)
    by (simp only: exec_opn_byte [OF f(1,2)] exec_push_all [OF assms(2)] n exec_ops)
      (cases "op_checkmultisig stg c ex (SInt (int (length ?keys)) # ?keys @ SInt m # st)"; simp)
  then show ?thesis
    using op_checkmultisig_accepts [OF f(1,3), of ?keys c ex st] f(5) by simp
qed

subsection \<open>The last operation of the input data\<close>

lemma get_script_op_prefix:
  assumes "get_script_op pos (xs @ ys) st = Inr (opcode, pos', st')" and "pos' \<le> int (length xs)"
  shows "get_script_op pos xs st = Inr (opcode, pos', st')"
proof -
  have b: "get_data_single_byte p xs = Inr v" if "get_data_single_byte p (xs @ ys) = Inr v" "p < int (length xs)" for p v
    using that by (auto simp: get_data_single_byte_def nth_append split: if_splits)
  have d: "get_data_bytes p n xs = Inr v" if "get_data_bytes p n (xs @ ys) = Inr v" "p + n \<le> int (length xs)" for p n v
    using that by (auto simp: get_data_bytes_def split: if_splits)
  have n: "0 < n" if "get_data_bytes p n (xs @ ys) = Inr v" for p n v
    using that by (auto simp: get_data_bytes_def split: if_splits)
  show ?thesis
    using assms(1)
  proof (cases rule: get_script_op_Inr)
    case (push v)
    then show ?thesis using assms(2) b [OF push(1)] d [OF push(4)] by (simp add: get_script_op_push)
  next
    case (push1 k v)
    then show ?thesis
      using assms(2) b [OF push1(1)] b [OF push1(3)] d [OF push1(4)] n [OF push1(4)] by (simp add: get_script_op_push1)
  next
    case opn
    then show ?thesis using assms(2) b [OF opn(1)] by (simp add: get_script_op_opn)
  next
    case func
    then show ?thesis using assms(2) b [OF func(1)] by (simp add: get_script_op_function)
  qed
qed

lemma delimited_step:
  "get_script_op pos data st = Inr (opcode, pos', st') \<Longrightarrow> delimited data pos' \<Longrightarrow> delimited data pos"
  using get_script_op_stack [of pos data st opcode pos' st'] by (auto simp: delimited.simps [of data pos])

lemma redeem_script_pos_loop_Inr:
  assumes "redeem_script_pos_loop input_data pos last_pos = Inr p" and "0 \<le> pos" and "pos < int (length input_data)"
  shows "\<exists>pre op opcode new. input_data = pre @ op \<and> int (length pre) = p \<and> pos \<le> p \<and> delimited pre pos \<and>
    get_script_op 0 op [] = Inr (opcode, int (length op), new)"
  using assms
proof (induction input_data pos last_pos rule: redeem_script_pos_loop.induct)
  case (1 data pos last_pos)
  then obtain opcode pos' st' where g: "get_script_op pos data [] = Inr (opcode, pos', st')"
    and r: "redeem_script_pos_loop data pos' pos = Inr p"
    by (auto simp: redeem_script_pos_loop.simps [of data pos last_pos] result_simps)
  note ps = get_script_op_pos [OF g]
  show ?case
  proof (cases "pos' < int (length data)")
    case True
    obtain pre op opcode2 new where ih: "data = pre @ op" "int (length pre) = p" "pos' \<le> p" "delimited pre pos'"
      "get_script_op 0 op [] = Inr (opcode2, int (length op), new)"
      using 1(1) [OF 1(4) g] r ps True by auto
    have "get_script_op pos pre [] = Inr (opcode, pos', st')"
      using get_script_op_prefix [of pos pre op "[]" opcode pos' st'] g ih(1-3) by simp
    then have "delimited pre pos" and "pos \<le> p"
      using delimited_step ih(3,4) ps(1) by (blast, linarith)
    then show ?thesis using ih by blast
  next
    case False
    then have pos': "pos' = int (length data)" and p: "p = pos"
      using ps r redeem_script_pos_loop.simps [of data pos' pos] by auto
    let ?pre = "take (nat pos) data" and ?op = "drop (nat pos) data"
    have l: "int (length ?pre) = pos" using 1(3,4) by simp
    have "get_script_op (int (length ?pre) + 0) (?pre @ ?op) [] = Inr (opcode, pos', st')"
      using g l by simp
    then have "shift_op (int (length ?pre)) (get_script_op 0 ?op []) = Inr (opcode, pos', st')"
      using get_script_op_shift [of 0 ?pre ?op "[]"] by simp
    then have "get_script_op 0 ?op [] = Inr (opcode, int (length ?op), st')"
      using l pos' 1(3,4) by (cases "get_script_op 0 ?op []") auto
    moreover have "delimited ?pre pos" using l by (simp add: delimited.simps)
    ultimately show ?thesis
      using l p by (intro exI [of _ ?pre] exI [of _ ?op] exI [of _ opcode] exI [of _ st']) simp
  qed
qed

lemma multisig_data_loop_Inr:
  assumes "redeem_script_pos_loop input_data pos last_pos = Inr p" and "0 \<le> pos" and "pos < int (length input_data)"
  shows "\<exists>st2. multisig_data_loop input_data pos last_pos st = Inr (p, st2) \<and>
    (\<forall>opcode r. get_script_op p input_data [] = Inr (opcode, int (length input_data), [SBytes r]) \<longrightarrow>
      st2 \<noteq> [] \<and> hd st2 = SBytes r)"
  using assms
proof (induction input_data pos last_pos arbitrary: st rule: redeem_script_pos_loop.induct)
  case (1 data pos last_pos)
  then obtain opcode pos' new where g: "get_script_op pos data [] = Inr (opcode, pos', new)"
    and r: "redeem_script_pos_loop data pos' pos = Inr p"
    by (auto simp: redeem_script_pos_loop.simps [of data pos last_pos] result_simps)
  note ps = get_script_op_pos [OF g]
  have g': "get_script_op pos data st = Inr (opcode, pos', new @ st)"
    using get_script_op_stack [OF g] by auto
  obtain st1 where st1: "multisig_data_loop data pos last_pos st = multisig_data_loop data pos' pos st1"
    and top: "\<And>r. new = [SBytes r] \<Longrightarrow> st1 = SBytes r # st"
    using g
  proof (cases rule: get_script_op_Inr)
    case (push d)
    then have "multisig_data_loop data pos last_pos st = multisig_data_loop data pos' pos (new @ st)"
      using 1(3,4) ps(5) g' by (subst multisig_data_loop.simps) (simp add: op_pushdata_def)
    then show ?thesis using that by simp
  next
    case (push1 k d)
    then have "multisig_data_loop data pos last_pos st = multisig_data_loop data pos' pos (new @ st)"
      using 1(3,4) ps(5) g' by (subst multisig_data_loop.simps) (simp add: op_pushdata1_def)
    then show ?thesis using that by simp
  next
    case opn
    then have "multisig_data_loop data pos last_pos st = multisig_data_loop data pos' pos st"
      using 1(3,4) ps(5) by (subst multisig_data_loop.simps) simp
    then show ?thesis using that opn by simp
  next
    case func
    then have "multisig_data_loop data pos last_pos st = multisig_data_loop data pos' pos st"
      using 1(3,4) ps(5) by (subst multisig_data_loop.simps) (auto simp: is_pushdata_iff)
    then show ?thesis using that func by simp
  qed
  show ?case
  proof (cases "pos' < int (length data)")
    case True
    then show ?thesis
      using 1(1) [OF 1(4) g, of st1] r ps st1 by auto
  next
    case False
    then have "p = pos" and "multisig_data_loop data pos' pos st1 = Inr (pos, st1)"
      using r by (auto simp: redeem_script_pos_loop.simps [of data pos'] multisig_data_loop.simps [of data pos'])
    then show ?thesis using st1 g top by auto
  qed
qed

subsection \<open>Spending a multi-signature output\<close>

definition multisig_script :: "bytes \<Rightarrow> bytes" where
  "multisig_script h = [0xa9, 0x14] @ h @ [0x87]"

lemma MultiSig_create_output_script_form:
  assumes "length address = 25"
  shows "MultiSig_create_output_script address None = Inr (multisig_script (drop 1 (take 21 address)))"
  using assms
  by (simp add: MultiSig_create_output_script_def pushData_bytes_def addOpcode_def multisig_script_def)

lemma multisig_script_match:
  "length h = 20 \<Longrightarrow> MultiSig_re_match (multisig_script h) = Some (None, 0x14 # h)"
  by (simp add: MultiSig_re_match_def multisig_script_def re_timelock_def re_pushdata_def re_op_def re_end_def)

lemma exec_multisig_accepts:
  assumes "length h = 20"
  shows "execute_loop stg c ex (multisig_script h) 0 st = Inr [SInt 1] \<longleftrightarrow>
    (\<exists>r. st = [SBytes r] \<and> get_hash160 c r = h)"
proof (cases st)
  case Nil
  then show ?thesis by (simp add: multisig_script_def exec_ops op_hash160_def)
next
  case (Cons x st')
  show ?thesis
  proof (cases x)
    case (SInt i)
    then show ?thesis using Cons by (simp add: multisig_script_def exec_ops op_hash160_def)
  next
    case (SBytes r)
    then show ?thesis
      using Cons assms by (auto simp: multisig_script_def exec_ops exec_push_20 op_hash160_def op_equal_def)
  qed
qed

lemma execute_op_code_empty: "\<exists>e. execute_op_code stg c ex op [] = Inl e"
  by (cases op)
    (simp_all add: execute_op_code_def op_dup_def op_equal_def op_equalverify_def op_checksig_def op_hash160_def
      op_greaterthan_timestamp_def op_checkmultisig_def op_data_strequal_def op_data_greaterthan_def
      op_data_match_value_def op_checkdatasig_def op_find_p2pkh_def)

lemma exec_single_op:
  assumes "get_script_op 0 op [] = Inr (opcode, int (length op), new)" and "execute_loop stg c ex op 0 [] = Inr [SBytes r]"
  shows "new = [SBytes r]"
proof -
  have l: "0 < int (length op)" using get_script_op_pos(1) [OF assms(1)] .
  have e: "execute_loop stg c ex op 0 [] =
      (if is_pushdata opcode then Inr new
       else bindE (Opcode opcode) (\<lambda>o'. bindE (execute_op_code stg c ex o' new) (\<lambda>st'. Inr st')))"
  proof -
    have "execute_loop stg c ex op (int (length op)) = (\<lambda>st'. Inr st')"
      by (rule ext) (simp add: execute_loop.simps)
    then show ?thesis
      using l assms(1) by (subst execute_loop.simps) simp
  qed
  show ?thesis
  proof (cases "is_pushdata opcode")
    case True
    then show ?thesis using e assms(2) by simp
  next
    case False
    from assms(1) have "new = []"
      by (cases rule: get_script_op_Inr) (use False in \<open>auto simp: is_pushdata_iff\<close>)
    then have "bindE (Opcode opcode) (\<lambda>o'. bindE (execute_op_code stg c ex o' []) (\<lambda>st'. Inr st')) = Inr [SBytes r]"
      using e assms(2) False by simp
    then obtain o' where "execute_op_code stg c ex o' [] = Inr [SBytes r]"
      by (auto simp: result_simps)
    then show ?thesis using execute_op_code_empty [of stg c ex o'] by simp
  qed
qed

text \<open>The input data ends with the push of the redeem script, and what precedes it is well delimited.\<close>

definition pushes :: "bytes \<Rightarrow> bytes \<Rightarrow> bool" where
  "pushes op r = (\<exists>opcode. get_script_op 0 op [] = Inr (opcode, int (length op), [SBytes r]))"

lemma multisig_eval_accepts:
  assumes "length h = 20" and "raw_script_eval stg c input_data (multisig_script h) ex = Inr ()"
  shows "\<exists>pre op r st. input_data = pre @ op \<and> pushes op r \<and> get_hash160 c r = h \<and>
    delimited pre 0 \<and> execute_loop stg c ex pre 0 [] = Inr st \<and> execute_loop stg c ex r 0 st = Inr [SInt 1]"
proof -
  obtain p md where p: "redeem_script_pos_loop input_data 0 0 = Inr p"
    and first: "execute_loop stg c ex (drop (nat p) input_data @ multisig_script h) 0 [] = Inr [SInt 1]"
    and md: "get_multisig_data input_data = Inr md" and second: "execute_loop stg c ex md 0 [] = Inr [SInt 1]"
    using assms
    by (auto simp: raw_script_eval_def multisig_script_match get_multisig_redeem_script_pos_def result_simps
        execute_eval_ok)
  have "input_data \<noteq> []"
  proof
    assume "input_data = []"
    then show False using first exec_multisig_accepts [OF assms(1), of stg c ex "[]"] by simp
  qed
  then have ne: "0 < int (length input_data)" by simp
  obtain pre op opcode new where split: "input_data = pre @ op" "int (length pre) = p" "delimited pre 0"
    and op: "get_script_op 0 op [] = Inr (opcode, int (length op), new)"
    using redeem_script_pos_loop_Inr [OF p _ ne] by auto
  have dl: "delimited op 0"
    using op by (simp add: delimited.simps [of op 0] delimited.simps [of op "int (length op)"])
  have "drop (nat p) input_data = op" using split(1,2) by auto
  then obtain st1 where "execute_loop stg c ex op 0 [] = Inr st1" "execute_loop stg c ex (multisig_script h) 0 st1 = Inr [SInt 1]"
    using first execute_loop_input_output [OF dl] by (auto simp: result_simps)
  then obtain r where r: "execute_loop stg c ex op 0 [] = Inr [SBytes r]" "get_hash160 c r = h"
    by (auto simp: exec_multisig_accepts [OF assms(1)])
  have new: "new = [SBytes r]" by (rule exec_single_op [OF op r(1)])
  have "get_script_op p input_data [] = Inr (opcode, int (length input_data), [SBytes r])"
    using get_script_op_shift [of 0 pre op "[]"] split op new by simp
  then obtain st2 where "multisig_data_loop input_data 0 0 [] = Inr (p, st2)" "st2 \<noteq> []" "hd st2 = SBytes r"
    using multisig_data_loop_Inr [OF p _ ne, of "[]"] by auto
  then have "md = pre @ r"
    using md split(1,2) by (cases st2) (auto simp: get_multisig_data_def)
  then obtain st where "execute_loop stg c ex pre 0 [] = Inr st" "execute_loop stg c ex r 0 st = Inr [SInt 1]"
    using second execute_loop_input_output [OF split(3)] by (auto simp: result_simps)
  moreover have "pushes op r" using op new by (auto simp: pushes_def)
  ultimately show ?thesis using split r(2) by blast
qed

subsection \<open>Honest multi-signature spending\<close>

lemma redeem_script_pos_loop_split:
  assumes "delimited pre pos" and "0 \<le> pos" and "pos \<le> int (length pre)"
    and "get_script_op 0 op [] = Inr (opcode, int (length op), new)"
  shows "redeem_script_pos_loop (pre @ op) pos last_pos = Inr (int (length pre))"
  using assms(1-3)
proof (induction "nat (int (length pre) - pos)" arbitrary: pos last_pos rule: less_induct)
  case less
  have ne: "op \<noteq> []" using get_script_op_pos(1) [OF assms(4)] by auto
  show ?case
  proof (cases "pos < int (length pre)")
    case True
    obtain opcode' pos' st' where g: "get_script_op pos pre [] = Inr (opcode', pos', st')" and d: "delimited pre pos'"
      using delimited_get_script_op [OF less.prems(1) True] .
    note ps = get_script_op_pos [OF g]
    have "redeem_script_pos_loop (pre @ op) pos' pos = Inr (int (length pre))"
      using less.hyps [OF _ d] ps by simp
    then show ?thesis
      using True get_script_op_append [OF g, of op] by (subst redeem_script_pos_loop.simps) simp
  next
    case False
    then have "pos = int (length pre)" using less.prems by simp
    then show ?thesis
      using get_script_op_shift [of 0 pre op "[]"] assms(4) ne
      by (simp add: redeem_script_pos_loop.simps [of _ "int (length pre)"]
          redeem_script_pos_loop.simps [of _ "int (length pre) + int (length op)"])
  qed
qed

lemma multisig_eval_complete:
  assumes "length h = 20" and "delimited pre 0" and "pushes op r" and "get_hash160 c r = h"
    and "execute_loop stg c ex pre 0 [] = Inr st" and "execute_loop stg c ex r 0 st = Inr [SInt 1]"
    and "execute_loop stg c ex op 0 [] = Inr [SBytes r]"
  shows "raw_script_eval stg c (pre @ op) (multisig_script h) ex = Inr ()"
proof -
  obtain opcode where op: "get_script_op 0 op [] = Inr (opcode, int (length op), [SBytes r])"
    using assms(3) by (auto simp: pushes_def)
  have p: "redeem_script_pos_loop (pre @ op) 0 0 = Inr (int (length pre))"
    using redeem_script_pos_loop_split [OF assms(2) _ _ op] by simp
  have dl: "delimited op 0"
    using op by (simp add: delimited.simps [of op 0] delimited.simps [of op "int (length op)"])
  have ne: "0 < int (length (pre @ op))"
    unfolding length_append using get_script_op_pos(1) [OF op] by linarith
  have "get_script_op (int (length pre)) (pre @ op) [] = Inr (opcode, int (length (pre @ op)), [SBytes r])"
    using get_script_op_shift [of 0 pre op "[]"] op by simp
  then obtain st2 where "multisig_data_loop (pre @ op) 0 0 [] = Inr (int (length pre), st2)"
    "st2 \<noteq> []" "hd st2 = SBytes r"
    using multisig_data_loop_Inr [OF p _ ne, of "[]"] by auto
  then have md: "get_multisig_data (pre @ op) = Inr (pre @ r)"
    by (cases st2) (auto simp: get_multisig_data_def)
  have "execute_loop stg c ex (op @ multisig_script h) 0 [] = Inr [SInt 1]"
    using execute_loop_input_output [OF dl] assms(4,7) exec_multisig_accepts [OF assms(1)] by simp
  moreover have "execute_loop stg c ex (pre @ r) 0 [] = Inr [SInt 1]"
    using execute_loop_input_output [OF assms(2)] assms(5,6) by simp
  ultimately show ?thesis
    using p md assms(1)
    by (simp add: raw_script_eval_def multisig_script_match get_multisig_redeem_script_pos_def execute_eval_def
        evaluate_final_stack_def)
qed

lemma delimited_push_all: "list_all short_push ds \<Longrightarrow> delimited (concat (map push_img ds)) 0"
  by (induction ds) (auto simp: push_img_def short_push_def delimited_push)

lemma push_op:
  assumes "r \<noteq> []" and "pushData_bytes [] r = Inr op"
  shows "pushes op r \<and> execute_loop stg c ex op 0 [] = Inr [SBytes r]"
proof -
  have pos: "0 < int (length r)" using assms(1) by simp
  consider (short) "length r \<le> 75" "op = of_nat (length r) # r"
    | (long) "75 < length r" "length r \<le> 255" "op = 0x4c # of_nat (length r) # r"
    using assms(2) by (auto simp: pushData_bytes_def split: if_splits)
  then show ?thesis
  proof cases
    case short
    have u: "uint (of_nat (length r) :: byte) = int (length r)"
      using short(1) by (simp add: uint_nat unat_of_nat_byte)
    have "get_script_op 0 op [] = Inr (int (length r), 0 + 1 + int (length r), [SBytes r])"
      using short u pos by (intro get_script_op_push) (auto simp: get_data_single_byte_def get_data_bytes_def Suc_leI)
    then have "pushes op r" using short by (auto simp: pushes_def add.commute)
    then show ?thesis
      using exec_push [of r stg c ex "[]" "[]"] short assms(1) by simp
  next
    case long
    have u: "uint (of_nat (length r) :: byte) = int (length r)"
      using long(2) by (simp add: uint_nat unat_of_nat_byte)
    have "get_script_op 0 op [] = Inr (76, 0 + 2 + int (length r), [SBytes r])"
      using long u pos by (intro get_script_op_push1) (auto simp: get_data_single_byte_def get_data_bytes_def Suc_leI)
    then have "pushes op r" using long by (auto simp: pushes_def)
    then show ?thesis
      using exec_push1 [of r stg c ex "[]" "[]"] long assms(1) by simp
  qed
qed

lemma pushData_bytes_prefix: "pushData_bytes s d = bindE (pushData_bytes [] d) (\<lambda>op. Inr (s @ op))"
  by (simp add: pushData_bytes_def)

lemma multisig_honest_spend:
  assumes "generate_multisig_redeem_script stg m keys = Inr r" and "list_all short_push keys"
    and "list_all short_push sigs" and "int (length sigs) = m"
    and "try_signatures c ex (rev (map SBytes sigs)) (rev (map SBytes keys)) = Inr True"
    and "MultiSig_create_input_data r sigs = Inr input_data" and "length (get_hash160 c r) = 20"
  shows "raw_script_eval stg c input_data (multisig_script (get_hash160 c r)) ex = Inr ()"
proof -
  let ?pre = "concat (map push_img sigs)"
  have r: "r \<noteq> []" using redeem_script_form(6) [OF assms(1,2)] by simp
  obtain op where op: "pushData_bytes [] r = Inr op" "input_data = ?pre @ op"
    using assms(6) pushData_bytes_prefix [of ?pre r]
    by (auto simp: MultiSig_create_input_data_def push_all_form [OF assms(3)] result_simps)
  have "execute_loop stg c ex ?pre 0 [] = Inr (rev (map SBytes sigs))"
    using exec_push_all [OF assms(3), of stg c ex "[]" "[]"] by simp
  moreover have "execute_loop stg c ex r 0 (rev (map SBytes sigs)) = Inr [SInt 1]"
    using exec_redeem_accepts [OF assms(1,2), of c ex] assms(4,5) by simp
  ultimately show ?thesis
    unfolding op(2)
    using multisig_eval_complete [OF assms(7) delimited_push_all [OF assms(3)] _ refl] push_op [OF r op(1), of stg c ex]
    by simp
qed

section \<open>Time locks\<close>

text \<open>A time lock that takes four bytes, pushed before the rest of the script.\<close>

definition timelock_prefix :: "int \<Rightarrow> bytes" where
  "timelock_prefix t = 4 # be_bytes 4 t @ [0x6f]"

lemma pushData_int_4:
  assumes "65535 < t" and "t < 2 ^ 32"
  shows "pushData_int [] t = Inr (4 # be_bytes 4 t)"
  using assms by (simp add: pushData_int_def pushData_bytes_def struct_pack_def int_fits_def del: be_bytes.simps)

lemma P2PKH_create_timelocked:
  assumes "length address = 25" and "65535 < t" and "t < 2 ^ 32"
  shows "P2PKH_create_output_script address (Some t) = Inr (timelock_prefix t @ p2pkh_script (drop 1 (take 21 address)))"
  using assms
  by (simp add: P2PKH_create_output_script_def pushData_int_4 pushData_bytes_def addOpcode_def timelock_prefix_def
      p2pkh_script_def del: be_bytes.simps)

lemma exec_timelock:
  assumes "0 \<le> t" and "t < 2 ^ 32"
  shows "execute_loop stg c ex (timelock_prefix t @ rest) 0 st =
    (case ex of ScriptExtras _ \<Rightarrow> Inl AssertionError
     | UtxoScriptExtras tx _ _ \<Rightarrow>
         if timestamp (as_transaction tx) \<le> t then Inl (ScriptError TimeLocked) else execute_loop stg c ex rest 0 st)"
proof -
  have "execute_loop stg c ex (timelock_prefix t @ rest) 0 st =
      execute_loop stg c ex (0x6f # rest) 0 (SBytes (be_bytes 4 t) # st)"
    using exec_push [of "be_bytes 4 t" stg c ex "0x6f # rest" st]
    by (simp add: timelock_prefix_def length_0_conv [symmetric] del: be_bytes.simps length_0_conv)
  moreover have "struct_unpack 4 False (be_bytes 4 t) = Inr t"
    using assms by (intro struct_unpack_pack) (simp add: struct_pack_def int_fits_def)
  ultimately show ?thesis
    by (simp add: exec_ops op_greaterthan_timestamp_def split: script_extras.split del: be_bytes.simps)
qed

lemma re_timelock_prefix: "re_timelock (timelock_prefix t @ rest) = (Some (4 # be_bytes 4 t), rest)"
  by (simp add: re_timelock_def timelock_prefix_def re_pushdata_def re_op_def del: be_bytes.simps)

lemma re_timelock_p2pkh: "re_timelock (p2pkh_script h) = (None, p2pkh_script h)"
  by (simp add: re_timelock_def p2pkh_script_def re_pushdata_def)

lemma timelocked_not_multisig: "MultiSig_re_match (timelock_prefix t @ p2pkh_script h) = None"
  by (simp add: MultiSig_re_match_def re_timelock_prefix p2pkh_script_def re_op_def)

lemma p2pkh_rest_match:
  "length h = 20 \<Longrightarrow> re_timelock s = (g, p2pkh_script h @ nl) \<Longrightarrow> re_end nl \<Longrightarrow> P2PKH_re_match s = Some (g, 0x14 # h)"
  by (simp add: P2PKH_re_match_def p2pkh_script_def re_op_def re_pushdata_def)

lemma get_pushdata_20: "length h = 20 \<Longrightarrow> get_pushdata (0x14 # h) = Inr h"
  by (simp add: get_pushdata_def py_nth_def)

lemma parse_timelock_4:
  assumes "0 \<le> t" and "t < 2 ^ 32"
  shows "parse_timelock (Some (4 # be_bytes 4 t)) = Inr (Some t)"
proof -
  have "struct_unpack 4 False (be_bytes 4 t) = Inr t"
    using assms by (intro struct_unpack_pack) (simp add: struct_pack_def int_fits_def)
  then show ?thesis by (simp add: parse_timelock_def del: be_bytes.simps)
qed

lemma P2PKH_parse_plain:
  "length h = 20 \<Longrightarrow> re_end nl \<Longrightarrow> P2PKH_parse_script stg c (p2pkh_script h @ nl) =
    Inr (Some \<lparr>bs_address = get_address_b58_from_public_key_hash stg c h, bs_timelock = None\<rparr>)"
proof -
  assume h: "length h = 20" and nl: "re_end nl"
  have "re_timelock (p2pkh_script h @ nl) = (None, p2pkh_script h @ nl)"
    by (simp add: re_timelock_def p2pkh_script_def re_pushdata_def)
  then show ?thesis
    using p2pkh_rest_match [OF h _ nl] get_pushdata_20 [OF h]
    by (simp add: P2PKH_parse_script_def parse_timelock_def)
qed

lemma P2PKH_parse_timelocked:
  assumes "length h = 20" and "0 \<le> t" and "t < 2 ^ 32"
  shows "P2PKH_parse_script stg c (timelock_prefix t @ p2pkh_script h) =
    Inr (Some \<lparr>bs_address = get_address_b58_from_public_key_hash stg c h, bs_timelock = Some t\<rparr>)"
proof -
  have "P2PKH_re_match (timelock_prefix t @ p2pkh_script h) = Some (Some (4 # be_bytes 4 t), 0x14 # h)"
    using p2pkh_rest_match [OF assms(1), of _ _ "[]"] by (simp add: re_timelock_prefix re_end_def)
  then show ?thesis
    using parse_timelock_4 [OF assms(2,3)] get_pushdata_20 [OF assms(1)] by (simp add: P2PKH_parse_script_def)
qed

text \<open>A short time lock is pushed in one or two bytes, which the operation cannot unpack.\<close>

definition short_timelock :: "int \<Rightarrow> bytes" where
  "short_timelock t = (if t \<le> 255 then 1 # be_bytes 1 t else 2 # be_bytes 2 t) @ [0x6f]"

lemma pushData_int_short:
  "0 < t \<Longrightarrow> t \<le> 65535 \<Longrightarrow> pushData_int [] t = Inr (if t \<le> 255 then 1 # be_bytes 1 t else 2 # be_bytes 2 t)"
  by (simp add: pushData_int_def pushData_bytes_def struct_pack_def int_fits_def del: be_bytes.simps)

lemma P2PKH_create_short_timelock:
  assumes "length address = 25" and "0 < t" and "t \<le> 65535"
  shows "P2PKH_create_output_script address (Some t) = Inr (short_timelock t @ p2pkh_script (drop 1 (take 21 address)))"
  using assms
  by (simp add: P2PKH_create_output_script_def pushData_int_short pushData_bytes_def addOpcode_def short_timelock_def
      p2pkh_script_def del: be_bytes.simps)

lemma exec_short_timelock:
  "execute_loop stg c ex (short_timelock t @ rest) 0 st = Inl StructError"
proof -
  have "execute_loop stg c ex (1 # be_bytes 1 t @ 0x6f # rest) 0 st = Inl StructError"
    using exec_push [of "be_bytes 1 t" stg c ex "0x6f # rest" st]
    by (simp add: exec_ops op_greaterthan_timestamp_def struct_unpack_def)
  moreover have "execute_loop stg c ex (2 # be_bytes 2 t @ 0x6f # rest) 0 st = Inl StructError"
    using exec_push [of "be_bytes 2 t" stg c ex "0x6f # rest" st]
    by (simp add: exec_ops op_greaterthan_timestamp_def struct_unpack_def length_0_conv [symmetric] del: be_bytes.simps length_0_conv)
  ultimately show ?thesis
    by (simp add: short_timelock_def del: be_bytes.simps)
qed

lemma short_timelock_not_multisig:
  assumes "length h = 20"
  shows "MultiSig_re_match (short_timelock t @ p2pkh_script h) = None"
    and "P2PKH_re_match (short_timelock t @ p2pkh_script h) = None"
  by (simp_all add: MultiSig_re_match_def P2PKH_re_match_def re_timelock_def short_timelock_def p2pkh_script_def
      re_pushdata_def re_op_def del: be_bytes.simps)

lemma short_timelock_unspendable_aux:
  assumes "length h = 20" and "delimited input_data 0"
  shows "raw_script_eval stg c input_data (short_timelock t @ p2pkh_script h) ex \<noteq> Inr ()"
  using short_timelock_not_multisig(1) [OF assms(1), of t] exec_short_timelock [of stg c ex t "p2pkh_script h"]
  by (auto simp: raw_script_eval_def execute_eval_ok execute_loop_input_output [OF assms(2)] result_simps)

lemma redeem_script_too_long:
  assumes "generate_multisig_redeem_script stg m keys = Inr r" and "list_all (\<lambda>k. length k = 33) keys" and "8 \<le> length keys"
    and "list_all short_push sigs"
  shows "MultiSig_create_input_data r sigs = Inl ValueError"
proof -
  have k: "list_all short_push keys" using assms(2) by (auto simp: list_all_iff short_push_def)
  have "length (concat (map push_img keys)) = 34 * length keys"
    using assms(2) by (induction keys) (auto simp: push_img_def)
  then have "255 < length r"
    using redeem_script_form(6) [OF assms(1) k] assms(3) by simp
  then show ?thesis
    by (simp add: MultiSig_create_input_data_def push_all_form [OF assms(4)] pushData_bytes_def)
qed

section \<open>Properties\<close>

text \<open>Concrete primitives and a concrete transaction, for the witnesses.\<close>

definition sample_crypto :: crypto where
  "sample_crypto = \<lparr>sha256 = (\<lambda>b. replicate 32 (of_nat (length b))), ripemd160 = take 20,
     valid_point = (\<lambda>b. length b = 33), ecdsa_verify = (\<lambda>pubkey signature data. signature = [1]),
     b58encode = map unat, b58decode = (\<lambda>s. Some (map of_nat s))\<rparr>"

definition empty_tx :: transaction where
  "empty_tx = \<lparr>nonce = 0, timestamp = 2000000, signal_bits = 0, version = 1, weight = 0, inputs = [],
     outputs = [], parents = [], headers = [], vhash = None, tokens = []\<rparr>"

definition sample_extras :: script_extras where
  "sample_extras = UtxoScriptExtras (RegularTx empty_tx)
     \<lparr>in_tx_id = [], in_index = 0, in_data = []\<rparr> (TxVertex (RegularTx empty_tx))"

definition sample_pubkey :: bytes where
  "sample_pubkey = 2 # replicate 32 0"

lemma sample_signed: "signed_by sample_crypto sample_extras sample_pubkey [1]"
  by (simp add: signed_by_def sample_crypto_def sample_extras_def sample_pubkey_def is_pubkey_compressed_def
      any_get_sighash_all_data_def get_sighash_all_def empty_tx_def struct_pack_def int_fits_def)

lemma sample_hash160: "get_hash160 sample_crypto b = replicate 20 (of_nat (length b))"
  by (simp add: get_hash160_def sample_crypto_def)

text \<open>
  C1. Input data and output script run one after the other: when the signature operations of the
  input data can be counted (the check that runs before script evaluation), executing the
  concatenation of input data and output script is executing the input data on the empty stack and
  then the output script on the stack it leaves. No push of the input data reaches into the output
  script.
\<close>

theorem script_boundary:
  assumes "count_sigops stg input_data = Inr n"
  shows "execute_loop stg c ex (input_data @ output_script) 0 [] =
    bindE (execute_loop stg c ex input_data 0 []) (\<lambda>stack. execute_loop stg c ex output_script 0 stack)"
  using execute_loop_input_output [OF count_sigops_delimited [OF assms]] .

lemma count_sigops_sample: "count_sigops mainnet_settings [1, 7] = Inr 0"
  by (simp add: count_sigops_def count_sigops_loop.simps get_script_op_def get_data_single_byte_def
      get_data_bytes_def is_valid_opcode_def is_pushdata_def count_sigop_def)

theorem script_boundary_witness:
  "execute_loop mainnet_settings sample_crypto sample_extras ([1, 7] @ [0x76]) 0 [] =
    bindE (execute_loop mainnet_settings sample_crypto sample_extras [1, 7] 0 [])
      (\<lambda>stack. execute_loop mainnet_settings sample_crypto sample_extras [0x76] 0 stack)"
  using script_boundary [OF count_sigops_sample] .

text \<open>
  C2. A pay-to-public-key-hash output is spent only with its key: if the signature operations of
  the input data can be counted and the evaluation against the script that \<open>create_output_script\<close>
  builds for an address succeeds, then the input data left exactly a public key and a signature on
  the stack, the key hashes to the hash in the address, and the signature is a valid signature of
  the signature hash of the spending transaction under that key. With a time lock, the transaction is
  also later than the lock.
\<close>

theorem p2pkh_spend_authorised:
  assumes "length address = 25" and "P2PKH_create_output_script address timelock = Inr script"
    and "timelock = None \<or> (\<exists>t. timelock = Some t \<and> 65535 < t \<and> t < 2 ^ 32)"
    and "get_sigops_count stg input_data (Some script) = Inr n"
    and "raw_script_eval stg c input_data script ex = Inr ()"
  shows "\<exists>pubkey signature. execute_loop stg c ex input_data 0 [] = Inr [SBytes pubkey, SBytes signature] \<and>
    get_hash160 c pubkey = drop 1 (take 21 address) \<and> signed_by c ex pubkey signature \<and>
    (\<forall>t. timelock = Some t \<longrightarrow>
      (\<exists>tx txin spent_tx. ex = UtxoScriptExtras tx txin spent_tx \<and> t < timestamp (as_transaction tx)))"
proof -
  let ?h = "drop 1 (take 21 address)"
  have h: "length ?h = 20" using assms(1) by simp
  show ?thesis
  proof (cases timelock)
    case None
    then have s: "script = p2pkh_script ?h"
      using assms(2) P2PKH_create_output_script_form [OF assms(1)] by simp
    then have "delimited input_data 0"
      using assms(4) count_sigops_delimited by (auto simp: get_sigops_count_def p2pkh_not_multisig)
    then show ?thesis
      using p2pkh_eval_accepts [OF h, of input_data stg c ex] assms(5) None unfolding s by auto
  next
    case (Some t)
    then have t: "65535 < t" "t < 2 ^ 32" and s: "script = timelock_prefix t @ p2pkh_script ?h"
      using assms(2,3) P2PKH_create_timelocked [OF assms(1)] by auto
    have d: "delimited input_data 0"
      using assms(4) count_sigops_delimited by (auto simp: s get_sigops_count_def timelocked_not_multisig)
    obtain st where st: "execute_loop stg c ex input_data 0 [] = Inr st"
      and run: "execute_loop stg c ex (timelock_prefix t @ p2pkh_script ?h) 0 st = Inr [SInt 1]"
      using assms(5) execute_loop_input_output [OF d]
      by (auto simp: s raw_script_eval_def timelocked_not_multisig execute_eval_ok result_simps)
    then have "\<exists>tx txin spent_tx. ex = UtxoScriptExtras tx txin spent_tx \<and> t < timestamp (as_transaction tx)"
      and "execute_loop stg c ex (p2pkh_script ?h) 0 st = Inr [SInt 1]"
      using exec_timelock [of t stg c ex "p2pkh_script ?h" st] t
      by (auto split: script_extras.splits if_splits)
    then show ?thesis
      using exec_p2pkh_accepts [OF h, of stg c ex st] st Some by auto
  qed
qed

lemma sample_honest:
  "P2PKH_create_output_script (0x28 # replicate 20 33 @ replicate 4 0) (Some 1000000) =
     Inr (timelock_prefix 1000000 @ p2pkh_script (replicate 20 33))"
  using P2PKH_create_timelocked [of "0x28 # replicate 20 33 @ replicate 4 0" 1000000] by simp

lemma sample_input_stack:
  "execute_loop mainnet_settings sample_crypto sample_extras (1 # [1] @ 33 # sample_pubkey) 0 [] =
     Inr [SBytes sample_pubkey, SBytes [1]]"
  "delimited (1 # [1] @ 33 # sample_pubkey) 0"
  using two_pushes(1) [of "[1]" sample_pubkey mainnet_settings sample_crypto sample_extras "[]"]
    two_pushes(2) [of "[1]" sample_pubkey "[]"]
  by (simp_all add: sample_pubkey_def)

lemma count_sigops_pushes:
  assumes "list_all short_push ds"
  shows "count_sigops stg (concat (map push_img ds)) = Inr 0"
proof -
  have step: "count_sigops_loop stg (pre @ push_img d @ rest) 0 (int (length pre)) lo =
      count_sigops_loop stg ((pre @ push_img d) @ rest) 0 (int (length (pre @ push_img d))) (Some (int (length d)))"
    if "short_push d" for pre d rest lo
  proof -
    have d: "d \<noteq> []" "length d \<le> 75" using that by (auto simp: short_push_def)
    have pos: "0 < int (length d) + int (length rest)" using d(1) by (cases d) simp_all
    have u: "uint (of_nat (length d) :: byte) = int (length d)"
      using d(2) by (simp add: uint_nat unat_of_nat_byte)
    have "get_script_op 0 (push_img d @ rest) [] = Inr (int (length d), 0 + 1 + int (length d), [SBytes d])"
      using d u pos unfolding push_img_def
      by (intro get_script_op_push) (auto simp: get_data_single_byte_def get_data_bytes_def Suc_leI)
    then have "get_script_op (int (length pre)) (pre @ push_img d @ rest) [] =
        Inr (int (length d), int (length (pre @ push_img d)), [SBytes d])"
      using get_script_op_shift [of 0 pre "push_img d @ rest" "[]"] by (simp add: push_img_def)
    then show ?thesis
      using d(2) by (subst count_sigops_loop.simps) (simp add: count_sigop_def push_img_def)
  qed
  have "count_sigops_loop stg (pre @ concat (map push_img ds)) 0 (int (length pre)) lo = Inr 0" for pre lo
    using assms
  proof (induction ds arbitrary: pre lo)
    case Nil
    then show ?case by (simp add: count_sigops_loop.simps)
  next
    case (Cons d ds)
    then show ?case using step [of d pre "concat (map push_img ds)" lo] Cons.IH [of "pre @ push_img d"] by simp
  qed
  from this [of "[]"] show ?thesis by (simp add: count_sigops_def)
qed

theorem p2pkh_spend_authorised_witness:
  "\<exists>pubkey signature. execute_loop mainnet_settings sample_crypto sample_extras (1 # [1] @ 33 # sample_pubkey) 0 [] =
      Inr [SBytes pubkey, SBytes signature] \<and>
    get_hash160 sample_crypto pubkey = replicate 20 33 \<and> signed_by sample_crypto sample_extras pubkey signature \<and>
    (\<exists>tx txin spent_tx. sample_extras = UtxoScriptExtras tx txin spent_tx \<and> 1000000 < timestamp (as_transaction tx))"
proof -
  let ?a = "0x28 # replicate 20 33 @ replicate 4 0"
  let ?s = "timelock_prefix 1000000 @ p2pkh_script (replicate 20 33)"
  let ?i = "1 # [1] @ 33 # sample_pubkey"
  have i: "?i = concat (map push_img [[1], sample_pubkey])"
    by (simp add: push_img_def sample_pubkey_def)
  have c: "get_sigops_count mainnet_settings ?i (Some ?s) = Inr 0"
    unfolding i
    by (simp only: get_sigops_count_def timelocked_not_multisig option.case simp_thms if_False)
      (rule count_sigops_pushes, simp add: short_push_def sample_pubkey_def)
  have hash: "get_hash160 sample_crypto sample_pubkey = replicate 20 33"
    by (simp add: sample_hash160 sample_pubkey_def)
  have "execute_loop mainnet_settings sample_crypto sample_extras ?s 0 [SBytes sample_pubkey, SBytes [1]] = Inr [SInt 1]"
    using exec_timelock [of 1000000 mainnet_settings sample_crypto sample_extras "p2pkh_script (replicate 20 33)"]
      exec_p2pkh_accepts [of "replicate 20 33" mainnet_settings sample_crypto sample_extras "[SBytes sample_pubkey, SBytes [1]]"]
      hash sample_signed
    by (simp add: sample_extras_def empty_tx_def)
  then have e: "raw_script_eval mainnet_settings sample_crypto ?i ?s sample_extras = Inr ()"
    using execute_loop_input_output [OF sample_input_stack(2)] sample_input_stack(1)
    by (simp add: raw_script_eval_def timelocked_not_multisig execute_eval_def evaluate_final_stack_def)
  show ?thesis
    using p2pkh_spend_authorised [OF _ sample_honest _ c e] by simp
qed

text \<open>
  C8. An honest spend succeeds: the input data that \<open>create_input_data\<close> builds from a signature and
  the public key of the address is accepted against the output script of the address.
\<close>

theorem p2pkh_honest_spend_accepted:
  assumes "length address = 25" and "P2PKH_create_output_script address None = Inr script"
    and "get_hash160 c pubkey = drop 1 (take 21 address)" and "signed_by c ex pubkey signature"
    and "signature \<noteq> []" and "length signature \<le> 75" and "length pubkey \<le> 75"
    and "P2PKH_create_input_data pubkey signature = Inr input_data"
  shows "raw_script_eval stg c input_data script ex = Inr ()"
proof -
  have "length (drop 1 (take 21 address)) = 20" using assms(1) by simp
  then show ?thesis
    using p2pkh_honest_spend [OF _ assms(3-8)] P2PKH_create_output_script_form [OF assms(1)] assms(2) by simp
qed

theorem p2pkh_honest_spend_accepted_witness:
  "raw_script_eval mainnet_settings sample_crypto (1 # [1] @ 33 # sample_pubkey)
     (p2pkh_script (replicate 20 33)) sample_extras = Inr ()"
proof -
  let ?a = "0x28 # replicate 20 33 @ replicate 4 0"
  have s: "P2PKH_create_output_script ?a None = Inr (p2pkh_script (replicate 20 33))"
    using P2PKH_create_output_script_form [of ?a] by simp
  have h: "get_hash160 sample_crypto sample_pubkey = drop 1 (take 21 ?a)"
    by (simp add: sample_hash160 sample_pubkey_def)
  have i: "P2PKH_create_input_data sample_pubkey [1] = Inr (1 # [1] @ 33 # sample_pubkey)"
    using P2PKH_create_input_data_form [of "[1]" sample_pubkey] by (simp add: sample_pubkey_def)
  show ?thesis
    by (rule p2pkh_honest_spend_accepted [OF _ s h sample_signed _ _ _ i]) (simp_all add: sample_pubkey_def)
qed

text \<open>
  C10. Evaluation alone does not protect an output: for every key hash and every key that can sign
  the transaction, whatever its hash, there is input data that the evaluator accepts. It ends with a
  push of 23 bytes that swallows the start of the output script. What stops it is that its
  signature operations cannot be counted: the check that the verification runs before the scripts.
\<close>

theorem push_across_boundary:
  assumes "length h = 20" and "signed_by c ex pubkey signature" and "signature \<noteq> []"
    and "length signature \<le> 75" and "length pubkey \<le> 75"
  shows "\<exists>input_data. raw_script_eval stg c input_data (p2pkh_script h) ex = Inr () \<and>
    (\<nexists>n. get_sigops_count stg input_data (Some (p2pkh_script h)) = Inr n)"
proof (intro exI conjI)
  have "pubkey \<noteq> []" using assms(2) by (auto simp: signed_by_def is_pubkey_compressed_def)
  then show "\<nexists>n. get_sigops_count stg (crossing_input signature pubkey h) (Some (p2pkh_script h)) = Inr n"
    using crossing_input_not_delimited [OF assms(1,3,4) _ assms(5)] count_sigops_delimited
    by (auto simp: get_sigops_count_def p2pkh_not_multisig)
qed (rule crossing_input_accepted [OF assms])

theorem push_across_boundary_witness:
  "\<exists>input_data. raw_script_eval mainnet_settings sample_crypto input_data (p2pkh_script (replicate 20 5)) sample_extras = Inr () \<and>
    (\<nexists>n. get_sigops_count mainnet_settings input_data (Some (p2pkh_script (replicate 20 5))) = Inr n)"
  by (rule push_across_boundary [OF _ sample_signed]) (simp_all add: sample_pubkey_def)

text \<open>
  C11. Oracle signatures of nano contracts can be forged: \<open>RawSignedData.checksig\<close> evaluates the
  concatenation without that count, so for every key hash, whoever can sign the data with a key of
  their own has a script input that \<open>checksig\<close> accepts against the script of that hash.
\<close>

theorem signed_data_forged:
  assumes "length h = 20" and "is_pubkey_compressed pubkey" and "valid_point c pubkey"
    and "ecdsa_verify c pubkey signature data" and "signature \<noteq> []"
    and "length signature \<le> 75" and "length pubkey \<le> 75"
  shows "\<exists>input_data. checksig stg c data input_data (p2pkh_script h) = Inr True"
proof -
  have "signed_by c (ScriptExtras (RawSignedData data)) pubkey signature"
    using assms(2-4) by (simp add: signed_by_def)
  from crossing_input_accepted [OF assms(1) this assms(5-7), of stg]
  have "execute_eval stg c (ScriptExtras (RawSignedData data)) (crossing_input signature pubkey h @ p2pkh_script h) = Inr ()"
    by (simp add: raw_script_eval_def p2pkh_not_multisig)
  then show ?thesis by (intro exI [of _ "crossing_input signature pubkey h"]) (simp add: checksig_def)
qed

theorem signed_data_forged_witness:
  "\<exists>input_data. checksig mainnet_settings sample_crypto [1, 2, 3] input_data (p2pkh_script (replicate 20 5)) = Inr True"
  by (rule signed_data_forged [of _ sample_pubkey _ "[1]"])
    (simp_all add: sample_pubkey_def sample_crypto_def is_pubkey_compressed_def)

text \<open>
  What an accepted spend of a multi-signature script shows: the input data is a well delimited part followed by one push of a
  redeem script with the right hash, which runs to exactly \<open>1\<close> on the stack the first part left; if it is the redeem script
  generated for \<open>m\<close> of some keys, that stack is \<open>m\<close> signatures, valid for \<open>m\<close> of the keys in their order.
\<close>

definition multisig_authorised :: "hathor_settings \<Rightarrow> crypto \<Rightarrow> script_extras \<Rightarrow> bytes \<Rightarrow> bytes \<Rightarrow> bool" where
  "multisig_authorised stg c ex input_data h \<longleftrightarrow>
     (\<exists>pre op redeem_script stack. input_data = pre @ op \<and> pushes op redeem_script \<and> get_hash160 c redeem_script = h \<and>
        execute_loop stg c ex pre 0 [] = Inr stack \<and> execute_loop stg c ex redeem_script 0 stack = Inr [SInt 1] \<and>
        (\<forall>m keys. generate_multisig_redeem_script stg m keys = Inr redeem_script \<and> list_all short_push keys \<longrightarrow>
           int (length stack) = m \<and> signatures_match c ex stack (rev (map SBytes keys))))"

lemma multisig_spend:
  assumes "length h = 20" and "raw_script_eval stg c input_data (multisig_script h) ex = Inr ()"
  shows "multisig_authorised stg c ex input_data h"
proof -
  obtain pre op r st where run: "input_data = pre @ op" "pushes op r" "get_hash160 c r = h"
    "execute_loop stg c ex pre 0 [] = Inr st" "execute_loop stg c ex r 0 st = Inr [SInt 1]"
    using multisig_eval_accepts [OF assms] by blast
  have "int (length st) = m \<and> signatures_match c ex st (rev (map SBytes keys))"
    if "generate_multisig_redeem_script stg m keys = Inr r" "list_all short_push keys" for m keys
    using exec_redeem_accepts [OF that, of c ex st] run(5) try_signatures_sound by blast
  then show ?thesis using run unfolding multisig_authorised_def by blast
qed

text \<open>
  C3. A multi-signature output is spent only through its redeem script: if the evaluation succeeds
  against the script of an address, the input data is a well delimited part followed by one push of
  a redeem script with the hash in the address, and running that redeem script on the stack the
  first part left ends with exactly \<open>1\<close>. If it is the redeem script generated for \<open>m\<close> of the
  keys, the first part left exactly \<open>m\<close> signatures, valid for \<open>m\<close> of the keys in their order.
\<close>

theorem multisig_spend_authorised:
  assumes "length address = 25" and "MultiSig_create_output_script address None = Inr script"
    and "raw_script_eval stg c input_data script ex = Inr ()"
  shows "\<exists>pre op redeem_script stack. input_data = pre @ op \<and> pushes op redeem_script \<and>
    get_hash160 c redeem_script = drop 1 (take 21 address) \<and>
    execute_loop stg c ex pre 0 [] = Inr stack \<and>
    execute_loop stg c ex redeem_script 0 stack = Inr [SInt 1] \<and>
    (\<forall>m keys. generate_multisig_redeem_script stg m keys = Inr redeem_script \<and> list_all short_push keys \<longrightarrow>
       int (length stack) = m \<and> signatures_match c ex stack (rev (map SBytes keys)))"
proof -
  have "script = multisig_script (drop 1 (take 21 address))"
    using assms(2) MultiSig_create_output_script_form [OF assms(1)] by simp
  then show ?thesis
    using multisig_spend [of "drop 1 (take 21 address)"] assms(1,3) by (simp add: multisig_authorised_def)
qed

definition sample_redeem :: bytes where
  "sample_redeem = [0x51] @ push_img sample_pubkey @ [0x51, 0xae]"

lemma sample_redeem_ok: "generate_multisig_redeem_script mainnet_settings 1 [sample_pubkey] = Inr sample_redeem"
  by (simp add: generate_multisig_redeem_script_def mainnet_settings_def getattr_OP_def addOpcode_def
      pushData_bytes_def sample_redeem_def push_img_def sample_pubkey_def)

lemma sample_multisig_input:
  "MultiSig_create_input_data sample_redeem [[1]] = Inr (push_img [1] @ push_img sample_redeem)"
  by (simp add: MultiSig_create_input_data_def pushData_bytes_def push_img_def sample_redeem_def sample_pubkey_def)

lemma sample_try: "try_signatures sample_crypto sample_extras [SBytes [1]] [SBytes sample_pubkey] = Inr True"
  using sample_signed op_checksig_pair [of sample_crypto sample_extras "SBytes sample_pubkey" "SBytes [1]"]
  by (simp add: sig_ok_def)

lemma sample_multisig_eval:
  "raw_script_eval mainnet_settings sample_crypto (push_img [1] @ push_img sample_redeem)
     (multisig_script (get_hash160 sample_crypto sample_redeem)) sample_extras = Inr ()"
proof -
  have p: "list_all short_push [sample_pubkey]" "list_all short_push [[1]]"
    by (simp_all add: short_push_def sample_pubkey_def)
  have t: "try_signatures sample_crypto sample_extras (rev (map SBytes [[1]])) (rev (map SBytes [sample_pubkey])) = Inr True"
    using sample_try by (simp del: try_signatures.simps)
  show ?thesis
    by (rule multisig_honest_spend [OF sample_redeem_ok p _ t sample_multisig_input]) (simp_all add: sample_hash160)
qed

theorem multisig_spend_authorised_witness:
  "\<exists>pre op redeem_script stack. push_img [1] @ push_img sample_redeem = pre @ op \<and> pushes op redeem_script \<and>
    get_hash160 sample_crypto redeem_script = replicate 20 37 \<and>
    execute_loop mainnet_settings sample_crypto sample_extras pre 0 [] = Inr stack \<and>
    execute_loop mainnet_settings sample_crypto sample_extras redeem_script 0 stack = Inr [SInt 1] \<and>
    (\<forall>m keys. generate_multisig_redeem_script mainnet_settings m keys = Inr redeem_script \<and> list_all short_push keys \<longrightarrow>
       int (length stack) = m \<and> signatures_match sample_crypto sample_extras stack (rev (map SBytes keys)))"
proof -
  let ?a = "0x64 # replicate 20 37 @ replicate 4 0"
  have s: "MultiSig_create_output_script ?a None = Inr (multisig_script (replicate 20 37))"
    using MultiSig_create_output_script_form [of ?a] by simp
  have "get_hash160 sample_crypto sample_redeem = replicate 20 37"
    by (simp add: sample_hash160 sample_redeem_def push_img_def sample_pubkey_def)
  then have e: "raw_script_eval mainnet_settings sample_crypto (push_img [1] @ push_img sample_redeem)
      (multisig_script (replicate 20 37)) sample_extras = Inr ()"
    using sample_multisig_eval by simp
  show ?thesis
    using multisig_spend_authorised [OF _ s e] by simp
qed

text \<open>
  C9. Honest multi-signature spending succeeds: with the redeem script generated for \<open>m\<close> of the keys
  and \<open>m\<close> signatures that are valid for \<open>m\<close> of the keys in their order, the input data built by
  \<open>create_input_data\<close> is accepted against the output script of the redeem script's hash.
\<close>

theorem multisig_honest_spend_accepted:
  assumes "generate_multisig_redeem_script stg m keys = Inr redeem_script" and "list_all short_push keys"
    and "list_all short_push sigs" and "int (length sigs) = m"
    and "checkable c ex (rev (map SBytes sigs)) (rev (map SBytes keys))"
    and "signatures_match c ex (rev (map SBytes sigs)) (rev (map SBytes keys))"
    and "MultiSig_create_input_data redeem_script sigs = Inr input_data"
    and "length address = 25" and "drop 1 (take 21 address) = get_hash160 c redeem_script"
    and "MultiSig_create_output_script address None = Inr script"
  shows "raw_script_eval stg c input_data script ex = Inr ()"
proof -
  have "length (get_hash160 c redeem_script) = 20" using assms(8,9) [symmetric] by simp
  moreover have "try_signatures c ex (rev (map SBytes sigs)) (rev (map SBytes keys)) = Inr True"
    using try_signatures_complete [OF assms(5)] assms(6) by simp
  moreover have "script = multisig_script (get_hash160 c redeem_script)"
    using MultiSig_create_output_script_form [OF assms(8)] assms(9,10) by simp
  ultimately show ?thesis
    using multisig_honest_spend [OF assms(1-4) _ assms(7)] by simp
qed

lemma sample_checkable: "checkable sample_crypto sample_extras [SBytes [1]] [SBytes sample_pubkey]"
  using sample_signed
  by (auto simp: checkable_def signed_by_def sample_pubkey_def is_pubkey_compressed_def sample_crypto_def)

theorem multisig_honest_spend_accepted_witness:
  "raw_script_eval mainnet_settings sample_crypto (push_img [1] @ push_img sample_redeem)
     (multisig_script (replicate 20 37)) sample_extras = Inr ()"
proof -
  let ?a = "0x64 # replicate 20 37 @ replicate 4 0"
  have s: "MultiSig_create_output_script ?a None = Inr (multisig_script (replicate 20 37))"
    using MultiSig_create_output_script_form [of ?a] by simp
  have h: "drop 1 (take 21 ?a) = get_hash160 sample_crypto sample_redeem"
    by (simp add: sample_hash160 sample_redeem_def push_img_def sample_pubkey_def)
  have m: "signatures_match sample_crypto sample_extras [SBytes [1]] [SBytes sample_pubkey]"
    using try_signatures_sound [OF sample_try] .
  show ?thesis
    by (rule multisig_honest_spend_accepted [OF sample_redeem_ok _ _ _ _ _ sample_multisig_input _ h s])
      (use sample_checkable m in \<open>simp_all add: short_push_def sample_pubkey_def\<close>)
qed

text \<open>
  C7. The greedy loop of \<open>op_checkmultisig\<close>, which advances through the keys and never goes back,
  decides whether the signatures can be assigned to keys in order: when no check raises, it answers
  true exactly if some subsequence of the keys verifies the signatures one by one.
\<close>

theorem checkmultisig_greedy_complete:
  assumes "checkable c ex signatures pubkeys"
  shows "try_signatures c ex signatures pubkeys =
    Inr (\<exists>ks. subseq ks pubkeys \<and> list_all2 (sig_ok c ex) signatures ks)"
  using try_signatures_complete [OF assms] by (simp add: signatures_match_def)

theorem checkmultisig_greedy_complete_witness:
  "try_signatures sample_crypto sample_extras [SBytes [1]] [SBytes sample_pubkey] =
    Inr (\<exists>ks. subseq ks [SBytes sample_pubkey] \<and> list_all2 (sig_ok sample_crypto sample_extras) [SBytes [1]] ks)"
  by (rule checkmultisig_greedy_complete [OF sample_checkable])

text \<open>
  C23. Eight keys are too many to spend: the settings allow redeem scripts of up to 20 keys and the
  generator makes them, but from eight compressed keys on the redeem script is longer than the 255
  bytes a push can carry, and building the input data raises \<open>ValueError\<close>.
\<close>

theorem multisig_eight_keys_unspendable:
  assumes "generate_multisig_redeem_script stg m keys = Inr redeem_script"
    and "list_all (\<lambda>k. length k = 33) keys" and "8 \<le> length keys" and "list_all short_push sigs"
  shows "MultiSig_create_input_data redeem_script sigs = Inl ValueError"
  by (rule redeem_script_too_long [OF assms])

theorem multisig_eight_keys_unspendable_witness:
  "\<exists>r. generate_multisig_redeem_script mainnet_settings 2 (replicate 8 sample_pubkey) = Inr r \<and>
    MultiSig_create_input_data r [[1], [2]] = Inl ValueError"
proof -
  obtain r where r: "generate_multisig_redeem_script mainnet_settings 2 (replicate 8 sample_pubkey) = Inr r"
    using push_all_form [of "replicate 8 sample_pubkey"]
    by (auto simp: generate_multisig_redeem_script_def mainnet_settings_def getattr_OP_def short_push_def
        sample_pubkey_def list_all_iff)
  show ?thesis
    using multisig_eight_keys_unspendable [OF r, of "[[1], [2]]"] r
    by (simp add: sample_pubkey_def short_push_def list_all_iff)
qed

text \<open>
  C20. Standard scripts are recognised: the script built for an address and a time lock of more than
  two bytes (or none) is parsed as pay-to-public-key-hash, with the address of the same key hash and
  the same time lock.
\<close>

theorem p2pkh_parse_create:
  assumes "length address = 25" and "timelock = None \<or> (\<exists>t. timelock = Some t \<and> 65535 < t \<and> t < 2 ^ 32)"
    and "P2PKH_create_output_script address timelock = Inr script"
  shows "P2PKH_parse_script stg c script =
    Inr (Some \<lparr>bs_address = get_address_b58_from_public_key_hash stg c (drop 1 (take 21 address)), bs_timelock = timelock\<rparr>)"
proof -
  have h: "length (drop 1 (take 21 address)) = 20" using assms(1) by simp
  show ?thesis
  proof (cases timelock)
    case None
    then show ?thesis
      using assms P2PKH_create_output_script_form [OF assms(1)] P2PKH_parse_plain [OF h, of "[]"]
      by (simp add: re_end_def)
  next
    case (Some t)
    then show ?thesis
      using assms P2PKH_create_timelocked [OF assms(1), of t] P2PKH_parse_timelocked [OF h, of t] by simp
  qed
qed

theorem p2pkh_parse_create_witness:
  "P2PKH_parse_script mainnet_settings sample_crypto (timelock_prefix 1000000 @ p2pkh_script (replicate 20 33)) =
    Inr (Some \<lparr>bs_address = get_address_b58_from_public_key_hash mainnet_settings sample_crypto (replicate 20 33),
      bs_timelock = Some 1000000\<rparr>)"
  using p2pkh_parse_create [OF _ _ sample_honest, of mainnet_settings sample_crypto] by simp

text \<open>
  C21. A short time lock makes an output that cannot be spent: for a time lock between 1 and 65535
  \<open>create_output_script\<close> pushes one or two bytes, the script is not recognised as
  pay-to-public-key-hash, and no input data whose signature operations can be counted is accepted.
\<close>

theorem short_timelock_unspendable:
  assumes "length address = 25" and "0 < t" and "t \<le> 65535"
    and "P2PKH_create_output_script address (Some t) = Inr script"
  shows "P2PKH_parse_script stg c script = Inr None \<and>
    (get_sigops_count stg input_data (Some script) = Inr n \<longrightarrow> raw_script_eval stg c input_data script ex \<noteq> Inr ())"
proof -
  have h: "length (drop 1 (take 21 address)) = 20" using assms(1) by simp
  have s: "script = short_timelock t @ p2pkh_script (drop 1 (take 21 address))"
    using P2PKH_create_short_timelock [OF assms(1-3)] assms(4) by simp
  show ?thesis
    using short_timelock_not_multisig [OF h, of t] short_timelock_unspendable_aux [OF h, of input_data stg c t ex]
      count_sigops_delimited
    by (auto simp: s P2PKH_parse_script_def get_sigops_count_def)
qed

theorem short_timelock_unspendable_witness:
  "P2PKH_parse_script mainnet_settings sample_crypto (short_timelock 300 @ p2pkh_script (replicate 20 33)) = Inr None \<and>
   raw_script_eval mainnet_settings sample_crypto [1, 7] (short_timelock 300 @ p2pkh_script (replicate 20 33))
     sample_extras \<noteq> Inr ()"
proof -
  let ?a = "0x28 # replicate 20 33 @ replicate 4 0"
  let ?s = "short_timelock 300 @ p2pkh_script (replicate 20 33)"
  have s: "P2PKH_create_output_script ?a (Some 300) = Inr ?s"
    using P2PKH_create_short_timelock [of ?a 300] by simp
  have "get_sigops_count mainnet_settings [1, 7] (Some ?s) = Inr 0"
    using count_sigops_sample short_timelock_not_multisig(1) [of "replicate 20 33" 300] by (simp add: get_sigops_count_def)
  then show ?thesis
    using short_timelock_unspendable [OF _ _ _ s, of mainnet_settings sample_crypto "[1, 7]" 0 sample_extras] by simp
qed

text \<open>
  C22. A final newline is accepted: the template matches the pay-to-public-key-hash script followed by
  the byte \<open>0x0a\<close>, because \<open>$\<close> matches before a final newline, and \<open>parse_script\<close> reports an address
  for it. The byte is a push of ten bytes that are not there, so no such output can be spent.
\<close>

theorem newline_script_recognised:
  assumes "length h = 20"
  shows "P2PKH_parse_script stg c (p2pkh_script h @ [0x0a]) =
      Inr (Some \<lparr>bs_address = get_address_b58_from_public_key_hash stg c h, bs_timelock = None\<rparr>) \<and>
    execute_loop stg c ex (p2pkh_script h @ [0x0a]) 0 stack \<noteq> Inr [SInt 1]"
proof -
  have nl: "execute_loop stg c ex [0x0a] 0 st = Inl (ScriptError OutOfData)" for st
    by (simp add: execute_loop.simps get_script_op_def get_data_single_byte_def get_data_bytes_def
        is_valid_opcode_def is_pushdata_def)
  have "execute_loop stg c ex (p2pkh_script h @ [0x0a]) 0 stack \<noteq> Inr st" for st
    using assms
    by (auto simp: p2pkh_script_def exec_ops exec_push_20 result_simps nl)
  then show ?thesis
    using P2PKH_parse_plain [OF assms, of "[0x0a]"] by (simp add: re_end_def)
qed

theorem newline_script_recognised_witness:
  "P2PKH_parse_script mainnet_settings sample_crypto (p2pkh_script (replicate 20 33) @ [0x0a]) =
      Inr (Some \<lparr>bs_address = get_address_b58_from_public_key_hash mainnet_settings sample_crypto (replicate 20 33),
        bs_timelock = None\<rparr>) \<and>
    execute_loop mainnet_settings sample_crypto sample_extras (p2pkh_script (replicate 20 33) @ [0x0a]) 0 [] \<noteq> Inr [SInt 1]"
  by (rule newline_script_recognised) simp

end
