(* ===== verification/Token_Amounts.thy ===== *)
theory Token_Amounts
  imports Settings
begin

text \<open>
  Deposits and withdrawals of the native token (\<^verbatim>\<open>get_deposit_amount\<close> and \<^verbatim>\<open>get_withdraw_amount\<close> of
  \<^verbatim>\<open>transaction/util.py\<close>). The code multiplies the float \<^verbatim>\<open>TOKEN_DEPOSIT_PERCENTAGE\<close> by an integer; the
  model rounds the integer and then the product to 53 binary digits, to nearest and ties to even,
  as Python does on IEEE 754 doubles. The lemmas show up to which amount the result is exact, and how far it can be off above.
\<close>

section \<open>Rounding to doubles\<close>

fun bit_length :: "nat \<Rightarrow> nat" where
  "bit_length n = (if n = 0 then 0 else Suc (bit_length (n div 2)))"

declare bit_length.simps [simp del]

definition round_double :: "nat \<Rightarrow> nat" where
  "round_double n =
     (let k = bit_length n - 53; q = n div 2 ^ k; r = n mod 2 ^ k
      in if k = 0 then n
         else if 2 * r > 2 ^ k \<or> 2 * r = 2 ^ k \<and> odd q then Suc q * 2 ^ k
         else q * 2 ^ k)"

text \<open>The product of a float \<open>m / 2 ^ e\<close> and an integer, times \<open>2 ^ e\<close>.\<close>

definition float_mul :: "nat \<times> nat \<Rightarrow> nat \<Rightarrow> nat" where
  "float_mul f n = round_double (fst f * round_double n)"

lemma bit_length_bounds: "0 < n \<Longrightarrow> 2 ^ (bit_length n - 1) \<le> n \<and> n < 2 ^ bit_length n"
proof (induction n rule: bit_length.induct)
  case (1 n)
  show ?case
  proof (cases "n = 1")
    case True
    then show ?thesis by (simp add: bit_length.simps)
  next
    case False
    then have "0 < n div 2" using 1(2) by auto
    then have ih: "2 ^ (bit_length (n div 2) - 1) \<le> n div 2" "n div 2 < 2 ^ bit_length (n div 2)"
      and pos: "0 < bit_length (n div 2)"
      using 1 by (auto simp: bit_length.simps [of "n div 2"])
    have "bit_length n = Suc (bit_length (n div 2))" using 1(2) by (simp add: bit_length.simps [of n])
    moreover have "2 * 2 ^ (bit_length (n div 2) - 1) = (2 :: nat) ^ bit_length (n div 2)"
      using pos by (cases "bit_length (n div 2)") auto
    moreover have "2 * (n div 2) \<le> n" "n < 2 * (n div 2) + 2" by auto
    ultimately show ?thesis using ih by (simp only: diff_Suc_1 power_Suc) linarith
  qed
qed

lemma bit_length_unique:
  assumes "2 ^ k \<le> n" and "n < 2 ^ Suc k"
  shows "bit_length n = Suc k"
proof -
  have n: "0 < n" using assms(1) by (metis less_le_trans zero_less_numeral zero_less_power)
  then have pos: "0 < bit_length n" by (simp add: bit_length.simps)
  have "k < bit_length n"
    using assms(1) bit_length_bounds [OF n] by (metis le_less_trans nat_power_less_imp_less zero_less_numeral)
  moreover have "bit_length n - 1 < Suc k"
    using assms(2) bit_length_bounds [OF n] by (metis le_less_trans nat_power_less_imp_less zero_less_numeral)
  ultimately show ?thesis using pos by linarith
qed

lemma bit_length_le: "n < 2 ^ k \<Longrightarrow> bit_length n \<le> k"
proof (rule ccontr)
  assume n: "n < 2 ^ k" and "\<not> bit_length n \<le> k"
  then have k: "k \<le> bit_length n - 1" and "0 < n" by (auto simp: bit_length.simps [of 0] intro: gr0I)
  have "(2 :: nat) ^ k \<le> 2 ^ (bit_length n - 1)" using k by (rule power_increasing) simp
  then show False using bit_length_bounds [OF \<open>0 < n\<close>] n by linarith
qed

lemma round_double_exact: "n < 2 ^ 53 \<Longrightarrow> round_double n = n"
  using bit_length_le [of n 53] by (simp add: round_double_def)

text \<open>Rounding moves a number by at most one part in \<open>2 ^ 53\<close>.\<close>

lemma round_double_error:
  assumes "0 < n"
  shows "2 ^ 53 * round_double n \<le> 2 ^ 53 * n + n" and "2 ^ 53 * n \<le> 2 ^ 53 * round_double n + n"
proof -
  let ?k = "bit_length n - 53"
  let ?q = "n div 2 ^ ?k" and ?r = "n mod 2 ^ ?k"
  have n: "n = ?q * 2 ^ ?k + ?r" by (rule div_mult_mod_eq [symmetric])
  have r: "?r < 2 ^ ?k" by simp
  have half: "2 ^ ?k * 2 ^ 52 \<le> n" if "?k \<noteq> 0"
  proof -
    have "bit_length n - 1 = ?k + 52" using that by simp
    then show ?thesis using bit_length_bounds [OF assms] by (simp only: power_add)
  qed
  have near: "2 * round_double n \<le> 2 * n + 2 ^ ?k \<and> 2 * n \<le> 2 * round_double n + 2 ^ ?k" if "?k \<noteq> 0"
  proof -
    have "round_double n = 2 ^ ?k + ?q * 2 ^ ?k \<and> 2 ^ ?k \<le> 2 * ?r \<or> round_double n = ?q * 2 ^ ?k \<and> 2 * ?r \<le> 2 ^ ?k"
      using that by (auto simp: round_double_def Let_def)
    then show ?thesis
      using n r by linarith
  qed
  have "round_double n = n" if "?k = 0" using that by (simp add: round_double_def)
  then show "2 ^ 53 * round_double n \<le> 2 ^ 53 * n + n" and "2 ^ 53 * n \<le> 2 ^ 53 * round_double n + n"
    using half near by (cases "?k = 0"; simp)+
qed

section \<open>Deposits\<close>

definition get_deposit_amount :: "hathor_settings \<Rightarrow> int \<Rightarrow> int" where
  "get_deposit_amount stg mint_amount =
     (let x = int (float_mul (TOKEN_DEPOSIT_PERCENTAGE stg) (nat \<bar>mint_amount\<bar>))
      in - (- x div 2 ^ snd (TOKEN_DEPOSIT_PERCENTAGE stg)))"

definition get_withdraw_amount :: "hathor_settings \<Rightarrow> int \<Rightarrow> int" where
  "get_withdraw_amount stg melt_amount =
     (let x = int (float_mul (TOKEN_DEPOSIT_PERCENTAGE stg) (nat \<bar>melt_amount\<bar>))
      in x div 2 ^ snd (TOKEN_DEPOSIT_PERCENTAGE stg))"

text \<open>A multiple of 100 gives exactly a hundredth of it: the error of the constant is below half a unit.\<close>

lemma float_mul_multiple:
  assumes "a < 2 ^ 46"
  shows "float_mul (5764607523034235, 59) (100 * a) = a * 2 ^ 59"
proof (cases "a = 0")
  case True
  then show ?thesis by (simp add: float_mul_def round_double_exact)
next
  case False
  let ?p = "5764607523034235 * (100 * a)"
  define k where "k = bit_length a"
  have k: "2 ^ (k - 1) \<le> a" "a < 2 ^ k" "0 < k" "k \<le> 46"
    using bit_length_bounds [of a] bit_length_le [OF assms] False
    by (auto simp: k_def bit_length.simps [of a])
  have pw: "(2 :: nat) ^ k = 2 * 2 ^ (k - 1)" using k(3) by (cases k) auto
  have small: "(2 :: nat) ^ k \<le> 2 ^ 46" using k(4) by (rule power_increasing) simp
  have p: "?p = a * 2 ^ 59 + 12 * a" by simp
  have "bit_length ?p = Suc (k + 58)"
  proof (rule bit_length_unique)
    have "2 ^ (k + 58) = 2 ^ (k - 1) * (2 :: nat) ^ 59" using pw by (simp add: power_add)
    then show "2 ^ (k + 58) \<le> ?p" using k(1) p by (simp add: trans_le_add1)
    have "Suc a \<le> 2 ^ k" using k(2) by simp
    then have "Suc a * 2 ^ 59 \<le> 2 ^ k * (2 :: nat) ^ 59" by (rule mult_right_mono) simp
    moreover have "12 * a < (2 :: nat) ^ 59" using k(2) small by simp
    ultimately show "?p < 2 ^ Suc (k + 58)" unfolding p by (simp add: power_add)
  qed
  then have bl: "bit_length ?p - 53 = k + 6" by simp
  have d: "(2 :: nat) ^ 59 = 2 ^ (53 - k) * 2 ^ (k + 6)"
    using k(4) by (simp flip: power_add)
  have lt: "12 * a < 2 ^ (k + 6)" "2 * (12 * a) < 2 ^ (k + 6)" using k(2) by (simp_all add: power_add)
  have "?p = a * 2 ^ (53 - k) * 2 ^ (k + 6) + 12 * a" unfolding p d by (simp add: mult.assoc)
  then have q: "?p div 2 ^ (k + 6) = a * 2 ^ (53 - k)" and r: "?p mod 2 ^ (k + 6) = 12 * a"
    using lt(1) by (simp_all only: div_mult_self3 mod_mult_self3) simp_all
  have "round_double (100 * a) = 100 * a"
    using assms by (intro round_double_exact) simp
  then have "float_mul (5764607523034235, 59) (100 * a) = a * 2 ^ (53 - k) * 2 ^ (k + 6)"
    using lt(2) unfolding float_mul_def by (simp only: fst_conv round_double_def Let_def bl q r) simp
  then show ?thesis unfolding d by (simp add: mult.assoc)
qed


lemma float_mul_between:
  assumes "0 < r" and "r < 100" and "a < 2 ^ 46"
  shows "a * 2 ^ 59 < float_mul (5764607523034235, 59) (100 * a + r)"
    and "float_mul (5764607523034235, 59) (100 * a + r) < Suc a * 2 ^ 59"
proof -
  define p where "p = 5764607523034235 * (100 * a + r)"
  define q where "q = float_mul (5764607523034235, 59) (100 * a + r)"
  have q: "q = round_double p"
    using assms by (simp add: q_def p_def float_mul_def round_double_exact)
  have p: "p = 576460752303423500 * a + 5764607523034235 * r" by (simp add: p_def)
  have pos: "0 < p" using assms(1) by (simp add: p)
  have e: "9007199254740992 * q \<le> 5192296858534828313077639689535500 * a + 51922968585348283130776396895355 * r" "5192296858534827160156135082688500 * a + 51922968585348271601561350826885 * r \<le> 9007199254740992 * q"
    using round_double_error [OF pos] by (simp_all add: q p)
  have a: "a < 70368744177664" using assms(3) by simp
  have "a * 576460752303423488 < q" using e(2) assms(1) a by simp
  moreover have "q < a * 576460752303423488 + 576460752303423488" using e(1) assms(2) a by simp
  ultimately show "a * 2 ^ 59 < float_mul (5764607523034235, 59) (100 * a + r)"
    and "float_mul (5764607523034235, 59) (100 * a + r) < Suc a * 2 ^ 59"
    by (simp_all add: q_def)
qed

lemma float_mul_hundredth:
  assumes "n < 100 * 2 ^ 46"
  shows "n div 100 * 2 ^ 59 \<le> float_mul (5764607523034235, 59) n"
    and "float_mul (5764607523034235, 59) n < Suc (n div 100) * 2 ^ 59"
    and "n mod 100 = 0 \<Longrightarrow> float_mul (5764607523034235, 59) n = n div 100 * 2 ^ 59"
    and "n mod 100 \<noteq> 0 \<Longrightarrow> n div 100 * 2 ^ 59 < float_mul (5764607523034235, 59) n"
proof -
  have a: "n div 100 < 2 ^ 46" using assms by (simp add: less_mult_imp_div_less)
  have n: "n = 100 * (n div 100) + n mod 100" by simp
  show z: "n mod 100 = 0 \<Longrightarrow> float_mul (5764607523034235, 59) n = n div 100 * 2 ^ 59"
    using float_mul_multiple [OF a] n by simp
  show b: "n mod 100 \<noteq> 0 \<Longrightarrow> n div 100 * 2 ^ 59 < float_mul (5764607523034235, 59) n"
    using float_mul_between(1) [of "n mod 100", OF _ _ a] n by simp
  show "n div 100 * 2 ^ 59 \<le> float_mul (5764607523034235, 59) n"
    using z b by (cases "n mod 100 = 0") auto
  show "float_mul (5764607523034235, 59) n < Suc (n div 100) * 2 ^ 59"
    using z float_mul_between(2) [of "n mod 100", OF _ _ a] n by (cases "n mod 100 = 0") auto
qed

lemma deposit_withdraw_exact:
  assumes "TOKEN_DEPOSIT_PERCENTAGE stg = (5764607523034235, 59)" and "\<bar>n\<bar> < 100 * 2 ^ 46"
  shows "get_deposit_amount stg n = (\<bar>n\<bar> + 99) div 100"
    and "get_withdraw_amount stg n = \<bar>n\<bar> div 100"
proof -
  define m where "m = nat \<bar>n\<bar>"
  define x where "x = float_mul (5764607523034235, 59) m"
  define d where "d = m div 100"
  have m: "\<bar>n\<bar> = int m" "m < 100 * 2 ^ 46" using assms(2) by (auto simp: m_def)
  have lo: "d * 576460752303423488 \<le> x" and hi: "x < d * 576460752303423488 + 576460752303423488"
    and z: "m mod 100 = 0 \<Longrightarrow> x = d * 576460752303423488"
    and b: "m mod 100 \<noteq> 0 \<Longrightarrow> d * 576460752303423488 < x"
    using float_mul_hundredth [OF m(2)] by (simp_all add: x_def d_def)
  have "x div 576460752303423488 = d"
    using lo hi by (intro div_nat_eqI) simp_all
  then have "int x div 576460752303423488 = int d"
    using zdiv_int [of x 576460752303423488] by simp
  then show "get_withdraw_amount stg n = \<bar>n\<bar> div 100"
    by (simp add: get_withdraw_amount_def assms(1) m(1) zdiv_int d_def flip: m_def x_def)
  have up: "get_deposit_amount stg n = - (- int x div 576460752303423488)"
    by (simp add: get_deposit_amount_def assms(1) m(1) flip: m_def x_def)
  show "get_deposit_amount stg n = (\<bar>n\<bar> + 99) div 100"
  proof (cases "m mod 100 = 0")
    case True
    then have "int x = int d * 576460752303423488" "int m = 100 * int d"
      using z by (auto simp: d_def)
    then show ?thesis by (simp add: up m(1))
  next
    case False
    have "- int x div 576460752303423488 = - int d - 1"
      using b [OF False] hi by (intro int_div_pos_eq [where r = "576460752303423488 * (int d + 1) - int x"]) auto
    moreover have "m = 100 * d + m mod 100" by (simp add: d_def)
    then have "int m = 100 * int d + int (m mod 100)" by linarith
    then have "(int m + 99) div 100 = int d + 1"
      using False by (intro int_div_pos_eq [where r = "int (m mod 100) - 1"]) auto
    ultimately show ?thesis by (simp add: up m(1))
  qed
qed

text \<open>
  On any amount an output can carry, the two roundings and the error of the constant move the product by less than 24 units.
\<close>

lemma float_mul_near:
  assumes "n < 2 ^ 63"
  shows "n * 2 ^ 59 \<le> 100 * float_mul (5764607523034235, 59) n + 2300 * 2 ^ 59"
    and "100 * float_mul (5764607523034235, 59) n \<le> n * 2 ^ 59 + 2300 * 2 ^ 59"
proof -
  define r where "r = round_double n"
  define q where "q = round_double (5764607523034235 * r)"
  have n: "n < 9223372036854775808" using assms by simp
  have q: "float_mul (5764607523034235, 59) n = q" by (simp add: float_mul_def q_def r_def)
  have zero: "round_double 0 = 0" by (rule round_double_exact) simp
  have r: "9007199254740992 * r \<le> 9007199254740993 * n" "9007199254740991 * n \<le> 9007199254740992 * r"
    using round_double_error [of n] zero by (cases "n = 0"; simp add: r_def)+
  have "9007199254740992 * q \<le> 9007199254740993 * (5764607523034235 * r)" "9007199254740991 * (5764607523034235 * r) \<le> 9007199254740992 * q"
    using round_double_error [of "5764607523034235 * r"] zero by (cases "r = 0"; simp add: q_def)+
  with r n show "n * 2 ^ 59 \<le> 100 * float_mul (5764607523034235, 59) n + 2300 * 2 ^ 59"
    and "100 * float_mul (5764607523034235, 59) n \<le> n * 2 ^ 59 + 2300 * 2 ^ 59"
    unfolding q by simp_all
qed

lemma deposit_withdraw_near:
  assumes "TOKEN_DEPOSIT_PERCENTAGE stg = (5764607523034235, 59)" and "\<bar>n\<bar> < 2 ^ 63"
  shows "\<bar>get_deposit_amount stg n - (\<bar>n\<bar> + 99) div 100\<bar> \<le> 24" and "\<bar>get_withdraw_amount stg n - \<bar>n\<bar> div 100\<bar> \<le> 24"
proof -
  define m where "m = nat \<bar>n\<bar>"
  define x where "x = int (float_mul (5764607523034235, 59) m)"
  have m: "\<bar>n\<bar> = int m" and "m < 2 ^ 63" using assms(2) by (auto simp: m_def)
  then have x: "int m * 576460752303423488 \<le> 100 * x + 1325859730297874022400"
    "100 * x \<le> int m * 576460752303423488 + 1325859730297874022400"
    using float_mul_near [of m] by (simp_all add: x_def)
  have "get_withdraw_amount stg n = x div 576460752303423488"
    by (simp add: get_withdraw_amount_def assms(1) x_def m_def)
  moreover have "get_deposit_amount stg n = - (- x div 576460752303423488)"
    by (simp add: get_deposit_amount_def assms(1) x_def m_def)
  ultimately show "\<bar>get_deposit_amount stg n - (\<bar>n\<bar> + 99) div 100\<bar> \<le> 24" and "\<bar>get_withdraw_amount stg n - \<bar>n\<bar> div 100\<bar> \<le> 24"
    using x unfolding m by linarith+
qed

section \<open>Properties\<close>

text \<open>
  C30. Deposits and withdrawals are exact on all amounts below \<open>100 * 2 ^ 46\<close>: with the percentage of
  one per cent, minting takes the hundredth part rounded up and melting returns the hundredth part
  rounded down, although both are computed in floating point.
\<close>

theorem deposit_exact:
  assumes "TOKEN_DEPOSIT_PERCENTAGE stg = (5764607523034235, 59)" and "\<bar>n\<bar> < 100 * 2 ^ 46"
  shows "get_deposit_amount stg n = (\<bar>n\<bar> + 99) div 100 \<and> get_withdraw_amount stg n = \<bar>n\<bar> div 100"
  using deposit_withdraw_exact [OF assms] by simp

theorem deposit_exact_witness:
  "get_deposit_amount mainnet_settings 1234501 = 12346 \<and> get_withdraw_amount mainnet_settings 1234501 = 12345"
  using deposit_exact [of mainnet_settings 1234501] by (simp add: mainnet_settings_def)

text \<open>
  C31. On every amount that an output can carry, below \<open>2 ^ 63\<close>, the deposit and the withdrawal computed in floating point differ
  by at most 24 units from the hundredth part rounded up or down. They are not always exact: there is an amount whose
  minting takes less than the hundredth part rounded up, and one whose melting returns more than the
  hundredth part.
\<close>

theorem deposit_error_bound:
  assumes "TOKEN_DEPOSIT_PERCENTAGE stg = (5764607523034235, 59)"
  shows "(\<forall>n. \<bar>n\<bar> < 2 ^ 63 \<longrightarrow> \<bar>get_deposit_amount stg n - (\<bar>n\<bar> + 99) div 100\<bar> \<le> 24 \<and>
      \<bar>get_withdraw_amount stg n - \<bar>n\<bar> div 100\<bar> \<le> 24) \<and>
    (\<exists>n. 0 < n \<and> n < 2 ^ 63 \<and> get_deposit_amount stg n < (n + 99) div 100) \<and>
    (\<exists>n. 0 < n \<and> n < 2 ^ 63 \<and> n div 100 < get_withdraw_amount stg (- n))"
proof (intro conjI)
  note pct = assms
  show "\<forall>n. \<bar>n\<bar> < 2 ^ 63 \<longrightarrow> \<bar>get_deposit_amount stg n - (\<bar>n\<bar> + 99) div 100\<bar> \<le> 24 \<and>
      \<bar>get_withdraw_amount stg n - \<bar>n\<bar> div 100\<bar> \<le> 24"
    using deposit_withdraw_near [OF pct] by blast
  have m: "float_mul (5764607523034235, 59) 14073748835532801 = 81129638414606681695789005144064"
  proof -
    have "bit_length 14073748835532801 = 54" using bit_length_unique [of 53 14073748835532801] by simp
    moreover have "bit_length 81129638414606683384638865408000 = 107" using bit_length_unique [of 106 81129638414606683384638865408000] by simp
    ultimately show ?thesis by (simp add: float_mul_def round_double_def)
  qed
  show "\<exists>n. 0 < n \<and> n < 2 ^ 63 \<and> get_deposit_amount stg n < (n + 99) div 100"
    by (intro exI [of _ "14073748835532801"]) (simp add: get_deposit_amount_def pct m)
  have w: "float_mul (5764607523034235, 59) 28147497671065599 = 162259276829213363391578010288128"
  proof -
    have "bit_length 28147497671065599 = 55" using bit_length_unique [of 54 28147497671065599] by simp
    moreover have "bit_length 162259276829213366769277730816000 = 108" using bit_length_unique [of 107 162259276829213366769277730816000] by simp
    ultimately show ?thesis by (simp add: float_mul_def round_double_def)
  qed
  show "\<exists>n. 0 < n \<and> n < 2 ^ 63 \<and> n div 100 < get_withdraw_amount stg (- n)"
    by (intro exI [of _ "28147497671065599"]) (simp add: get_withdraw_amount_def pct w)
qed

theorem deposit_error_bound_witness:
  "\<bar>get_deposit_amount mainnet_settings (2 ^ 62) - (2 ^ 62 + 99) div 100\<bar> \<le> 24"
proof -
  have "TOKEN_DEPOSIT_PERCENTAGE mainnet_settings = (5764607523034235, 59)" by (simp add: mainnet_settings_def)
  from deposit_error_bound [OF this] have "\<bar>get_deposit_amount mainnet_settings (2 ^ 62) - (\<bar>2 ^ 62\<bar> + 99) div 100\<bar> \<le> 24"
    by (elim conjE allE [of _ "2 ^ 62"]) simp
  then show ?thesis by simp
qed

end
