(* ===== verification/Token_Info.thy ===== *)
theory Token_Info
  imports Script_VM Token_Amounts "HOL-Library.AList"
begin

text \<open>
  The token bookkeeping of a transaction: nano contract actions (\<^verbatim>\<open>nanocontracts/types.py\<close>,
  \<^verbatim>\<open>headers/nano_header.py\<close>), the token information summed up from inputs, actions and outputs
  (\<^verbatim>\<open>transaction/transaction.py\<close>, \<^verbatim>\<open>nanocontracts/balance_rules.py\<close>) and \<^verbatim>\<open>verify_sum\<close>
  (\<^verbatim>\<open>verification/transaction_verifier.py\<close>), with what an accepted transaction does to every token.
\<close>

section \<open>Storage\<close>

text \<open>
  What verification asks of the transaction storage: the vertex with a hash, the height of a block
  (its static metadata) and the hashes of the tips of the best chain. \<^verbatim>\<open>get_transaction\<close> raises
  \<^verbatim>\<open>TransactionDoesNotExist\<close> for an unknown hash.
\<close>

record tx_storage =
  st_vertices :: "bytes \<rightharpoonup> vertex"
  st_height :: "bytes \<Rightarrow> int"
  best_block_tips :: "bytes list"

definition get_transaction :: "tx_storage \<Rightarrow> bytes \<Rightarrow> vertex result" where
  "get_transaction storage h =
     (case st_vertices storage h of None \<Rightarrow> Inl TransactionDoesNotExist | Some v \<Rightarrow> Inr v)"

definition get_spent_tx :: "tx_storage \<Rightarrow> tx_input \<Rightarrow> vertex result" where
  "get_spent_tx storage input_tx = get_transaction storage (in_tx_id input_tx)"

section \<open>Nano contract actions\<close>

datatype nc_action =
    NCDepositAction bytes int
  | NCWithdrawalAction bytes int
  | NCGrantAuthorityAction bytes bool bool
  | NCAcquireAuthorityAction bytes bool bool

fun action_token_uid :: "nc_action \<Rightarrow> bytes" where
  "action_token_uid (NCDepositAction token_uid amount) = token_uid"
| "action_token_uid (NCWithdrawalAction token_uid amount) = token_uid"
| "action_token_uid (NCGrantAuthorityAction token_uid mint melt) = token_uid"
| "action_token_uid (NCAcquireAuthorityAction token_uid mint melt) = token_uid"

fun nc_action_kind :: "nc_action \<Rightarrow> nc_action_type" where
  "nc_action_kind (NCDepositAction token_uid amount) = DEPOSIT"
| "nc_action_kind (NCWithdrawalAction token_uid amount) = WITHDRAWAL"
| "nc_action_kind (NCGrantAuthorityAction token_uid mint melt) = GRANT_AUTHORITY"
| "nc_action_kind (NCAcquireAuthorityAction token_uid mint melt) = ACQUIRE_AUTHORITY"

text \<open>The module constant \<^verbatim>\<open>HATHOR_TOKEN_UID\<close> of \<^verbatim>\<open>conf/settings.py\<close>, which the nano contract code uses.\<close>

definition NATIVE_TOKEN_UID :: bytes where
  "NATIVE_TOKEN_UID = [0]"

definition validate_authorities :: "nano_header_action \<Rightarrow> unit result" where
  "validate_authorities a = guardE (action_amount a \<le> ALL_AUTHORITIES) NCInvalidAction"

text \<open>\<^verbatim>\<open>BaseAuthorityAction.__post_init__\<close>.\<close>

definition authority_post_init :: "bytes \<Rightarrow> unit result" where
  "authority_post_init token_uid = guardE (token_uid \<noteq> NATIVE_TOKEN_UID) NCInvalidAction"

definition to_nc_action :: "hathor_settings \<Rightarrow> any_tx \<Rightarrow> nano_header_action \<Rightarrow> nc_action result" where
  "to_nc_action stg tx a =
     bindE (catchE (get_token_uid stg (as_transaction tx) (token_index a))
              (\<lambda>e. if e = IndexError then Inl NCInvalidAction else Inl e)) (\<lambda>token_uid.
     let mint = (action_amount a AND TOKEN_MINT_MASK) > 0;
         melt = (action_amount a AND TOKEN_MELT_MASK) > 0
     in case action_type a of
          DEPOSIT \<Rightarrow> Inr (NCDepositAction token_uid (action_amount a))
        | WITHDRAWAL \<Rightarrow> Inr (NCWithdrawalAction token_uid (action_amount a))
        | GRANT_AUTHORITY \<Rightarrow>
            bindE (validate_authorities a) (\<lambda>_. bindE (authority_post_init token_uid) (\<lambda>_.
            Inr (NCGrantAuthorityAction token_uid mint melt)))
        | ACQUIRE_AUTHORITY \<Rightarrow>
            bindE (validate_authorities a) (\<lambda>_. bindE (authority_post_init token_uid) (\<lambda>_.
            Inr (NCAcquireAuthorityAction token_uid mint melt))))"

fun map_result :: "('a \<Rightarrow> 'b result) \<Rightarrow> 'a list \<Rightarrow> 'b list result" where
  "map_result f [] = Inr []"
| "map_result f (x # xs) = bindE (f x) (\<lambda>y. bindE (map_result f xs) (\<lambda>ys. Inr (y # ys)))"

definition get_actions :: "hathor_settings \<Rightarrow> any_tx \<Rightarrow> nano_header \<Rightarrow> nc_action list result" where
  "get_actions stg tx h = map_result (to_nc_action stg tx) (nc_actions h)"

section \<open>Token information\<close>

record token_info =
  amount :: int
  can_mint :: bool
  can_melt :: bool

definition get_default :: token_info where
  "get_default = \<lparr>amount = 0, can_mint = False, can_melt = False\<rparr>"

text \<open>A dictionary in insertion order; \<open>AList.update\<close> is assignment to a key.\<close>

type_synonym token_dict = "(bytes \<times> token_info) list"

definition dict_get :: "token_dict \<Rightarrow> bytes \<Rightarrow> token_info" where
  "dict_get d k = (case map_of d k of None \<Rightarrow> get_default | Some info \<Rightarrow> info)"

definition spend_output :: "bytes \<Rightarrow> tx_output \<Rightarrow> token_dict \<Rightarrow> token_dict" where
  "spend_output token_uid spent_output d =
     (let token_info = dict_get d token_uid;
          token_info =
            (if is_token_authority spent_output
             then token_info\<lparr>can_mint := can_mint token_info \<or> can_mint_token spent_output,
                             can_melt := can_melt token_info \<or> can_melt_token spent_output\<rparr>
             else token_info\<lparr>amount := amount token_info - out_value spent_output\<rparr>)
      in AList.update token_uid token_info d)"

fun token_info_from_inputs ::
    "hathor_settings \<Rightarrow> tx_storage \<Rightarrow> tx_input list \<Rightarrow> token_dict \<Rightarrow> token_dict result" where
  "token_info_from_inputs stg storage [] d = Inr d"
| "token_info_from_inputs stg storage (tx_input # tx_inputs) d =
     bindE (get_spent_tx storage tx_input) (\<lambda>spent_tx.
     bindE (py_nth (v_outputs spent_tx) (in_index tx_input)) (\<lambda>spent_output.
     bindE (v_get_token_uid stg spent_tx (get_token_index spent_output)) (\<lambda>token_uid.
     token_info_from_inputs stg storage tx_inputs (spend_output token_uid spent_output d))))"

text \<open>\<^verbatim>\<open>hash\<close> asserts that the hash is set.\<close>

definition vertex_hash :: "'a generic_vertex_scheme \<Rightarrow> bytes result" where
  "vertex_hash v = (case vhash v of None \<Rightarrow> Inl AssertionError | Some h \<Rightarrow> Inr h)"

fun get_token_info_from_inputs :: "hathor_settings \<Rightarrow> tx_storage \<Rightarrow> any_tx \<Rightarrow> token_dict result" where
  "get_token_info_from_inputs stg storage (RegularTx tx) =
     token_info_from_inputs stg storage (inputs tx) [(HATHOR_TOKEN_UID stg, get_default)]"
| "get_token_info_from_inputs stg storage (TokenCreationTx tx) =
     bindE (token_info_from_inputs stg storage (inputs tx) [(HATHOR_TOKEN_UID stg, get_default)]) (\<lambda>d.
     bindE (vertex_hash tx) (\<lambda>h.
     Inr (AList.update h \<lparr>amount = 0, can_mint = True, can_melt = True\<rparr> d)))"

text \<open>The verification rules of the four actions (\<^verbatim>\<open>nanocontracts/balance_rules.py\<close>).\<close>

definition deposit_verification_rule :: "bytes \<Rightarrow> int \<Rightarrow> token_dict \<Rightarrow> token_dict result" where
  "deposit_verification_rule token_uid amt d =
     (let token_info = dict_get d token_uid
      in Inr (AList.update token_uid (token_info\<lparr>amount := amount token_info + amt\<rparr>) d))"

definition withdrawal_verification_rule :: "bytes \<Rightarrow> int \<Rightarrow> token_dict \<Rightarrow> token_dict result" where
  "withdrawal_verification_rule token_uid amt d =
     (let token_info = dict_get d token_uid
      in Inr (AList.update token_uid (token_info\<lparr>amount := amount token_info - amt\<rparr>) d))"

definition grant_verification_rule :: "bytes \<Rightarrow> bool \<Rightarrow> bool \<Rightarrow> token_dict \<Rightarrow> token_dict result" where
  "grant_verification_rule token_uid mint melt d =
     (if token_uid = NATIVE_TOKEN_UID then Inl AssertionError
      else let token_info = dict_get d token_uid
           in if mint \<and> \<not> can_mint token_info then Inl NCInvalidAction
              else if melt \<and> \<not> can_melt token_info then Inl NCInvalidAction
              else Inr d)"

definition acquire_verification_rule :: "bytes \<Rightarrow> bool \<Rightarrow> bool \<Rightarrow> token_dict \<Rightarrow> token_dict result" where
  "acquire_verification_rule token_uid mint melt d =
     (if token_uid = NATIVE_TOKEN_UID then Inl AssertionError
      else let token_info = dict_get d token_uid
           in Inr (AList.update token_uid
                (token_info\<lparr>can_mint := can_mint token_info \<or> mint, can_melt := can_melt token_info \<or> melt\<rparr>) d))"

fun verification_rule :: "nc_action \<Rightarrow> token_dict \<Rightarrow> token_dict result" where
  "verification_rule (NCDepositAction token_uid amt) d = deposit_verification_rule token_uid amt d"
| "verification_rule (NCWithdrawalAction token_uid amt) d = withdrawal_verification_rule token_uid amt d"
| "verification_rule (NCGrantAuthorityAction token_uid mint melt) d = grant_verification_rule token_uid mint melt d"
| "verification_rule (NCAcquireAuthorityAction token_uid mint melt) d = acquire_verification_rule token_uid mint melt d"

lemmas verification_rule_defs =
  deposit_verification_rule_def withdrawal_verification_rule_def grant_verification_rule_def acquire_verification_rule_def

fun verification_rules :: "nc_action list \<Rightarrow> token_dict \<Rightarrow> token_dict result" where
  "verification_rules [] d = Inr d"
| "verification_rules (action # actions) d =
     bindE (verification_rule action d) (\<lambda>d. verification_rules actions d)"

definition update_token_info_from_nano_actions :: "hathor_settings \<Rightarrow> any_tx \<Rightarrow> token_dict \<Rightarrow> token_dict result" where
  "update_token_info_from_nano_actions stg tx d =
     (if \<not> is_nano_contract tx then Inr d
      else bindE (get_nano_header tx) (\<lambda>nano_header.
           bindE (get_actions stg tx nano_header) (\<lambda>actions. verification_rules actions d)))"

definition add_output :: "bytes \<Rightarrow> tx_output \<Rightarrow> token_dict \<Rightarrow> token_dict result" where
  "add_output token_uid tx_output d =
     (case map_of d token_uid of
        None \<Rightarrow> Inl (TxValidationError InvalidToken)
      | Some token_info \<Rightarrow>
          if can_mint_token tx_output \<and> \<not> can_mint token_info then Inl (TxValidationError InvalidToken)
          else if can_melt_token tx_output \<and> \<not> can_melt token_info then Inl (TxValidationError InvalidToken)
          else if is_token_authority tx_output then
            (if out_value tx_output > ALL_AUTHORITIES then Inl (TxValidationError InvalidToken) else Inr d)
          else Inr (AList.update token_uid (token_info\<lparr>amount := amount token_info + out_value tx_output\<rparr>) d))"

fun update_token_info_from_outputs ::
    "hathor_settings \<Rightarrow> any_tx \<Rightarrow> tx_output list \<Rightarrow> token_dict \<Rightarrow> token_dict result" where
  "update_token_info_from_outputs stg tx [] d = Inr d"
| "update_token_info_from_outputs stg tx (tx_output # tx_outputs) d =
     bindE (get_token_uid stg (as_transaction tx) (get_token_index tx_output)) (\<lambda>token_uid.
     bindE (add_output token_uid tx_output d) (\<lambda>d.
     update_token_info_from_outputs stg tx tx_outputs d))"

definition get_complete_token_info :: "hathor_settings \<Rightarrow> tx_storage \<Rightarrow> any_tx \<Rightarrow> token_dict result" where
  "get_complete_token_info stg storage tx =
     bindE (get_token_info_from_inputs stg storage tx) (\<lambda>d.
     bindE (update_token_info_from_nano_actions stg tx d) (\<lambda>d.
     update_token_info_from_outputs stg tx (outputs (as_transaction tx)) d))"

section \<open>\<^verbatim>\<open>verify_sum\<close>\<close>

fun verify_sum_loop :: "hathor_settings \<Rightarrow> token_dict \<Rightarrow> int \<Rightarrow> int \<Rightarrow> (int \<times> int) result" where
  "verify_sum_loop stg [] withdraw deposit = Inr (withdraw, deposit)"
| "verify_sum_loop stg ((token_uid, token_info) # items) withdraw deposit =
     (if token_uid = HATHOR_TOKEN_UID stg then verify_sum_loop stg items withdraw deposit
      else if amount token_info = 0 then verify_sum_loop stg items withdraw deposit
      else if amount token_info < 0 then
        (if \<not> can_melt token_info then Inl (TxValidationError InputOutputMismatch)
         else verify_sum_loop stg items (withdraw + get_withdraw_amount stg (amount token_info)) deposit)
      else
        (if \<not> can_mint token_info then Inl (TxValidationError InputOutputMismatch)
         else verify_sum_loop stg items withdraw (deposit + get_deposit_amount stg (amount token_info))))"

definition verify_sum :: "hathor_settings \<Rightarrow> token_dict \<Rightarrow> unit result" where
  "verify_sum stg d =
     bindE (verify_sum_loop stg d 0 0) (\<lambda>(withdraw, deposit).
     let htr_expected_amount = withdraw - deposit in
     case map_of d (HATHOR_TOKEN_UID stg) of
       None \<Rightarrow> Inl KeyError
     | Some htr_info \<Rightarrow>
         if amount htr_info \<noteq> htr_expected_amount then Inl (TxValidationError InputOutputMismatch) else Inr ())"

section \<open>What the token information says\<close>

subsection \<open>The dictionary as a function\<close>

lemma dict_get_update [simp]: "dict_get (AList.update k v d) t = (if t = k then v else dict_get d t)"
  by (simp add: dict_get_def AList.update_conv')

lemma map_of_dict_get: "map_of d t = Some info \<Longrightarrow> dict_get d t = info"
  by (simp add: dict_get_def)

subsection \<open>Inputs, outputs and actions of each token\<close>

definition spent_output :: "hathor_settings \<Rightarrow> tx_storage \<Rightarrow> tx_input \<Rightarrow> (bytes \<times> tx_output) result" where
  "spent_output stg storage tx_input =
     bindE (get_spent_tx storage tx_input) (\<lambda>spent_tx.
     bindE (py_nth (v_outputs spent_tx) (in_index tx_input)) (\<lambda>out.
     bindE (v_get_token_uid stg spent_tx (get_token_index out)) (\<lambda>token_uid. Inr (token_uid, out))))"

definition own_output :: "hathor_settings \<Rightarrow> any_tx \<Rightarrow> tx_output \<Rightarrow> (bytes \<times> tx_output) result" where
  "own_output stg tx out =
     bindE (get_token_uid stg (as_transaction tx) (get_token_index out)) (\<lambda>token_uid. Inr (token_uid, out))"

definition tx_actions :: "hathor_settings \<Rightarrow> any_tx \<Rightarrow> nc_action list result" where
  "tx_actions stg tx =
     (if is_nano_contract tx then bindE (get_nano_header tx) (get_actions stg tx) else Inr [])"

definition token_sum :: "bytes \<Rightarrow> (bytes \<times> tx_output) list \<Rightarrow> int" where
  "token_sum t xs = (\<Sum>(u, out)\<leftarrow>xs. if u = t \<and> \<not> is_token_authority out then out_value out else 0)"

definition holds_mint :: "bytes \<Rightarrow> (bytes \<times> tx_output) list \<Rightarrow> bool" where
  "holds_mint t xs = list_ex (\<lambda>(u, out). u = t \<and> can_mint_token out) xs"

definition holds_melt :: "bytes \<Rightarrow> (bytes \<times> tx_output) list \<Rightarrow> bool" where
  "holds_melt t xs = list_ex (\<lambda>(u, out). u = t \<and> can_melt_token out) xs"

fun action_amount_of :: "bytes \<Rightarrow> nc_action \<Rightarrow> int" where
  "action_amount_of t (NCDepositAction u amt) = (if u = t then amt else 0)"
| "action_amount_of t (NCWithdrawalAction u amt) = (if u = t then - amt else 0)"
| "action_amount_of t _ = 0"

definition action_sum :: "bytes \<Rightarrow> nc_action list \<Rightarrow> int" where
  "action_sum t acts = sum_list (map (action_amount_of t) acts)"

definition acquires_mint :: "bytes \<Rightarrow> nc_action list \<Rightarrow> bool" where
  "acquires_mint t acts = (\<exists>melt. NCAcquireAuthorityAction t True melt \<in> set acts)"

definition acquires_melt :: "bytes \<Rightarrow> nc_action list \<Rightarrow> bool" where
  "acquires_melt t acts = (\<exists>mint. NCAcquireAuthorityAction t mint True \<in> set acts)"

fun created_tokens :: "any_tx \<Rightarrow> bytes set" where
  "created_tokens (RegularTx tx) = {}"
| "created_tokens (TokenCreationTx tx) = set_option (vhash tx)"

lemma token_sum_simps [simp]:
  "token_sum t [] = 0"
  "token_sum t ((u, out) # xs) = (if u = t \<and> \<not> is_token_authority out then out_value out else 0) + token_sum t xs"
  by (simp_all add: token_sum_def)

lemma holds_simps [simp]:
  "\<not> holds_mint t []" "\<not> holds_melt t []"
  "holds_mint t ((u, out) # xs) \<longleftrightarrow> u = t \<and> can_mint_token out \<or> holds_mint t xs"
  "holds_melt t ((u, out) # xs) \<longleftrightarrow> u = t \<and> can_melt_token out \<or> holds_melt t xs"
  by (simp_all add: holds_mint_def holds_melt_def)

lemma action_simps [simp]:
  "action_sum t [] = 0" "action_sum t (a # acts) = action_amount_of t a + action_sum t acts"
  "\<not> acquires_mint t []" "\<not> acquires_melt t []"
  "acquires_mint t (a # acts) \<longleftrightarrow> (\<exists>melt. a = NCAcquireAuthorityAction t True melt) \<or> acquires_mint t acts"
  "acquires_melt t (a # acts) \<longleftrightarrow> (\<exists>mint. a = NCAcquireAuthorityAction t mint True) \<or> acquires_melt t acts"
  by (auto simp: action_sum_def acquires_mint_def acquires_melt_def)

lemma not_authority_no_mint: "\<not> is_token_authority out \<Longrightarrow> \<not> can_mint_token out \<and> \<not> can_melt_token out"
  by (simp add: can_mint_token_def can_melt_token_def)

subsection \<open>Inputs\<close>

lemma token_info_from_inputs_fold:
  "token_info_from_inputs stg storage is d =
     bindE (map_result (spent_output stg storage) is) (\<lambda>ins. Inr (fold (\<lambda>(u, out). spend_output u out) ins d))"
proof (induction "is" arbitrary: d)
  case (Cons i "is")
  show ?case
    by (simp add: Cons spent_output_def bindE_assoc)
qed simp

lemma spend_outputs:
  assumes "d' = fold (\<lambda>(u, out). spend_output u out) ins d"
  shows "amount (dict_get d' t) = amount (dict_get d t) - token_sum t ins"
    and "can_mint (dict_get d' t) \<longleftrightarrow> can_mint (dict_get d t) \<or> holds_mint t ins"
    and "can_melt (dict_get d' t) \<longleftrightarrow> can_melt (dict_get d t) \<or> holds_melt t ins"
    and "fst ` set d' = fst ` set d \<union> fst ` set ins"
    and "distinct (map fst d) \<Longrightarrow> distinct (map fst d')"
proof -
  have "amount (dict_get d' t) = amount (dict_get d t) - token_sum t ins \<and>
      (can_mint (dict_get d' t) \<longleftrightarrow> can_mint (dict_get d t) \<or> holds_mint t ins) \<and>
      (can_melt (dict_get d' t) \<longleftrightarrow> can_melt (dict_get d t) \<or> holds_melt t ins) \<and>
      fst ` set d' = fst ` set d \<union> fst ` set ins \<and> (distinct (map fst d) \<longrightarrow> distinct (map fst d'))"
    using assms
  proof (induction ins arbitrary: d)
    case (Cons x ins)
    obtain u out where x: "x = (u, out)" by (cases x)
    let ?d = "spend_output u out d"
    have "amount (dict_get ?d t) = amount (dict_get d t) - (if u = t \<and> \<not> is_token_authority out then out_value out else 0)"
      and "can_mint (dict_get ?d t) \<longleftrightarrow> can_mint (dict_get d t) \<or> u = t \<and> can_mint_token out"
      and "can_melt (dict_get ?d t) \<longleftrightarrow> can_melt (dict_get d t) \<or> u = t \<and> can_melt_token out"
      and "fst ` set ?d = insert u (fst ` set d)"
      and "distinct (map fst d) \<longrightarrow> distinct (map fst ?d)"
      using not_authority_no_mint [of out] by (auto simp: spend_output_def Let_def dom_update distinct_update)
    then show ?case using Cons.IH [of ?d] Cons.prems x by auto
  qed simp
  then show "amount (dict_get d' t) = amount (dict_get d t) - token_sum t ins"
    and "can_mint (dict_get d' t) \<longleftrightarrow> can_mint (dict_get d t) \<or> holds_mint t ins"
    and "can_melt (dict_get d' t) \<longleftrightarrow> can_melt (dict_get d t) \<or> holds_melt t ins"
    and "fst ` set d' = fst ` set d \<union> fst ` set ins"
    and "distinct (map fst d) \<Longrightarrow> distinct (map fst d')"
    by blast+
qed

subsection \<open>Actions\<close>

lemma verification_rule_ok:
  assumes "verification_rule a d = Inr e"
  shows "amount (dict_get e t) = amount (dict_get d t) + action_amount_of t a"
    and "can_mint (dict_get e t) \<longleftrightarrow> can_mint (dict_get d t) \<or> (\<exists>melt. a = NCAcquireAuthorityAction t True melt)"
    and "can_melt (dict_get e t) \<longleftrightarrow> can_melt (dict_get d t) \<or> (\<exists>mint. a = NCAcquireAuthorityAction t mint True)"
    and "fst ` set d \<subseteq> fst ` set e" and "fst ` set e \<subseteq> insert (action_token_uid a) (fst ` set d)"
    and "distinct (map fst d) \<longrightarrow> distinct (map fst e)"
proof -
  show "amount (dict_get e t) = amount (dict_get d t) + action_amount_of t a"
    and "can_mint (dict_get e t) \<longleftrightarrow> can_mint (dict_get d t) \<or> (\<exists>melt. a = NCAcquireAuthorityAction t True melt)"
    and "can_melt (dict_get e t) \<longleftrightarrow> can_melt (dict_get d t) \<or> (\<exists>mint. a = NCAcquireAuthorityAction t mint True)"
    using assms by (cases a; auto simp: verification_rule_defs Let_def split: if_splits; fail)+
  have "e = d \<or> (\<exists>v. e = AList.update (action_token_uid a) v d)"
    using assms by (cases a) (auto simp: verification_rule_defs Let_def split: if_splits)
  then show "fst ` set d \<subseteq> fst ` set e" and "fst ` set e \<subseteq> insert (action_token_uid a) (fst ` set d)"
    and "distinct (map fst d) \<longrightarrow> distinct (map fst e)"
    by (elim disjE exE; simp add: dom_update distinct_update subset_insertI)+
qed

lemma verification_rules_ok:
  assumes "verification_rules acts d = Inr d'"
  shows "amount (dict_get d' t) = amount (dict_get d t) + action_sum t acts"
    and "can_mint (dict_get d' t) \<longleftrightarrow> can_mint (dict_get d t) \<or> acquires_mint t acts"
    and "can_melt (dict_get d' t) \<longleftrightarrow> can_melt (dict_get d t) \<or> acquires_melt t acts"
    and "fst ` set d \<subseteq> fst ` set d'" and "fst ` set d' \<subseteq> fst ` set d \<union> action_token_uid ` set acts"
    and "distinct (map fst d) \<Longrightarrow> distinct (map fst d')"
proof -
  have "amount (dict_get d' t) = amount (dict_get d t) + action_sum t acts \<and>
      (can_mint (dict_get d' t) \<longleftrightarrow> can_mint (dict_get d t) \<or> acquires_mint t acts) \<and>
      (can_melt (dict_get d' t) \<longleftrightarrow> can_melt (dict_get d t) \<or> acquires_melt t acts) \<and>
      fst ` set d \<subseteq> fst ` set d' \<and> fst ` set d' \<subseteq> fst ` set d \<union> action_token_uid ` set acts \<and>
      (distinct (map fst d) \<longrightarrow> distinct (map fst d'))"
    using assms
  proof (induction acts arbitrary: d)
    case (Cons a acts)
    obtain e where e: "verification_rule a d = Inr e" "verification_rules acts e = Inr d'"
      using Cons.prems by (auto simp: result_simps)
    note r = verification_rule_ok [OF e(1)]
    note ih = Cons.IH [OF e(2)]
    have s: "fst ` set e \<subseteq> fst ` set d'" "fst ` set d' \<subseteq> fst ` set e \<union> action_token_uid ` set acts" using ih by simp_all
    have "fst ` set d' \<subseteq> insert (action_token_uid a) (fst ` set d \<union> action_token_uid ` set acts)"
      using s(2) r(5) by auto
    moreover have "fst ` set d \<subseteq> fst ` set d'" using s(1) r(4) by (rule order_trans [rotated])
    ultimately show ?case
      using ih r(1-3,6) by (simp add: disj_assoc)
  qed simp
  then show "amount (dict_get d' t) = amount (dict_get d t) + action_sum t acts"
    and "can_mint (dict_get d' t) \<longleftrightarrow> can_mint (dict_get d t) \<or> acquires_mint t acts"
    and "can_melt (dict_get d' t) \<longleftrightarrow> can_melt (dict_get d t) \<or> acquires_melt t acts"
    and "fst ` set d \<subseteq> fst ` set d'" and "fst ` set d' \<subseteq> fst ` set d \<union> action_token_uid ` set acts"
    and "distinct (map fst d) \<Longrightarrow> distinct (map fst d')"
    by blast+
qed

lemma nano_actions_ok:
  "update_token_info_from_nano_actions stg tx d = bindE (tx_actions stg tx) (\<lambda>acts. verification_rules acts d)"
  by (simp add: update_token_info_from_nano_actions_def tx_actions_def bindE_assoc)

subsection \<open>Outputs\<close>

lemma add_output_ok:
  assumes "add_output u out d = Inr d'"
  shows "amount (dict_get d' t) = amount (dict_get d t) + (if u = t \<and> \<not> is_token_authority out then out_value out else 0)"
    and "can_mint (dict_get d' t) = can_mint (dict_get d t)" and "can_melt (dict_get d' t) = can_melt (dict_get d t)"
    and "fst ` set d' = fst ` set d" and "u \<in> fst ` set d" and "distinct (map fst d) \<Longrightarrow> distinct (map fst d')"
    and "can_mint_token out \<Longrightarrow> can_mint (dict_get d u)" and "can_melt_token out \<Longrightarrow> can_melt (dict_get d u)"
    and "is_token_authority out \<Longrightarrow> out_value out \<le> ALL_AUTHORITIES"
proof -
  obtain info where info: "map_of d u = Some info" using assms by (auto simp: add_output_def split: option.splits)
  then have u: "u \<in> fst ` set d" "dict_get d u = info" by (auto simp: dict_get_def dest: map_of_SomeD intro: rev_image_eqI)
  note facts = assms info u
  show "u \<in> fst ` set d" by (rule u(1))
  show "amount (dict_get d' t) = amount (dict_get d t) + (if u = t \<and> \<not> is_token_authority out then out_value out else 0)"
    using facts by (auto simp: add_output_def split: if_splits)
  show "can_mint (dict_get d' t) = can_mint (dict_get d t)" and "can_melt (dict_get d' t) = can_melt (dict_get d t)"
    and "can_mint_token out \<Longrightarrow> can_mint (dict_get d u)" and "can_melt_token out \<Longrightarrow> can_melt (dict_get d u)"
    and "is_token_authority out \<Longrightarrow> out_value out \<le> ALL_AUTHORITIES"
    using facts by (auto simp: add_output_def split: if_splits)
  have upd: "d' = d \<or> (\<exists>v. d' = AList.update u v d)"
    using facts by (auto simp: add_output_def split: if_splits)
  show "fst ` set d' = fst ` set d"
    using upd u(1) by (elim disjE exE) (simp_all add: dom_update insert_absorb)
  show "distinct (map fst d) \<Longrightarrow> distinct (map fst d')"
    using upd by (elim disjE exE) (simp_all add: distinct_update)
qed

text \<open>What an output may not have without an authority: \<open>info\<close> is the token information before it.\<close>

definition output_allowed :: "(bytes \<Rightarrow> token_info) \<Rightarrow> bytes \<times> tx_output \<Rightarrow> bool" where
  "output_allowed info p \<longleftrightarrow>
     (can_mint_token (snd p) \<longrightarrow> can_mint (info (fst p))) \<and> (can_melt_token (snd p) \<longrightarrow> can_melt (info (fst p))) \<and>
     (is_token_authority (snd p) \<longrightarrow> out_value (snd p) \<le> ALL_AUTHORITIES)"

lemma outputs_ok:
  assumes "update_token_info_from_outputs stg tx os d = Inr d'"
  shows "\<exists>outs. map_result (own_output stg tx) os = Inr outs \<and>
    (\<forall>t. amount (dict_get d' t) = amount (dict_get d t) + token_sum t outs \<and>
       can_mint (dict_get d' t) = can_mint (dict_get d t) \<and> can_melt (dict_get d' t) = can_melt (dict_get d t)) \<and>
    fst ` set d' = fst ` set d \<and> fst ` set outs \<subseteq> fst ` set d \<and> (distinct (map fst d) \<longrightarrow> distinct (map fst d')) \<and>
    list_all (output_allowed (dict_get d')) outs"
  using assms
proof (induction os arbitrary: d)
  case (Cons out os)
  obtain u e where e: "get_token_uid stg (as_transaction tx) (get_token_index out) = Inr u" "add_output u out d = Inr e"
    "update_token_info_from_outputs stg tx os e = Inr d'"
    using Cons.prems by (auto simp: result_simps)
  from Cons.IH [OF e(3)] obtain outs where outs: "map_result (own_output stg tx) os = Inr outs"
    "\<forall>t. amount (dict_get d' t) = amount (dict_get e t) + token_sum t outs \<and>
       can_mint (dict_get d' t) = can_mint (dict_get e t) \<and> can_melt (dict_get d' t) = can_melt (dict_get e t)"
    "fst ` set d' = fst ` set e" "fst ` set outs \<subseteq> fst ` set e" "distinct (map fst e) \<longrightarrow> distinct (map fst d')"
    "list_all (output_allowed (dict_get d')) outs"
    by (elim exE conjE)
  note a = add_output_ok [OF e(2)]
  have "output_allowed (dict_get d') (u, out)"
    using a(2,3,7-9) outs(2) by (simp add: output_allowed_def)
  moreover have "own_output stg tx out = Inr (u, out)" using e(1) by (simp add: own_output_def)
  ultimately show ?case
    using outs a(1-6) by (intro exI [of _ "(u, out) # outs"]) simp
qed simp

subsection \<open>The whole transaction\<close>

text \<open>
  The movements of a transaction: what it spends (of tokens it does not create), its actions and its
  outputs, each with its token.
\<close>

definition movements ::
    "hathor_settings \<Rightarrow> tx_storage \<Rightarrow> any_tx \<Rightarrow> (bytes \<times> tx_output) list \<Rightarrow> nc_action list \<Rightarrow> (bytes \<times> tx_output) list \<Rightarrow> bool" where
  "movements stg storage tx ins acts outs \<longleftrightarrow>
     (\<exists>all_ins. map_result (spent_output stg storage) (inputs (as_transaction tx)) = Inr all_ins \<and>
        ins = filter (\<lambda>(u, out). u \<notin> created_tokens tx) all_ins) \<and>
     tx_actions stg tx = Inr acts \<and>
     map_result (own_output stg tx) (outputs (as_transaction tx)) = Inr outs"

text \<open>By how much a transaction increases the circulating amount of a token.\<close>

definition net_amount :: "(bytes \<times> tx_output) list \<Rightarrow> nc_action list \<Rightarrow> (bytes \<times> tx_output) list \<Rightarrow> bytes \<Rightarrow> int" where
  "net_amount ins acts outs t = token_sum t outs + action_sum t acts - token_sum t ins"

definition may_mint :: "any_tx \<Rightarrow> (bytes \<times> tx_output) list \<Rightarrow> nc_action list \<Rightarrow> bytes \<Rightarrow> bool" where
  "may_mint tx ins acts t \<longleftrightarrow> t \<in> created_tokens tx \<or> holds_mint t ins \<or> acquires_mint t acts"

definition may_melt :: "any_tx \<Rightarrow> (bytes \<times> tx_output) list \<Rightarrow> nc_action list \<Rightarrow> bytes \<Rightarrow> bool" where
  "may_melt tx ins acts t \<longleftrightarrow> t \<in> created_tokens tx \<or> holds_melt t ins \<or> acquires_melt t acts"

lemma token_sum_filter:
  "t \<notin> S \<Longrightarrow> token_sum t (filter (\<lambda>(u, out). u \<notin> S) xs) = token_sum t xs"
  "t \<in> S \<Longrightarrow> token_sum t (filter (\<lambda>(u, out). u \<notin> S) xs) = 0"
  by (induction xs) (auto split: if_splits)

lemma holds_filter:
  "t \<notin> S \<Longrightarrow> holds_mint t (filter (\<lambda>(u, out). u \<notin> S) xs) = holds_mint t xs"
  "t \<notin> S \<Longrightarrow> holds_melt t (filter (\<lambda>(u, out). u \<notin> S) xs) = holds_melt t xs"
  by (induction xs) auto

lemma truncate_fields [simp]:
  "inputs (transaction.truncate tx) = inputs tx" "outputs (transaction.truncate tx) = outputs tx"
  "vhash (transaction.truncate tx) = vhash tx" "tokens (transaction.truncate tx) = tokens tx"
  by (simp_all add: transaction.defs)

lemma inputs_info:
  assumes "get_token_info_from_inputs stg storage tx = Inr d"
  shows "\<exists>all_ins. map_result (spent_output stg storage) (inputs (as_transaction tx)) = Inr all_ins \<and>
    (\<forall>t. let ins = filter (\<lambda>(u, out). u \<notin> created_tokens tx) all_ins in
       amount (dict_get d t) = - token_sum t ins \<and>
       (can_mint (dict_get d t) \<longleftrightarrow> t \<in> created_tokens tx \<or> holds_mint t ins) \<and>
       (can_melt (dict_get d t) \<longleftrightarrow> t \<in> created_tokens tx \<or> holds_melt t ins)) \<and>
    fst ` set d = insert (HATHOR_TOKEN_UID stg) (created_tokens tx \<union> fst ` set all_ins) \<and> distinct (map fst d)"
proof -
  let ?d0 = "[(HATHOR_TOKEN_UID stg, get_default)]"
  have d0: "amount (dict_get ?d0 t) = 0" "\<not> can_mint (dict_get ?d0 t)" "\<not> can_melt (dict_get ?d0 t)" for t
    by (simp_all add: dict_get_def get_default_def)
  show ?thesis
  proof (cases tx)
    case (RegularTx r)
    then obtain ins where ins: "map_result (spent_output stg storage) (inputs r) = Inr ins"
      "d = fold (\<lambda>(u, out). spend_output u out) ins ?d0"
      using assms by (auto simp: token_info_from_inputs_fold result_simps)
    have "filter (\<lambda>(u, out). True) ins = ins" by (rule filter_True) auto
    then show ?thesis
      using RegularTx ins(1) spend_outputs [OF ins(2)] d0 by (auto simp: Let_def)
  next
    case (TokenCreationTx r)
    then obtain ins e h where ins: "map_result (spent_output stg storage) (inputs r) = Inr ins"
      "e = fold (\<lambda>(u, out). spend_output u out) ins ?d0" "vhash r = Some h"
      "d = AList.update h \<lparr>amount = 0, can_mint = True, can_melt = True\<rparr> e"
      using assms by (auto simp: token_info_from_inputs_fold result_simps vertex_hash_def split: option.splits)
    note s = spend_outputs [OF ins(2)]
    have "fst ` set d = insert h (fst ` set e)" "distinct (map fst d)"
      using s(5) by (simp_all add: ins(4) dom_update distinct_update)
    moreover have "let ins = filter (\<lambda>(u, out). u \<notin> {h}) ins in amount (dict_get d t) = - token_sum t ins \<and>
       (can_mint (dict_get d t) \<longleftrightarrow> t \<in> {h} \<or> holds_mint t ins) \<and> (can_melt (dict_get d t) \<longleftrightarrow> t \<in> {h} \<or> holds_melt t ins)" for t
      using s(1-3) d0 token_sum_filter [of t "{h}" ins] holds_filter [of t "{h}" ins]
      unfolding Let_def ins(4) dict_get_update by (cases "t = h") simp_all
    ultimately show ?thesis
      using TokenCreationTx ins(1,3) s(4) by (intro exI [of _ ins]) (simp add: insert_commute)
  qed
qed

lemma complete_token_info:
  assumes "get_complete_token_info stg storage tx = Inr d"
  obtains ins acts outs where "movements stg storage tx ins acts outs"
    and "\<forall>t. amount (dict_get d t) = net_amount ins acts outs t"
    and "\<forall>t. can_mint (dict_get d t) \<longleftrightarrow> may_mint tx ins acts t"
    and "\<forall>t. can_melt (dict_get d t) \<longleftrightarrow> may_melt tx ins acts t"
    and "HATHOR_TOKEN_UID stg \<in> fst ` set d" and "distinct (map fst d)"
    and "list_all (output_allowed (dict_get d)) outs" and "fst ` set outs \<subseteq> fst ` set d"
proof -
  obtain d1 acts d2 where d: "get_token_info_from_inputs stg storage tx = Inr d1" "tx_actions stg tx = Inr acts"
    "verification_rules acts d1 = Inr d2" "update_token_info_from_outputs stg tx (outputs (as_transaction tx)) d2 = Inr d"
    using assms by (auto simp: get_complete_token_info_def nano_actions_ok result_simps)
  from inputs_info [OF d(1)] obtain all_ins
    where i: "map_result (spent_output stg storage) (inputs (as_transaction tx)) = Inr all_ins"
      "\<forall>t. let ins = filter (\<lambda>(u, out). u \<notin> created_tokens tx) all_ins in
       amount (dict_get d1 t) = - token_sum t ins \<and>
       (can_mint (dict_get d1 t) \<longleftrightarrow> t \<in> created_tokens tx \<or> holds_mint t ins) \<and>
       (can_melt (dict_get d1 t) \<longleftrightarrow> t \<in> created_tokens tx \<or> holds_melt t ins)"
      "fst ` set d1 = insert (HATHOR_TOKEN_UID stg) (created_tokens tx \<union> fst ` set all_ins)" "distinct (map fst d1)"
    by (elim exE conjE)
  note a = verification_rules_ok [OF d(3)]
  from outputs_ok [OF d(4)] obtain outs where o: "map_result (own_output stg tx) (outputs (as_transaction tx)) = Inr outs"
    "\<forall>t. amount (dict_get d t) = amount (dict_get d2 t) + token_sum t outs \<and>
       can_mint (dict_get d t) = can_mint (dict_get d2 t) \<and> can_melt (dict_get d t) = can_melt (dict_get d2 t)"
    "fst ` set d = fst ` set d2" "fst ` set outs \<subseteq> fst ` set d2" "distinct (map fst d2) \<longrightarrow> distinct (map fst d)"
    "list_all (output_allowed (dict_get d)) outs"
    by (elim exE conjE)
  define ins where "ins = filter (\<lambda>(u, out). u \<notin> created_tokens tx) all_ins"
  show thesis
  proof (rule that)
    show "movements stg storage tx ins acts outs"
      using i(1) d(2) o(1) by (auto simp: movements_def ins_def)
    show "\<forall>t. amount (dict_get d t) = net_amount ins acts outs t"
      using i(2) a(1) o(2) by (simp add: Let_def net_amount_def flip: ins_def)
    show "\<forall>t. can_mint (dict_get d t) \<longleftrightarrow> may_mint tx ins acts t"
      using i(2) a(2) o(2) by (simp add: Let_def may_mint_def flip: ins_def)
    show "\<forall>t. can_melt (dict_get d t) \<longleftrightarrow> may_melt tx ins acts t"
      using i(2) a(3) o(2) by (simp add: Let_def may_melt_def flip: ins_def)
    show "HATHOR_TOKEN_UID stg \<in> fst ` set d" using i(3) a(4) o(3) by auto
    show "distinct (map fst d)" using i(4) a(6) o(5) by simp
    show "list_all (output_allowed (dict_get d)) outs" by (rule o(6))
    show "fst ` set outs \<subseteq> fst ` set d" using o(3,4) by simp
  qed
qed

subsection \<open>The sums\<close>

definition sum_allowed :: "hathor_settings \<Rightarrow> bytes \<times> token_info \<Rightarrow> bool" where
  "sum_allowed stg p \<longleftrightarrow> fst p = HATHOR_TOKEN_UID stg \<or>
     (amount (snd p) < 0 \<longrightarrow> can_melt (snd p)) \<and> (0 < amount (snd p) \<longrightarrow> can_mint (snd p))"

definition withdraw_of :: "hathor_settings \<Rightarrow> bytes \<Rightarrow> int \<Rightarrow> int" where
  "withdraw_of stg t amt = (if t \<noteq> HATHOR_TOKEN_UID stg \<and> amt < 0 then get_withdraw_amount stg amt else 0)"

definition deposit_of :: "hathor_settings \<Rightarrow> bytes \<Rightarrow> int \<Rightarrow> int" where
  "deposit_of stg t amt = (if t \<noteq> HATHOR_TOKEN_UID stg \<and> 0 < amt then get_deposit_amount stg amt else 0)"

lemma verify_sum_loop_eq:
  "verify_sum_loop stg items w dp =
     (if list_all (sum_allowed stg) items
      then Inr (w + (\<Sum>(t, info)\<leftarrow>items. withdraw_of stg t (amount info)),
                dp + (\<Sum>(t, info)\<leftarrow>items. deposit_of stg t (amount info)))
      else Inl (TxValidationError InputOutputMismatch))"
proof (induction stg items w dp rule: verify_sum_loop.induct)
  case (2 stg t info items w dp)
  then show ?case
    by (cases "amount info" "0 :: int" rule: linorder_cases)
      (auto simp: sum_allowed_def withdraw_of_def deposit_of_def)
qed simp

lemma dict_get_mem: "distinct (map fst d) \<Longrightarrow> (t, info) \<in> set d \<Longrightarrow> dict_get d t = info"
  by (simp add: dict_get_def)

lemma sum_list_dict:
  assumes "distinct (map fst d)"
  shows "(\<Sum>(t, info)\<leftarrow>d. f t (amount info)) = (\<Sum>t\<in>fst ` set d. f t (amount (dict_get d t)))"
proof -
  have "amount (dict_get d (fst p)) = amount (snd p)" if "p \<in> set d" for p
    using dict_get_mem [OF assms, of "fst p" "snd p"] that by simp
  then have "(\<Sum>(t, info)\<leftarrow>d. f t (amount info)) = (\<Sum>t\<leftarrow>map fst d. f t (amount (dict_get d t)))"
    unfolding map_map by (intro arg_cong [of _ _ sum_list] map_cong) (auto simp: case_prod_beta)
  also have "\<dots> = (\<Sum>t\<in>set (map fst d). f t (amount (dict_get d t)))"
    using assms by (rule sum_list_distinct_conv_sum_set)
  finally show ?thesis by simp
qed

lemma sum_dict_support:
  assumes "distinct (map fst d)" and "\<And>t. f t 0 = 0"
  shows "(\<Sum>(t, info)\<leftarrow>d. f t (amount info)) = (\<Sum>t | f t (amount (dict_get d t)) \<noteq> 0. f t (amount (dict_get d t)))"
proof -
  have "f t (amount (dict_get d t)) = 0" if "t \<notin> fst ` set d" for t
    using that assms(2) by (simp add: dict_get_def get_default_def map_of_eq_None_iff [symmetric] image_set [symmetric])
  then have "{t. f t (amount (dict_get d t)) \<noteq> 0} \<subseteq> fst ` set d" by blast
  from sum.mono_neutral_left [OF _ this, of "\<lambda>t. f t (amount (dict_get d t))"]
  show ?thesis unfolding sum_list_dict [OF assms(1)] by simp
qed

lemma withdraw_deposit_0 [simp]: "withdraw_of stg t 0 = 0" "deposit_of stg t 0 = 0"
  by (simp_all add: withdraw_of_def deposit_of_def)

lemma list_all_dict:
  assumes "distinct (map fst d)"
  shows "list_all (sum_allowed stg) d \<longleftrightarrow>
    (\<forall>t. t \<noteq> HATHOR_TOKEN_UID stg \<longrightarrow>
       (amount (dict_get d t) < 0 \<longrightarrow> can_melt (dict_get d t)) \<and> (0 < amount (dict_get d t) \<longrightarrow> can_mint (dict_get d t)))"
    (is "_ \<longleftrightarrow> ?all")
proof
  assume l: "list_all (sum_allowed stg) d"
  show ?all
  proof (intro allI impI)
    fix t assume "t \<noteq> HATHOR_TOKEN_UID stg"
    then show "(amount (dict_get d t) < 0 \<longrightarrow> can_melt (dict_get d t)) \<and> (0 < amount (dict_get d t) \<longrightarrow> can_mint (dict_get d t))"
      using l by (cases "map_of d t")
        (auto simp: dict_get_def get_default_def list_all_iff sum_allowed_def dest!: map_of_SomeD)
  qed
next
  assume ?all
  moreover have "dict_get d (fst p) = snd p" if "p \<in> set d" for p
    using dict_get_mem [OF assms, of "fst p" "snd p"] that by simp
  ultimately show "list_all (sum_allowed stg) d" by (auto simp: list_all_iff sum_allowed_def)
qed

text \<open>
  \<^verbatim>\<open>verify_sum\<close> on a dictionary with distinct keys that has an entry for the native token, as a
  condition on the balance of every token.
\<close>

lemma verify_sum_iff:
  assumes "distinct (map fst d)" and "HATHOR_TOKEN_UID stg \<in> fst ` set d"
  shows "verify_sum stg d = Inr () \<longleftrightarrow>
    (\<forall>t. t \<noteq> HATHOR_TOKEN_UID stg \<longrightarrow>
       (amount (dict_get d t) < 0 \<longrightarrow> can_melt (dict_get d t)) \<and> (0 < amount (dict_get d t) \<longrightarrow> can_mint (dict_get d t))) \<and>
    amount (dict_get d (HATHOR_TOKEN_UID stg)) =
      (\<Sum>t | withdraw_of stg t (amount (dict_get d t)) \<noteq> 0. withdraw_of stg t (amount (dict_get d t))) -
      (\<Sum>t | deposit_of stg t (amount (dict_get d t)) \<noteq> 0. deposit_of stg t (amount (dict_get d t)))"
proof -
  obtain info where "map_of d (HATHOR_TOKEN_UID stg) = Some info"
    using assms(2) by (metis domD dom_map_of_conv_image_fst)
  then show ?thesis
    using sum_dict_support [OF assms(1), of "withdraw_of stg"] sum_dict_support [OF assms(1), of "deposit_of stg"]
    by (auto simp: verify_sum_def verify_sum_loop_eq list_all_dict [OF assms(1)] map_of_dict_get)
qed

end
