(* ===== verification/Daa.thy ===== *)
theory Daa
  imports Settings
begin

text \<open>
  The integer part of the difficulty adjustment (\<^verbatim>\<open>hathor/daa.py\<close>): block rewards, the tokens mined up to
  a height, the window of blocks the next weight depends on and the steps of the weight decay. The
  weights themselves are computed with floating point logarithms and are not modelled.
\<close>

section \<open>Rewards\<close>

definition DECIMAL_PLACES :: nat where
  "DECIMAL_PLACES = 2"

definition INITIAL_TOKENS_PER_BLOCK :: "hathor_settings \<Rightarrow> int" where
  "INITIAL_TOKENS_PER_BLOCK stg = INITIAL_TOKEN_UNITS_PER_BLOCK stg * 10 ^ DECIMAL_PLACES"

definition MINIMUM_TOKENS_PER_BLOCK :: "hathor_settings \<Rightarrow> int" where
  "MINIMUM_TOKENS_PER_BLOCK stg = MINIMUM_TOKEN_UNITS_PER_BLOCK stg * 10 ^ DECIMAL_PLACES"

definition get_tokens_issued_per_block :: "hathor_settings \<Rightarrow> int \<Rightarrow> int result" where
  "get_tokens_issued_per_block stg height =
     (case BLOCKS_PER_HALVING stg of
        None \<Rightarrow>
          bindE (guardE (MINIMUM_TOKENS_PER_BLOCK stg = INITIAL_TOKENS_PER_BLOCK stg) AssertionError) (\<lambda>_.
          Inr (MINIMUM_TOKENS_PER_BLOCK stg))
      | Some blocks_per_halving \<Rightarrow>
          let number_of_halvings = max 0 ((height - 1) div blocks_per_halving)
          in if number_of_halvings > MAXIMUM_NUMBER_OF_HALVINGS stg then Inr (MINIMUM_TOKENS_PER_BLOCK stg)
             else Inr (max (INITIAL_TOKENS_PER_BLOCK stg div 2 ^ nat number_of_halvings) (MINIMUM_TOKENS_PER_BLOCK stg)))"

text \<open>The loop over the past halvings; it returns the tokens mined in them and the reward that follows.\<close>

fun mined_tokens_loop :: "hathor_settings \<Rightarrow> int \<Rightarrow> nat \<Rightarrow> int \<Rightarrow> int \<Rightarrow> int \<times> int" where
  "mined_tokens_loop stg blocks_per_halving 0 mined_tokens tokens_per_block = (mined_tokens, tokens_per_block)"
| "mined_tokens_loop stg blocks_per_halving (Suc n) mined_tokens tokens_per_block =
     mined_tokens_loop stg blocks_per_halving n (mined_tokens + blocks_per_halving * tokens_per_block)
       (max (tokens_per_block div 2) (MINIMUM_TOKENS_PER_BLOCK stg))"

definition get_mined_tokens :: "hathor_settings \<Rightarrow> int \<Rightarrow> int result" where
  "get_mined_tokens stg height =
     (case BLOCKS_PER_HALVING stg of
        None \<Rightarrow> Inl AssertionError
      | Some blocks_per_halving \<Rightarrow>
          let number_of_halvings = max 0 ((height - 1) div blocks_per_halving);
              blocks_in_this_halving = height - number_of_halvings * blocks_per_halving;
              (mined_tokens, tokens_per_block) =
                mined_tokens_loop stg blocks_per_halving (nat number_of_halvings) 0 (INITIAL_TOKENS_PER_BLOCK stg)
          in Inr (mined_tokens + blocks_in_this_halving * tokens_per_block))"

section \<open>The window of the difficulty adjustment\<close>

definition calculate_N :: "hathor_settings \<Rightarrow> int \<Rightarrow> int" where
  "calculate_N stg parent_height = min (2 * BLOCK_DIFFICULTY_N_BLOCKS stg) (parent_height - 1)"

text \<open>
  The number of steps by which \<open>get_weight_decay_amount\<close> reduces the weight; the amount is this number
  times \<^verbatim>\<open>WEIGHT_DECAY_AMOUNT\<close>.
\<close>

definition weight_decay_windows :: "hathor_settings \<Rightarrow> int \<Rightarrow> int" where
  "weight_decay_windows stg distance =
     (if \<not> WEIGHT_DECAY_ENABLED stg then 0
      else if distance < WEIGHT_DECAY_ACTIVATE_DISTANCE stg then 0
      else let dt = distance - WEIGHT_DECAY_ACTIVATE_DISTANCE stg in 1 + dt div WEIGHT_DECAY_WINDOW_SIZE stg)"

section \<open>Rewards add up\<close>

definition halved_reward :: "hathor_settings \<Rightarrow> nat \<Rightarrow> int" where
  "halved_reward stg n = max (INITIAL_TOKENS_PER_BLOCK stg div 2 ^ n) (MINIMUM_TOKENS_PER_BLOCK stg)"

text \<open>Settings under which the two functions agree: the clamp to the minimum is never missed.\<close>

definition reward_settings_ok :: "hathor_settings \<Rightarrow> int \<Rightarrow> bool" where
  "reward_settings_ok stg blocks_per_halving \<longleftrightarrow>
     BLOCKS_PER_HALVING stg = Some blocks_per_halving \<and> 0 < blocks_per_halving \<and>
     0 \<le> MINIMUM_TOKENS_PER_BLOCK stg \<and> MINIMUM_TOKENS_PER_BLOCK stg \<le> INITIAL_TOKENS_PER_BLOCK stg \<and>
     0 \<le> MAXIMUM_NUMBER_OF_HALVINGS stg \<and>
     INITIAL_TOKENS_PER_BLOCK stg < MINIMUM_TOKENS_PER_BLOCK stg * 2 ^ Suc (nat (MAXIMUM_NUMBER_OF_HALVINGS stg))"

lemma halved_reward_step:
  assumes "reward_settings_ok stg b"
  shows "max (halved_reward stg n div 2) (MINIMUM_TOKENS_PER_BLOCK stg) = halved_reward stg (Suc n)"
proof -
  let ?q = "INITIAL_TOKENS_PER_BLOCK stg div 2 ^ n" and ?m = "MINIMUM_TOKENS_PER_BLOCK stg"
  have "?q div 2 = INITIAL_TOKENS_PER_BLOCK stg div 2 ^ Suc n"
    by (simp add: div_mult2_eq mult.commute flip: zdiv_zmult2_eq)
  moreover have "0 \<le> ?m" using assms by (simp add: reward_settings_ok_def)
  then have "?m div 2 \<le> ?m" by presburger
  moreover have "?q div 2 \<le> ?m div 2" if "?q \<le> ?m" using that by (rule zdiv_mono1) simp
  ultimately show ?thesis unfolding halved_reward_def by (cases "?q \<le> ?m") (auto simp: max_def)
qed

lemma issued_halved_reward:
  assumes "reward_settings_ok stg b"
  shows "get_tokens_issued_per_block stg height = Inr (halved_reward stg (nat ((height - 1) div b)))"
proof -
  define n where "n = nat ((height - 1) div b)"
  have n: "max 0 ((height - 1) div b) = int n" by (simp add: n_def)
  let ?M = "MAXIMUM_NUMBER_OF_HALVINGS stg"
  have "halved_reward stg n = MINIMUM_TOKENS_PER_BLOCK stg" if "?M < int n"
  proof -
    have "0 \<le> ?M" using assms by (simp add: reward_settings_ok_def)
    then have "Suc (nat ?M) \<le> n" using that by linarith
    then have "(2 :: int) ^ Suc (nat ?M) \<le> 2 ^ n" by (rule power_increasing) simp
    then have "MINIMUM_TOKENS_PER_BLOCK stg * 2 ^ Suc (nat ?M) \<le> MINIMUM_TOKENS_PER_BLOCK stg * 2 ^ n"
      using assms by (intro mult_left_mono) (simp_all add: reward_settings_ok_def)
    then have "INITIAL_TOKENS_PER_BLOCK stg < MINIMUM_TOKENS_PER_BLOCK stg * 2 ^ n"
      using assms by (simp add: reward_settings_ok_def)
    then have "INITIAL_TOKENS_PER_BLOCK stg div 2 ^ n < MINIMUM_TOKENS_PER_BLOCK stg"
      by (simp add: int_div_less mult.commute)
    then show ?thesis by (simp add: halved_reward_def)
  qed
  moreover have "BLOCKS_PER_HALVING stg = Some b" using assms by (simp add: reward_settings_ok_def)
  ultimately show ?thesis
    by (simp add: get_tokens_issued_per_block_def Let_def n halved_reward_def flip: n_def)
qed

lemma mined_tokens_loop_sum:
  assumes "reward_settings_ok stg b"
  shows "mined_tokens_loop stg b n m (halved_reward stg k) =
    (m + b * (\<Sum>i<n. halved_reward stg (k + i)), halved_reward stg (k + n))"
proof (induction n arbitrary: m k)
  case (Suc n)
  have "(\<Sum>i<Suc n. halved_reward stg (k + i)) = halved_reward stg k + (\<Sum>i<n. halved_reward stg (Suc k + i))"
    by (simp add: sum.lessThan_Suc_shift del: sum.lessThan_Suc)
  then show ?case
    using Suc [of "m + b * halved_reward stg k" "Suc k"] halved_reward_step [OF assms, of k]
    by (simp add: algebra_simps)
qed simp

lemma rewards_up_to:
  assumes "0 < b"
  shows "(\<Sum>h<k. f (nat (int h div b))) =
    b * (\<Sum>i<nat ((int k - 1) div b). f i) + (int k - int (nat ((int k - 1) div b)) * b) * f (nat ((int k - 1) div b))"
proof (induction k)
  case 0
  have "(- 1 :: int) div b = - 1" using assms by (rule div_eq_minus1)
  then show ?case by simp
next
  case (Suc k)
  show ?case
  proof (cases "k = 0")
    case True
    then show ?thesis using assms by (simp add: div_pos_pos_trivial)
  next
    case False
    define n where "n = nat ((int k - 1) div b)"
    have n: "int n = (int k - 1) div b" using False assms by (simp add: n_def pos_imp_zdiv_nonneg_iff)
    have bounds: "int n * b \<le> int k - 1" "int k - 1 < int n * b + b"
      using div_mult_mod_eq [of "int k - 1" b] pos_mod_bound [OF assms, of "int k - 1"] pos_mod_sign [OF assms, of "int k - 1"]
      unfolding n by linarith+
    consider (same) "int k div b = int n" | (halving) "int k div b = int n + 1" "int k = (int n + 1) * b"
    proof (cases "int k < int n * b + b")
      case True
      then have "int k div b = int n" using bounds by (intro int_div_pos_eq [where r = "int k - int n * b"]) (auto simp: mult.commute)
      then show thesis by (rule that(1))
    next
      case False
      then have k: "int k = (int n + 1) * b" using bounds by (simp add: algebra_simps)
      then have "int k div b = int n + 1" using assms by simp
      then show thesis using k by (rule that(2))
    qed
    then show ?thesis
    proof cases
      case same
      then show ?thesis using Suc.IH by (simp add: algebra_simps flip: n_def)
    next
      case halving
      then have m: "nat ((int (Suc k) - 1) div b) = Suc n" and q: "nat (int k div b) = Suc n" by simp_all
      have "int k - int n * b = b" and r: "int (Suc k) - int (Suc n) * b = 1"
        using halving(2) by (simp_all add: algebra_simps)
      then have "(\<Sum>h<k. f (nat (int h div b))) = b * (\<Sum>i<n. f i) + b * f n"
        using Suc.IH by (simp only: flip: n_def)
      then show ?thesis by (simp only: m r sum.lessThan_Suc q) (simp add: algebra_simps)
    qed
  qed
qed

lemma mined_tokens_sum:
  assumes "reward_settings_ok stg b"
  shows "get_mined_tokens stg (int k) = Inr (\<Sum>h<k. halved_reward stg (nat (int h div b)))"
proof -
  define n where "n = nat ((int k - 1) div b)"
  have n: "max 0 ((int k - 1) div b) = int n" by (simp add: n_def)
  have b: "0 < b" "BLOCKS_PER_HALVING stg = Some b" and start: "INITIAL_TOKENS_PER_BLOCK stg = halved_reward stg 0"
    using assms by (simp_all add: reward_settings_ok_def halved_reward_def)
  show ?thesis
    using mined_tokens_loop_sum [OF assms, of n 0 0] rewards_up_to [OF b(1), of "halved_reward stg" k]
    by (simp add: get_mined_tokens_def b(2) n start flip: n_def)
qed

section \<open>Properties\<close>

text \<open>
  C29. The closed form of the mined tokens is the sum of the rewards: for every height, the number that
  \<open>get_mined_tokens\<close> computes halving by halving is the sum of what \<open>get_tokens_issued_per_block\<close>
  issues for each height up to it.
\<close>

theorem mined_tokens_total:
  assumes "reward_settings_ok stg b"
  shows "\<exists>reward. (\<forall>h. get_tokens_issued_per_block stg h = Inr (reward h)) \<and>
    get_mined_tokens stg (int k) = Inr (\<Sum>h=1..k. reward (int h))"
proof (intro exI conjI)
  let ?reward = "\<lambda>h. halved_reward stg (nat ((h - 1) div b))"
  show "\<forall>h. get_tokens_issued_per_block stg h = Inr (?reward h)"
    using issued_halved_reward [OF assms] by simp
  show "get_mined_tokens stg (int k) = Inr (\<Sum>h=1..k. ?reward (int h))"
    unfolding mined_tokens_sum [OF assms]
    by (simp add: sum.atLeast1_atMost_eq)
qed

theorem mined_tokens_total_witness:
  "\<exists>reward. (\<forall>h. get_tokens_issued_per_block mainnet_settings h = Inr (reward h)) \<and>
    get_mined_tokens mainnet_settings (int 3000000) = Inr (\<Sum>h=1..3000000. reward (int h))"
  by (rule mined_tokens_total [where b = 1051200])
    (simp add: reward_settings_ok_def mainnet_settings_def MINIMUM_TOKENS_PER_BLOCK_def INITIAL_TOKENS_PER_BLOCK_def
      DECIMAL_PLACES_def)

text \<open>
  C32. The weight decay has one step more than documented: between two blocks at an accepted distance
  the decay takes at most 16 steps, and 16 are reached at the largest distance, where the comment of
  the settings says 15.
\<close>

theorem weight_decay_steps:
  "(distance \<le> MAX_DISTANCE_BETWEEN_BLOCKS mainnet_settings \<longrightarrow>
      weight_decay_windows mainnet_settings distance \<in> {0..16}) \<and>
   weight_decay_windows mainnet_settings (MAX_DISTANCE_BETWEEN_BLOCKS mainnet_settings) = 16"
proof -
  have "(distance - 3600) div 60 \<le> 900 div 60" if "distance \<le> 4500"
    using that by (intro zdiv_mono1) simp_all
  then show ?thesis
    by (auto simp: weight_decay_windows_def mainnet_settings_def pos_imp_zdiv_nonneg_iff)
qed

theorem weight_decay_steps_witness:
  "weight_decay_windows mainnet_settings 4000 \<in> {0..16}"
  using weight_decay_steps [of 4000] by (simp add: mainnet_settings_def)

end
