(* ===== verification/Weights.thy ===== *)
theory Weights
  imports Token_Info Daa
begin

text \<open>
  Proof of work: the weights that the difficulty adjustment asks for (\<^verbatim>\<open>daa.py\<close>), sums of weights and the
  mining target (\<^verbatim>\<open>transaction/base_transaction.py\<close>), over the blocks of a storage. The
  difficulty of a block depends on the blocks of \<open>get_block_dependencies\<close> only.
\<close>

section \<open>Vertices and blocks\<close>

text \<open>The base class of the vertex: the fields all vertices have.\<close>

fun v_base :: "vertex \<Rightarrow> generic_vertex" where
  "v_base (TxVertex tx) = generic_vertex.truncate (as_transaction tx)"
| "v_base (BlockVertex b) = generic_vertex.truncate b"

definition get_all_genesis_hashes :: "hathor_settings \<Rightarrow> bytes list" where
  "get_all_genesis_hashes stg = [GENESIS_BLOCK_HASH stg, GENESIS_TX1_HASH stg, GENESIS_TX2_HASH stg]"

definition is_genesis :: "hathor_settings \<Rightarrow> 'a generic_vertex_scheme \<Rightarrow> bool" where
  "is_genesis stg v =
     (case vhash v of None \<Rightarrow> False | Some h \<Rightarrow> List.member (get_all_genesis_hashes stg) h)"

definition sum_outputs :: "tx_output list \<Rightarrow> int" where
  "sum_outputs outs = (\<Sum>out\<leftarrow>outs. if is_token_authority out then 0 else out_value out)"

definition is_pow :: "hathor_settings \<Rightarrow> bool" where
  "is_pow stg = (CONSENSUS_ALGORITHM stg = PROOF_OF_WORK)"

definition get_block_parent_hash :: "block \<Rightarrow> bytes result" where
  "get_block_parent_hash b = py_nth (parents b) 0"

definition get_block_parent :: "tx_storage \<Rightarrow> block \<Rightarrow> block result" where
  "get_block_parent storage b =
     bindE (get_block_parent_hash b) (\<lambda>h.
     bindE (get_transaction storage h) (\<lambda>v.
     case v of BlockVertex p \<Rightarrow> Inr p | TxVertex _ \<Rightarrow> Inl AssertionError))"

definition get_height :: "tx_storage \<Rightarrow> block \<Rightarrow> int result" where
  "get_height storage b = bindE (vertex_hash b) (\<lambda>h. Inr (st_height storage h))"

section \<open>Floats\<close>

text \<open>
  A float is the pattern of its 64 bits. Its arithmetic is the machine's and the mathematical library's, and
  is a parameter, with the settings that are floats: \<open>f_of_int\<close> and \<open>f_truediv\<close> convert and divide
  the integers of the source, and the operations that may raise (division by zero, logarithm of a
  number that is not positive, overflow of a power) return a result.
\<close>

record weight_env =
  f_less :: "f64 \<Rightarrow> f64 \<Rightarrow> bool"
  f_eq :: "f64 \<Rightarrow> f64 \<Rightarrow> bool"
  f_add :: "f64 \<Rightarrow> f64 \<Rightarrow> f64"
  f_sub :: "f64 \<Rightarrow> f64 \<Rightarrow> f64"
  f_mul :: "f64 \<Rightarrow> f64 \<Rightarrow> f64"
  f_div :: "f64 \<Rightarrow> f64 \<Rightarrow> f64 result"
  f_pow :: "f64 \<Rightarrow> f64 \<Rightarrow> f64 result"
  f_log2 :: "f64 \<Rightarrow> f64 result"
  f_of_int :: "int \<Rightarrow> f64"
  f_truediv :: "int \<Rightarrow> int \<Rightarrow> f64"
  f_trunc :: "f64 \<Rightarrow> int result"
  f_isfinite :: "f64 \<Rightarrow> bool"
  MIN_BLOCK_WEIGHT :: f64
  MIN_TX_WEIGHT :: f64
  MIN_TX_WEIGHT_COEFFICIENT :: f64
  MIN_TX_WEIGHT_K :: f64
  WEIGHT_DECAY_AMOUNT :: f64
  WEIGHT_TOL :: f64
  MAX_TX_WEIGHT_DIFF :: f64
  MAX_TX_WEIGHT_DIFF_ACTIVATION :: f64
  TEST_TX_WEIGHT :: bool
  TEST_BLOCK_WEIGHT :: bool

text \<open>Python's \<^verbatim>\<open>max\<close> and \<^verbatim>\<open>min\<close> keep the first argument unless the second is larger (smaller).\<close>

definition f_max :: "weight_env \<Rightarrow> f64 \<Rightarrow> f64 \<Rightarrow> f64" where
  "f_max we a b = (if f_less we a b then b else a)"

definition f_min :: "weight_env \<Rightarrow> f64 \<Rightarrow> f64 \<Rightarrow> f64" where
  "f_min we a b = (if f_less we b a then b else a)"

section \<open>Sums of weights and the target\<close>

definition aux_calc_weight :: "weight_env \<Rightarrow> f64 \<Rightarrow> f64 \<Rightarrow> int \<Rightarrow> f64 result" where
  "aux_calc_weight we w1 w2 multiplier =
     (let a = f_max we w1 w2; b = f_min we w1 w2
      in if f_eq we b (f_of_int we 0) then Inr a
         else bindE (f_pow we (f_of_int we 2) (f_sub we b a)) (\<lambda>p.
              bindE (f_log2 we (f_add we (f_of_int we 1) (f_mul we p (f_of_int we multiplier)))) (\<lambda>l.
              Inr (f_add we a l))))"

definition sum_weights :: "weight_env \<Rightarrow> f64 \<Rightarrow> f64 \<Rightarrow> f64 result" where
  "sum_weights we w1 w2 = aux_calc_weight we w1 w2 1"

definition sub_weights :: "weight_env \<Rightarrow> f64 \<Rightarrow> f64 \<Rightarrow> f64 result" where
  "sub_weights we w1 w2 = (if f_eq we w1 w2 then Inr (f_of_int we 0) else aux_calc_weight we w1 w2 (-1))"

text \<open>\<^verbatim>\<open>int(2**(256 - (override_weight or self.weight)) - 1)\<close>; a weight of zero does not override.\<close>

definition get_target :: "weight_env \<Rightarrow> 'a generic_vertex_scheme \<Rightarrow> f64 option \<Rightarrow> int result" where
  "get_target we v override_weight =
     (if \<not> f_isfinite we (weight v) then Inl (TxValidationError WeightError)
      else
        let w = (case override_weight of
                   None \<Rightarrow> weight v
                 | Some w \<Rightarrow> if f_eq we w (f_of_int we 0) then weight v else w) in
        bindE (f_pow we (f_of_int we 2) (f_sub we (f_of_int we 256) w)) (\<lambda>p.
        f_trunc we (f_sub we p (f_of_int we 1))))"

section \<open>The difficulty of blocks\<close>

definition get_weight_decay_amount :: "hathor_settings \<Rightarrow> weight_env \<Rightarrow> int \<Rightarrow> f64" where
  "get_weight_decay_amount stg we distance =
     (if \<not> WEIGHT_DECAY_ENABLED stg then f_of_int we 0
      else if distance < WEIGHT_DECAY_ACTIVATE_DISTANCE stg then f_of_int we 0
      else f_mul we (f_of_int we (weight_decay_windows stg distance)) (WEIGHT_DECAY_AMOUNT we))"

text \<open>The loop that collects a block and its ancestors, the parent being what \<open>parent_block_getter\<close> gives.\<close>

fun collect_blocks :: "(block \<Rightarrow> block result) \<Rightarrow> nat \<Rightarrow> block \<Rightarrow> block list result" where
  "collect_blocks parent_block_getter 0 root = Inr []"
| "collect_blocks parent_block_getter (Suc n) root =
     bindE (parent_block_getter root) (\<lambda>parent.
     bindE (collect_blocks parent_block_getter n parent) (\<lambda>blocks.
     Inr (root # blocks)))"

text \<open>\<^verbatim>\<open>prefix_sum_solvetimes\<close>.\<close>

fun prefix_sums :: "int \<Rightarrow> int list \<Rightarrow> int list" where
  "prefix_sums s [] = [s]"
| "prefix_sums s (st # sts) = s # prefix_sums (s + st) sts"

text \<open>One round of the loop over the most recent blocks, on \<^verbatim>\<open>(sum_solvetimes, logsum_weights)\<close>.\<close>

definition solvetime_round ::
    "weight_env \<Rightarrow> nat \<Rightarrow> int \<Rightarrow> int list \<Rightarrow> f64 list \<Rightarrow> nat \<Rightarrow> f64 \<times> f64 \<Rightarrow> (f64 \<times> f64) result" where
  "solvetime_round we K T solvetimes weights i s =
     (let prefix_sum_solvetimes = prefix_sums 0 solvetimes;
          x = f_truediv we (prefix_sum_solvetimes ! (i + 1) - prefix_sum_solvetimes ! (i - K)) (int K)
      in bindE (f_pow we (f_sub we x (f_of_int we T)) (f_of_int we 2)) (\<lambda>sq.
         bindE (f_div we (f_mul we (f_of_int we (int K)) sq) (f_of_int we (2 * T * T))) (\<lambda>ki.
         bindE (f_div we ki (f_of_int we 5)) (\<lambda>q.
         let ki = f_max we (f_of_int we 1) q in
         bindE (f_log2 we ki) (\<lambda>l.
         bindE (sum_weights we (snd s) (f_add we l (weights ! i))) (\<lambda>logsum_weights.
         Inr (f_add we (fst s) (f_mul we ki (f_of_int we (solvetimes ! i))), logsum_weights)))))))"

fun solvetime_loop ::
    "weight_env \<Rightarrow> nat \<Rightarrow> int \<Rightarrow> int list \<Rightarrow> f64 list \<Rightarrow> nat list \<Rightarrow> f64 \<times> f64 \<Rightarrow> (f64 \<times> f64) result" where
  "solvetime_loop we K T solvetimes weights [] s = Inr s"
| "solvetime_loop we K T solvetimes weights (i # is) s =
     bindE (solvetime_round we K T solvetimes weights i s) (\<lambda>s.
     solvetime_loop we K T solvetimes weights is s)"

text \<open>The weight before the decay, from the blocks in the order of time.\<close>

definition weight_of_blocks :: "hathor_settings \<Rightarrow> weight_env \<Rightarrow> block list \<Rightarrow> f64 result" where
  "weight_of_blocks stg we blocks =
     (let N = length blocks - 1; K = N div 2; T = AVG_TIME_BETWEEN_BLOCKS stg;
          solvetimes = map (\<lambda>(prev_block, block). timestamp block - timestamp prev_block) (zip blocks (tl blocks));
          weights = map weight (tl blocks)
      in bindE (solvetime_loop we K T solvetimes weights [K..<N] (f_of_int we 0, f_of_int we 0)) (\<lambda>s.
         bindE (f_log2 we (fst s)) (\<lambda>l.
         bindE (f_log2 we (f_of_int we T)) (\<lambda>lt.
         Inr (f_add we (f_sub we (snd s) l) lt)))))"

definition calculate_next_weight ::
    "hathor_settings \<Rightarrow> weight_env \<Rightarrow> (block \<Rightarrow> int result) \<Rightarrow> block \<Rightarrow> int \<Rightarrow> (block \<Rightarrow> block result) \<Rightarrow> f64 result" where
  "calculate_next_weight stg we height parent_block ts parent_block_getter =
     (if TEST_BLOCK_WEIGHT we then Inr (f_of_int we 1)
      else bindE (height parent_block) (\<lambda>parent_height.
        let N = calculate_N stg parent_height
        in if N < 10 then Inr (MIN_BLOCK_WEIGHT we)
           else bindE (collect_blocks parent_block_getter (nat (N + 1)) parent_block) (\<lambda>blocks.
             bindE (guardE (sorted (map (\<lambda>b. - timestamp b) blocks)) AssertionError) (\<lambda>_.
             bindE (weight_of_blocks stg we (rev blocks)) (\<lambda>w.
             let w = f_sub we w (get_weight_decay_amount stg we (ts - timestamp parent_block))
             in Inr (if f_less we w (MIN_BLOCK_WEIGHT we) then MIN_BLOCK_WEIGHT we else w))))))"

definition calculate_block_difficulty ::
    "hathor_settings \<Rightarrow> weight_env \<Rightarrow> (block \<Rightarrow> int result) \<Rightarrow> block \<Rightarrow> (block \<Rightarrow> block result) \<Rightarrow> f64 result" where
  "calculate_block_difficulty stg we height block parent_block_getter =
     (if TEST_BLOCK_WEIGHT we then Inr (f_of_int we 1)
      else if is_genesis stg block then Inr (MIN_BLOCK_WEIGHT we)
      else bindE (parent_block_getter block) (\<lambda>parent_block.
        calculate_next_weight stg we height parent_block (timestamp block) parent_block_getter))"

text \<open>
  The loop appends while \<^verbatim>\<open>len(ids) <= N + 1\<close>, that is, \<open>N + 1\<close> times when \<open>N\<close> is not negative.
\<close>

fun dependencies_loop :: "(block \<Rightarrow> block result) \<Rightarrow> nat \<Rightarrow> block \<Rightarrow> bytes list \<Rightarrow> bytes list result" where
  "dependencies_loop parent_block_getter 0 parent_block ids = Inr ids"
| "dependencies_loop parent_block_getter (Suc n) parent_block ids =
     bindE (parent_block_getter parent_block) (\<lambda>parent_block.
     bindE (vertex_hash parent_block) (\<lambda>h.
     dependencies_loop parent_block_getter n parent_block (ids @ [h])))"

definition get_block_dependencies ::
    "hathor_settings \<Rightarrow> (block \<Rightarrow> int result) \<Rightarrow> block \<Rightarrow> (block \<Rightarrow> block result) \<Rightarrow> bytes list result" where
  "get_block_dependencies stg height block parent_block_getter =
     bindE (parent_block_getter block) (\<lambda>parent_block.
     bindE (height parent_block) (\<lambda>parent_height.
     bindE (vertex_hash parent_block) (\<lambda>h.
     dependencies_loop parent_block_getter (nat (calculate_N stg parent_height + 1)) parent_block [h])))"

section \<open>The weight of transactions\<close>

fun any_get_struct :: "any_tx \<Rightarrow> bytes result" where
  "any_get_struct (RegularTx tx) = tx_get_struct tx"
| "any_get_struct (TokenCreationTx tx) = tct_get_struct tx"

definition minimum_tx_weight :: "hathor_settings \<Rightarrow> weight_env \<Rightarrow> any_tx \<Rightarrow> f64 result" where
  "minimum_tx_weight stg we tx =
     (if TEST_TX_WEIGHT we then Inr (f_of_int we 1)
      else if is_genesis stg (as_transaction tx) then Inr (MIN_TX_WEIGHT we)
      else bindE (any_get_struct tx) (\<lambda>struct.
        let amount = f_truediv we (max 1 (sum_outputs (outputs (as_transaction tx)))) (10 ^ DECIMAL_PLACES) in
        bindE (f_log2 we (f_of_int we (int (length struct)))) (\<lambda>l.
        bindE (f_div we (MIN_TX_WEIGHT_K we) amount) (\<lambda>q.
        bindE (f_div we (f_of_int we 4) (f_add we (f_of_int we 1) q)) (\<lambda>r.
        let w = f_add we (f_add we (f_mul we (MIN_TX_WEIGHT_COEFFICIENT we) l) r) (f_of_int we 4)
        in Inr (f_max we w (MIN_TX_WEIGHT we)))))))"

section \<open>The dependencies are enough\<close>

lemma dependencies_loop_extends:
  "dependencies_loop g n b ids = Inr r \<Longrightarrow> \<exists>hs. r = ids @ hs \<and> length hs = n"
proof (induction n arbitrary: b ids)
  case (Suc n)
  then obtain p h where "dependencies_loop g n p (ids @ [h]) = Inr r"
    by (auto simp: result_simps)
  from Suc.IH [OF this] show ?case by auto
qed simp

text \<open>Two ways of finding parents that agree on the blocks with a hash among the dependencies collect the same blocks.\<close>

lemma collect_blocks_dependencies:
  assumes "dependencies_loop g n b ids = Inr r" "vertex_hash b = Inr h" "h \<in> set ids"
    and "\<And>b h. vertex_hash b = Inr h \<Longrightarrow> h \<in> set r \<Longrightarrow> g' b = g b"
  shows "collect_blocks g' n b = collect_blocks g n b"
  using assms(1-3)
proof (induction n arbitrary: b h ids)
  case (Suc n)
  from Suc.prems(1) obtain p k where p: "g b = Inr p" "vertex_hash p = Inr k"
      "dependencies_loop g n p (ids @ [k]) = Inr r"
    by (auto simp: result_simps)
  have "h \<in> set r" using dependencies_loop_extends [OF p(3)] Suc.prems(3) by auto
  hence "g' b = g b" using assms(4) Suc.prems(2) by blast
  with p Suc.IH [OF p(3,2)] show ?case by simp
qed simp

text \<open>
  C28. The hashes that \<^verbatim>\<open>get_block_dependencies\<close> returns are enough to compute the difficulty of the block: any
  other way of finding parent blocks that gives the same parents for the block itself and for the blocks with these
  hashes gives the same difficulty. There are \<open>N + 2\<close> of them for a window of \<open>N\<close> blocks.
\<close>

theorem difficulty_dependencies:
  assumes "get_block_dependencies stg height block getter = Inr ids"
    and "getter' block = getter block"
    and "\<And>b h. vertex_hash b = Inr h \<Longrightarrow> h \<in> set ids \<Longrightarrow> getter' b = getter b"
  shows "calculate_block_difficulty stg we height block getter' = calculate_block_difficulty stg we height block getter \<and>
         (\<forall>p n. getter block = Inr p \<longrightarrow> height p = Inr n \<longrightarrow> int (length ids) = max 1 (calculate_N stg n + 2))"
proof -
  from assms(1) obtain p n h where p: "getter block = Inr p" "height p = Inr n" "vertex_hash p = Inr h"
      and loop: "dependencies_loop getter (nat (calculate_N stg n + 1)) p [h] = Inr ids"
    by (auto simp: get_block_dependencies_def result_simps)
  have "int (length ids) = max 1 (calculate_N stg n + 2)"
    using dependencies_loop_extends [OF loop] by auto
  moreover have "collect_blocks getter' (nat (calculate_N stg n + 1)) p = collect_blocks getter (nat (calculate_N stg n + 1)) p"
    by (rule collect_blocks_dependencies [OF loop p(3) _ assms(3)]) simp_all
  hence "calculate_block_difficulty stg we height block getter' = calculate_block_difficulty stg we height block getter"
    using p(1,2) assms(2) by (simp add: calculate_block_difficulty_def calculate_next_weight_def Let_def)
  ultimately show ?thesis using p by auto
qed

text \<open>A chain of blocks in which the block with hash \<open>n\<close> follows the one with hash \<open>n - 1\<close>.\<close>

definition demo_block :: "byte \<Rightarrow> block" where
  "demo_block n =
     \<lparr>nonce = 0, timestamp = 30 * uint n, signal_bits = 0, version = 0, weight = 0, inputs = [], outputs = [],
      parents = [[n - 1]], headers = [], vhash = Some [n], block_data = []\<rparr>"

definition demo_getter :: "block \<Rightarrow> block result" where
  "demo_getter b = (case vhash b of Some (n # _) \<Rightarrow> Inr (demo_block (n - 1)) | _ \<Rightarrow> Inl AssertionError)"

text \<open>A node that has only the blocks from 2 on.\<close>

definition demo_pruned_getter :: "block \<Rightarrow> block result" where
  "demo_pruned_getter b = (if vhash b = Some [1] then Inl TransactionDoesNotExist else demo_getter b)"

lemma demo_blocks:
  "vertex_hash (demo_block n) = Inr [n]" "demo_getter (demo_block n) = Inr (demo_block (n - 1))"
  by (simp_all add: demo_block_def demo_getter_def vertex_hash_def)

lemma demo_window:
  "nat (calculate_N mainnet_settings 11 + 1) = Suc (Suc (Suc (Suc (Suc (Suc (Suc (Suc (Suc (Suc (Suc 0))))))))))"
  by (simp add: calculate_N_def mainnet_settings_def)

theorem difficulty_dependencies_witness:
  "get_block_dependencies mainnet_settings (\<lambda>_. Inr 11) (demo_block 14) demo_getter =
     Inr [[13], [12], [11], [10], [9], [8], [7], [6], [5], [4], [3], [2]] \<and>
   (\<forall>we. calculate_block_difficulty mainnet_settings we (\<lambda>_. Inr 11) (demo_block 14) demo_pruned_getter =
          calculate_block_difficulty mainnet_settings we (\<lambda>_. Inr 11) (demo_block 14) demo_getter)"
proof -
  let ?ids = "[[13], [12], [11], [10], [9], [8], [7], [6], [5], [4], [3], [2]] :: bytes list"
  have ids: "get_block_dependencies mainnet_settings (\<lambda>_. Inr 11) (demo_block 14) demo_getter = Inr ?ids"
    by (simp add: get_block_dependencies_def demo_blocks demo_window)
  have block: "demo_pruned_getter (demo_block 14) = demo_getter (demo_block 14)"
    by (simp add: demo_pruned_getter_def demo_block_def)
  have same: "demo_pruned_getter b = demo_getter b" if hash: "vertex_hash b = Inr h" and mem: "h \<in> set ?ids" for b h
  proof -
    have "h \<noteq> [1]" using mem by (cases "h = [1]") simp_all
    with hash have "vhash b \<noteq> Some [1]" by (simp add: vertex_hash_def split: option.splits)
    thus ?thesis by (simp add: demo_pruned_getter_def)
  qed
  have "calculate_block_difficulty mainnet_settings we (\<lambda>_. Inr 11) (demo_block 14) demo_pruned_getter =
      calculate_block_difficulty mainnet_settings we (\<lambda>_. Inr 11) (demo_block 14) demo_getter" for we
    by (rule conjunct1 [OF difficulty_dependencies [OF ids block same]])
  with ids show ?thesis by simp
qed

end
