(* ===== verification/Tx_Verification.thy ===== *)
theory Tx_Verification
  imports Weights Script_Proofs
begin

text \<open>
  Verification of vertices (\<^verbatim>\<open>hathor/verification\<close>, \<^verbatim>\<open>hathor/reward_lock\<close>): the checks of
  \<^verbatim>\<open>vertex_verifier.py\<close>, \<^verbatim>\<open>transaction_verifier.py\<close>, \<^verbatim>\<open>token_creation_transaction_verifier.py\<close>,
  \<^verbatim>\<open>nano_header_verifier.py\<close> and \<^verbatim>\<open>block_verifier.py\<close>, in the order in which
  \<^verbatim>\<open>verification_service.py\<close> runs them. A check returns \<open>Inr ()\<close> or the exception it raises.
\<close>

section \<open>Vertices in verification\<close>

text \<open>What a vertex's static metadata gives to verification.\<close>

record vertex_static =
  sm_height :: int
  sm_min_height :: int

section \<open>All vertices (\<^verbatim>\<open>vertex_verifier.py\<close>)\<close>

text \<open>
  The versions by their numbers: regular block 0, regular transaction 1, token creation 2, merge
  mined block 3, proof-of-authority block 5, on-chain blueprint 6.
\<close>

fun get_valid_vertex_versions :: "consensus_type \<Rightarrow> bool \<Rightarrow> int list" where
  "get_valid_vertex_versions PROOF_OF_WORK include_genesis = [0, 1, 2, 3]"
| "get_valid_vertex_versions PROOF_OF_AUTHORITY include_genesis = [5, 1, 2] @ (if include_genesis then [0] else [])"

definition is_vertex_version_valid :: "hathor_settings \<Rightarrow> int \<Rightarrow> bool \<Rightarrow> bool" where
  "is_vertex_version_valid stg ver include_genesis =
     List.member (get_valid_vertex_versions (CONSENSUS_ALGORITHM stg) include_genesis) ver"

definition verify_version :: "hathor_settings \<Rightarrow> vertex \<Rightarrow> unit result" where
  "verify_version stg v =
     guardE (is_vertex_version_valid stg (version (v_base v)) False) (TxValidationError InvalidVersionError)"

text \<open>
  The inner loop over the parents of a parent block looks up \<^verbatim>\<open>parent_hash\<close>, not \<^verbatim>\<open>pi_hash\<close>.
\<close>

fun block_parent_loop ::
    "tx_storage \<Rightarrow> bytes \<Rightarrow> bytes list \<Rightarrow> int option \<Rightarrow> int option result" where
  "block_parent_loop storage parent_hash [] min_timestamp = Inr min_timestamp"
| "block_parent_loop storage parent_hash (pi_hash # pi_hashes) min_timestamp =
     bindE (get_transaction storage parent_hash) (\<lambda>pi.
     block_parent_loop storage parent_hash pi_hashes
       (if \<not> v_is_block pi then
          Some (case min_timestamp of None \<Rightarrow> v_timestamp pi | Some m \<Rightarrow> min m (v_timestamp pi))
        else min_timestamp))"

record parents_state =
  my_parents_txs :: int
  my_parents_blocks :: int
  min_timestamp :: "int option"

definition verify_parent ::
    "hathor_settings \<Rightarrow> tx_storage \<Rightarrow> vertex \<Rightarrow> bytes \<Rightarrow> parents_state \<Rightarrow> parents_state result" where
  "verify_parent stg storage v parent_hash s =
     catchE
       (bindE (get_transaction storage parent_hash) (\<lambda>parent.
        if v_timestamp v \<le> v_timestamp parent then Inl (TxValidationError TimestampError)
        else if v_is_block parent then
          (if v_is_block v \<and> \<not> is_genesis stg (v_base parent)
              \<and> v_timestamp v - v_timestamp parent > MAX_DISTANCE_BETWEEN_BLOCKS stg
           then Inl (TxValidationError TimestampError)
           else if my_parents_txs s > 0 then Inl (TxValidationError IncorrectParents)
           else bindE (block_parent_loop storage parent_hash (v_parents parent) (min_timestamp s)) (\<lambda>m.
                Inr (s\<lparr>my_parents_blocks := my_parents_blocks s + 1, min_timestamp := m\<rparr>)))
        else
          (if (case min_timestamp s of None \<Rightarrow> False | Some m \<Rightarrow> m \<noteq> 0 \<and> v_timestamp parent < m)
           then Inl (TxValidationError TimestampError)
           else Inr (s\<lparr>my_parents_txs := my_parents_txs s + 1\<rparr>))))
       (\<lambda>e. if e = TransactionDoesNotExist then Inl (TxValidationError ParentDoesNotExist) else Inl e)"

fun verify_parents_loop ::
    "hathor_settings \<Rightarrow> tx_storage \<Rightarrow> vertex \<Rightarrow> bytes list \<Rightarrow> parents_state \<Rightarrow> parents_state result" where
  "verify_parents_loop stg storage v [] s = Inr s"
| "verify_parents_loop stg storage v (parent_hash # parent_hashes) s =
     bindE (verify_parent stg storage v parent_hash s) (\<lambda>s.
     verify_parents_loop stg storage v parent_hashes s)"

definition verify_parents :: "hathor_settings \<Rightarrow> tx_storage \<Rightarrow> vertex \<Rightarrow> unit result" where
  "verify_parents stg storage v =
     (if \<not> distinct (v_parents v) then Inl (TxValidationError DuplicatedParents)
      else bindE (verify_parents_loop stg storage v (v_parents v)
                    \<lparr>my_parents_txs = 0, my_parents_blocks = 0, min_timestamp = None\<rparr>) (\<lambda>s.
        let parents_txs = 2; parents_blocks = (if v_is_block v then 1 else 0)
        in if my_parents_blocks s \<noteq> parents_blocks then Inl (TxValidationError IncorrectParents)
           else if my_parents_txs s \<noteq> parents_txs then Inl (TxValidationError IncorrectParents)
           else Inr ()))"

definition verify_pow :: "hathor_settings \<Rightarrow> weight_env \<Rightarrow> 'a generic_vertex_scheme \<Rightarrow> f64 option \<Rightarrow> unit result" where
  "verify_pow stg we v override_weight =
     bindE (guardE (is_pow stg) AssertionError) (\<lambda>_.
     bindE (vertex_hash v) (\<lambda>h.
     let numeric_hash = int_from_bytes False h in
     bindE (get_target we v override_weight) (\<lambda>minimum_target.
     guardE (\<not> numeric_hash \<ge> minimum_target) (TxValidationError PowError))))"

definition verify_number_of_outputs :: "hathor_settings \<Rightarrow> tx_output list \<Rightarrow> unit result" where
  "verify_number_of_outputs stg outs =
     guardE (\<not> int (length outs) > MAX_NUM_OUTPUTS stg) (TxValidationError TooManyOutputs)"

fun verify_outputs_loop :: "hathor_settings \<Rightarrow> tx_output list \<Rightarrow> unit result" where
  "verify_outputs_loop stg [] = Inr ()"
| "verify_outputs_loop stg (out # outs) =
     (if get_token_index out = 0 \<and> is_token_authority out then Inl (TxValidationError InvalidToken)
      else if out_value out \<le> 0 then Inl (TxValidationError InvalidOutputValue)
      else if int (length (out_script out)) > MAX_OUTPUT_SCRIPT_SIZE stg
        then Inl (TxValidationError InvalidOutputScriptSize)
      else verify_outputs_loop stg outs)"

definition verify_outputs :: "hathor_settings \<Rightarrow> tx_output list \<Rightarrow> unit result" where
  "verify_outputs stg outs =
     bindE (verify_number_of_outputs stg outs) (\<lambda>_. verify_outputs_loop stg outs)"

fun sigops_output_loop :: "hathor_settings \<Rightarrow> tx_output list \<Rightarrow> int \<Rightarrow> int result" where
  "sigops_output_loop stg [] n_txops = Inr n_txops"
| "sigops_output_loop stg (out # outs) n_txops =
     bindE (get_sigops_count stg (out_script out) None) (\<lambda>n. sigops_output_loop stg outs (n_txops + n))"

definition verify_sigops_output :: "hathor_settings \<Rightarrow> tx_output list \<Rightarrow> unit result" where
  "verify_sigops_output stg outs =
     bindE (sigops_output_loop stg outs 0) (\<lambda>n_txops.
     guardE (\<not> n_txops > MAX_TX_SIGOPS_OUTPUT stg) (TxValidationError TooManySigOps))"

text \<open>Whether the nano header, the only header type, is allowed for a version.\<close>

definition nano_header_allowed :: "hathor_settings \<Rightarrow> int \<Rightarrow> bool" where
  "nano_header_allowed stg ver = (List.member [1, 2] ver \<and> ENABLE_NANO_CONTRACTS stg)"

definition verify_headers :: "hathor_settings \<Rightarrow> vertex \<Rightarrow> unit result" where
  "verify_headers stg v =
     (let hs = headers (v_base v)
      in if length hs > get_maximum_number_of_headers then Inl (TxValidationError TooManyHeaders)
         else if hs \<noteq> [] \<and> \<not> nano_header_allowed stg (version (v_base v))
           then Inl (TxValidationError HeaderNotSupported)
         else Inr ())"

section \<open>Reward lock (\<^verbatim>\<open>reward_lock.py\<close>)\<close>

fun min_height_of :: "tx_storage \<Rightarrow> bytes list \<Rightarrow> int option \<Rightarrow> int option result" where
  "min_height_of storage [] best_height = Inr best_height"
| "min_height_of storage (tip # tips) best_height =
     bindE (get_transaction storage tip) (\<lambda>blk.
     bindE (guardE (v_is_block blk) AssertionError) (\<lambda>_.
     let h = st_height storage tip in
     min_height_of storage tips (Some (case best_height of None \<Rightarrow> h | Some b \<Rightarrow> min b h))))"

definition get_minimum_best_height :: "tx_storage \<Rightarrow> int result" where
  "get_minimum_best_height storage =
     bindE (guardE (best_block_tips storage \<noteq> []) AssertionError) (\<lambda>_.
     bindE (min_height_of storage (best_block_tips storage) None) (\<lambda>best_height.
     case best_height of None \<Rightarrow> Inl AssertionError | Some h \<Rightarrow> Inr h))"

definition spent_reward_needed_height :: "hathor_settings \<Rightarrow> int \<Rightarrow> int \<Rightarrow> int" where
  "spent_reward_needed_height stg spent_height best_height =
     (let spend_blocks = best_height - spent_height;
          needed_height = REWARD_SPEND_MIN_BLOCKS stg - spend_blocks
      in max needed_height 0)"

text \<open>The loop over the spent rewards; the result is the locked block and the height it needs.\<close>

fun reward_locked_loop ::
    "hathor_settings \<Rightarrow> tx_storage \<Rightarrow> int \<Rightarrow> tx_input list \<Rightarrow> (bytes \<times> int) option result" where
  "reward_locked_loop stg storage best_height [] = Inr None"
| "reward_locked_loop stg storage best_height (input_tx # input_txs) =
     bindE (get_transaction storage (in_tx_id input_tx)) (\<lambda>spent_tx.
     if v_is_block spent_tx then
       (let needed_height = spent_reward_needed_height stg (st_height storage (in_tx_id input_tx)) best_height
        in if needed_height > 0 then Inr (Some (in_tx_id input_tx, needed_height))
           else reward_locked_loop stg storage best_height input_txs)
     else reward_locked_loop stg storage best_height input_txs)"

definition get_spent_reward_locked_info ::
    "hathor_settings \<Rightarrow> tx_storage \<Rightarrow> any_tx \<Rightarrow> (bytes \<times> int) option result" where
  "get_spent_reward_locked_info stg storage tx =
     bindE (get_minimum_best_height storage) (\<lambda>best_height.
     reward_locked_loop stg storage best_height (inputs (as_transaction tx)))"

section \<open>Transactions (\<^verbatim>\<open>transaction_verifier.py\<close>)\<close>

definition verify_parents_basic :: "any_tx \<Rightarrow> unit result" where
  "verify_parents_basic tx =
     (let ps = parents (as_transaction tx)
      in if \<not> distinct ps then Inl (TxValidationError DuplicatedParents)
         else if length ps \<noteq> 2 then Inl (TxValidationError IncorrectParents)
         else Inr ())"

definition verify_weight :: "hathor_settings \<Rightarrow> weight_env \<Rightarrow> any_tx \<Rightarrow> unit result" where
  "verify_weight stg we tx =
     bindE (guardE (is_pow stg) AssertionError) (\<lambda>_.
     bindE (minimum_tx_weight stg we tx) (\<lambda>min_tx_weight.
     let max_tx_weight = f_add we min_tx_weight (MAX_TX_WEIGHT_DIFF we);
         w = weight (as_transaction tx)
     in if f_less we w (f_sub we min_tx_weight (WEIGHT_TOL we)) then Inl (TxValidationError WeightError)
        else if f_less we (MAX_TX_WEIGHT_DIFF_ACTIVATION we) min_tx_weight \<and> f_less we max_tx_weight w
          then Inl (TxValidationError WeightError)
        else Inr ()))"

definition inexistent_handler :: "exn \<Rightarrow> 'a result" where
  "inexistent_handler e = (if e = TransactionDoesNotExist then Inl (TxValidationError InexistentInput) else Inl e)"

fun sigops_input_loop :: "hathor_settings \<Rightarrow> tx_storage \<Rightarrow> tx_input list \<Rightarrow> int \<Rightarrow> int result" where
  "sigops_input_loop stg storage [] n_txops = Inr n_txops"
| "sigops_input_loop stg storage (tx_input # tx_inputs) n_txops =
     bindE (catchE (get_spent_tx storage tx_input) inexistent_handler) (\<lambda>spent_tx.
     if in_index tx_input \<ge> int (length (v_outputs spent_tx)) then Inl (TxValidationError InexistentInput)
     else bindE (py_nth (v_outputs spent_tx) (in_index tx_input)) (\<lambda>out.
       bindE (get_sigops_count stg (in_data tx_input) (Some (out_script out))) (\<lambda>n.
       sigops_input_loop stg storage tx_inputs (n_txops + n))))"

definition verify_sigops_input :: "hathor_settings \<Rightarrow> tx_storage \<Rightarrow> any_tx \<Rightarrow> unit result" where
  "verify_sigops_input stg storage tx =
     bindE (sigops_input_loop stg storage (inputs (as_transaction tx)) 0) (\<lambda>n_txops.
     guardE (\<not> n_txops > MAX_TX_SIGOPS_INPUT stg) (TxValidationError TooManySigOps))"

definition verify_script :: "hathor_settings \<Rightarrow> crypto \<Rightarrow> any_tx \<Rightarrow> tx_input \<Rightarrow> vertex \<Rightarrow> unit result" where
  "verify_script stg c tx input_tx spent_tx =
     catchE (script_eval stg c tx input_tx spent_tx)
       (\<lambda>e. case e of ScriptError _ \<Rightarrow> Inl (TxValidationError InvalidInputData) | _ \<Rightarrow> Inl e)"

fun verify_inputs_loop ::
    "hathor_settings \<Rightarrow> crypto \<Rightarrow> tx_storage \<Rightarrow> any_tx \<Rightarrow> bool \<Rightarrow> tx_input list \<Rightarrow> (bytes \<times> int) list \<Rightarrow> unit result" where
  "verify_inputs_loop stg c storage tx skip_script [] spent_outputs = Inr ()"
| "verify_inputs_loop stg c storage tx skip_script (input_tx # input_txs) spent_outputs =
     (if int (length (in_data input_tx)) > MAX_INPUT_DATA_SIZE stg
        then Inl (TxValidationError InvalidInputDataSize)
      else bindE (catchE (get_spent_tx storage input_tx) inexistent_handler) (\<lambda>spent_tx.
        if in_index input_tx \<ge> int (length (v_outputs spent_tx)) then Inl (TxValidationError InexistentInput)
        else if timestamp (as_transaction tx) \<le> v_timestamp spent_tx then Inl (TxValidationError TimestampError)
        else bindE (if \<not> skip_script then verify_script stg c tx input_tx spent_tx else Inr ()) (\<lambda>_.
          let key = (in_tx_id input_tx, in_index input_tx)
          in if List.member spent_outputs key then Inl (TxValidationError ConflictingInputs)
             else verify_inputs_loop stg c storage tx skip_script input_txs (key # spent_outputs))))"

definition verify_inputs :: "hathor_settings \<Rightarrow> crypto \<Rightarrow> tx_storage \<Rightarrow> any_tx \<Rightarrow> bool \<Rightarrow> unit result" where
  "verify_inputs stg c storage tx skip_script =
     verify_inputs_loop stg c storage tx skip_script (inputs (as_transaction tx)) []"

definition verify_reward_locked_for_height ::
    "hathor_settings \<Rightarrow> tx_storage \<Rightarrow> any_tx \<Rightarrow> vertex_static \<Rightarrow> int \<Rightarrow> bool \<Rightarrow> unit result" where
  "verify_reward_locked_for_height stg storage tx meta best_height assert_min_height_verification =
     bindE (get_spent_reward_locked_info stg storage tx) (\<lambda>info.
     if info \<noteq> None then Inl (TxValidationError RewardLocked)
     else if best_height + 1 < sm_min_height meta then
       (if assert_min_height_verification then Inl AssertionError else Inl (TxValidationError RewardLocked))
     else Inr ())"

definition verify_reward_locked :: "hathor_settings \<Rightarrow> tx_storage \<Rightarrow> any_tx \<Rightarrow> vertex_static \<Rightarrow> unit result" where
  "verify_reward_locked stg storage tx meta =
     bindE (get_minimum_best_height storage) (\<lambda>best_height.
     verify_reward_locked_for_height stg storage tx meta best_height True)"

definition get_minimum_number_of_inputs :: "any_tx \<Rightarrow> nat" where
  "get_minimum_number_of_inputs tx = (if is_nano_contract tx then 0 else 1)"

definition verify_number_of_inputs :: "hathor_settings \<Rightarrow> any_tx \<Rightarrow> unit result" where
  "verify_number_of_inputs stg tx =
     (let t = as_transaction tx
      in if int (length (inputs t)) > MAX_NUM_INPUTS stg then Inl (TxValidationError TooManyInputs)
         else if length (inputs t) < get_minimum_number_of_inputs tx \<and> \<not> is_genesis stg t
           then Inl (TxValidationError TooFewInputs)
         else Inr ())"

definition verify_output_token_indexes :: "any_tx \<Rightarrow> unit result" where
  "verify_output_token_indexes tx =
     guardE (list_all (\<lambda>out. \<not> get_token_index out > int (length (tokens (as_transaction tx))))
               (outputs (as_transaction tx))) (TxValidationError InvalidToken)"

section \<open>Token creation (\<^verbatim>\<open>token_creation_transaction_verifier.py\<close>)\<close>

definition verify_minted_tokens :: "token_creation_tx \<Rightarrow> token_dict \<Rightarrow> unit result" where
  "verify_minted_tokens tx d =
     bindE (vertex_hash tx) (\<lambda>h.
     case map_of d h of
       None \<Rightarrow> Inl KeyError
     | Some token_info \<Rightarrow> guardE (\<not> amount token_info \<le> 0) (TxValidationError InvalidToken))"

text \<open>
  Which characters \<^verbatim>\<open>str.strip\<close> and \<^verbatim>\<open>\s\<close> take as white space, and \<^verbatim>\<open>str.upper\<close>, are parameters: they follow
  the Unicode tables.
\<close>

record str_env =
  is_space :: "nat \<Rightarrow> bool"
  upper :: "pystr \<Rightarrow> pystr"

text \<open>\<^verbatim>\<open>re.sub(r'\s\s+', ' ', string)\<close>.\<close>

function collapse_spaces :: "(nat \<Rightarrow> bool) \<Rightarrow> pystr \<Rightarrow> pystr" where
  "collapse_spaces sp [] = []"
| "collapse_spaces sp (ch # cs) =
     (if sp ch \<and> cs \<noteq> [] \<and> sp (hd cs) then 32 # collapse_spaces sp (dropWhile sp cs)
      else ch # collapse_spaces sp cs)"
  by pat_completeness auto

termination
  by (relation "measure (\<lambda>(sp, s). length s)") (auto simp: le_imp_less_Suc length_dropWhile_le)

definition clean_token_string :: "str_env \<Rightarrow> pystr \<Rightarrow> pystr" where
  "clean_token_string se string =
     (let s = collapse_spaces (is_space se) string;
          s = rev (dropWhile (is_space se) (rev (dropWhile (is_space se) s)))
      in upper se s)"

definition validate_token_name_and_symbol :: "hathor_settings \<Rightarrow> str_env \<Rightarrow> pystr \<Rightarrow> pystr \<Rightarrow> unit result" where
  "validate_token_name_and_symbol stg se name symbol =
     (let err = Inl (TxValidationError TransactionDataError)
      in if name = [] \<or> int (length name) > MAX_LENGTH_TOKEN_NAME stg then err
         else if symbol = [] \<or> int (length symbol) > MAX_LENGTH_TOKEN_SYMBOL stg then err
         else if clean_token_string se name = clean_token_string se (HATHOR_TOKEN_NAME stg) then err
         else if clean_token_string se symbol = clean_token_string se (HATHOR_TOKEN_SYMBOL stg) then err
         else Inr ())"

definition verify_token_info :: "hathor_settings \<Rightarrow> str_env \<Rightarrow> token_creation_tx \<Rightarrow> unit result" where
  "verify_token_info stg se tx = validate_token_name_and_symbol stg se (token_name tx) (token_symbol tx)"

section \<open>Nano headers (\<^verbatim>\<open>nano_header_verifier.py\<close>)\<close>

definition MAX_NC_SCRIPT_SIZE :: int where
  "MAX_NC_SCRIPT_SIZE = 1024"

definition MAX_NC_SCRIPT_SIGOPS_COUNT :: int where
  "MAX_NC_SCRIPT_SIGOPS_COUNT = 20"

definition MAX_ACTIONS_LEN :: nat where
  "MAX_ACTIONS_LEN = 16"

definition ALLOWED_ACTION_SETS :: "nc_action_type set list" where
  "ALLOWED_ACTION_SETS =
     [{}, {DEPOSIT}, {WITHDRAWAL}, {GRANT_AUTHORITY}, {ACQUIRE_AUTHORITY},
      {DEPOSIT, GRANT_AUTHORITY}, {DEPOSIT, ACQUIRE_AUTHORITY},
      {WITHDRAWAL, GRANT_AUTHORITY}, {WITHDRAWAL, ACQUIRE_AUTHORITY}]"

definition verify_nc_signature :: "hathor_settings \<Rightarrow> crypto \<Rightarrow> any_tx \<Rightarrow> unit result" where
  "verify_nc_signature stg c tx =
     bindE (guardE (is_nano_contract tx) AssertionError) (\<lambda>_.
     bindE (get_nano_header tx) (\<lambda>nano_header.
     if int (length (nc_address nano_header)) \<noteq> ADDRESS_LEN_BYTES then Inl NCInvalidSignature
     else if int (length (nc_script nano_header)) > MAX_NC_SCRIPT_SIZE then Inl NCInvalidSignature
     else bindE (create_output_script stg (nc_address nano_header) None) (\<lambda>output_script.
     bindE (get_sigops_count stg (nc_script nano_header) (Some output_script)) (\<lambda>sigops_count.
     if sigops_count > MAX_NC_SCRIPT_SIGOPS_COUNT then Inl (TxValidationError TooManySigOps)
     else catchE (raw_script_eval stg c (nc_script nano_header) output_script (ScriptExtras (SubjectTx tx)))
            (\<lambda>e. case e of ScriptError _ \<Rightarrow> Inl NCInvalidSignature | _ \<Rightarrow> Inl e)))))"

definition verify_action_list :: "nc_action list \<Rightarrow> unit result" where
  "verify_action_list actions =
     (if length actions > MAX_ACTIONS_LEN then Inl NCInvalidAction
      else guardE (list_all (\<lambda>token_uid.
               List.member ALLOWED_ACTION_SETS
                 (set (map nc_action_kind (filter (\<lambda>action. action_token_uid action = token_uid) actions))))
             (remdups (map action_token_uid actions))) NCInvalidAction)"

fun is_authority_action :: "nc_action \<Rightarrow> bool" where
  "is_authority_action (NCGrantAuthorityAction token_uid mint melt) = True"
| "is_authority_action (NCAcquireAuthorityAction token_uid mint melt) = True"
| "is_authority_action _ = False"

fun verify_actions_loop :: "bytes list \<Rightarrow> nc_action list \<Rightarrow> unit result" where
  "verify_actions_loop tx_tokens [] = Inr ()"
| "verify_actions_loop tx_tokens (action # actions) =
     (if is_authority_action action \<and> action_token_uid action = NATIVE_TOKEN_UID then Inl AssertionError
      else if action_token_uid action \<noteq> NATIVE_TOKEN_UID \<and> \<not> List.member tx_tokens (action_token_uid action)
        then Inl NCInvalidAction
      else verify_actions_loop tx_tokens actions)"

definition verify_actions :: "hathor_settings \<Rightarrow> any_tx \<Rightarrow> unit result" where
  "verify_actions stg tx =
     bindE (guardE (is_nano_contract tx) AssertionError) (\<lambda>_.
     bindE (get_nano_header tx) (\<lambda>nano_header.
     bindE (get_actions stg tx nano_header) (\<lambda>actions.
     bindE (verify_action_list actions) (\<lambda>_.
     verify_actions_loop (tokens (as_transaction tx)) actions))))"

section \<open>Blocks (\<^verbatim>\<open>block_verifier.py\<close>)\<close>

text \<open>The answer of the feature service about a block (\<^verbatim>\<open>feature_activation/feature_service.py\<close>).\<close>

datatype 'f block_signaling_state = BlockIsSignaling | BlockIsMissingSignal 'f

definition verify_height :: "vertex_static \<Rightarrow> unit result" where
  "verify_height meta = guardE (\<not> sm_height meta < sm_min_height meta) (TxValidationError RewardLocked)"

definition verify_block_weight :: "hathor_settings \<Rightarrow> weight_env \<Rightarrow> tx_storage \<Rightarrow> block \<Rightarrow> unit result" where
  "verify_block_weight stg we storage b =
     bindE (guardE (is_pow stg) AssertionError) (\<lambda>_.
     bindE (calculate_block_difficulty stg we (get_height storage) b (get_block_parent storage)) (\<lambda>min_block_weight.
     guardE (\<not> f_less we (weight b) (f_sub we min_block_weight (WEIGHT_TOL we))) (TxValidationError WeightError)))"

definition verify_reward :: "hathor_settings \<Rightarrow> tx_storage \<Rightarrow> block \<Rightarrow> unit result" where
  "verify_reward stg storage b =
     bindE (get_block_parent storage b) (\<lambda>parent_block.
     bindE (get_height storage parent_block) (\<lambda>height.
     bindE (get_tokens_issued_per_block stg (height + 1)) (\<lambda>tokens_issued_per_block.
     guardE (sum_outputs (outputs b) = tokens_issued_per_block) (TxValidationError InvalidBlockReward))))"

definition verify_no_inputs :: "block \<Rightarrow> unit result" where
  "verify_no_inputs b = guardE (inputs b = []) (TxValidationError BlockWithInputs)"

definition verify_block_output_token_indexes :: "block \<Rightarrow> unit result" where
  "verify_block_output_token_indexes b =
     guardE (list_all (\<lambda>out. \<not> get_token_index out > 0) (outputs b)) (TxValidationError BlockWithTokensError)"

definition verify_data :: "hathor_settings \<Rightarrow> block \<Rightarrow> unit result" where
  "verify_data stg b =
     guardE (\<not> int (length (block_data b)) > BLOCK_DATA_MAX_SIZE stg) (TxValidationError TransactionDataError)"

definition verify_mandatory_signaling :: "(block \<Rightarrow> 'f block_signaling_state result) \<Rightarrow> block \<Rightarrow> unit result" where
  "verify_mandatory_signaling is_signaling_mandatory_features b =
     bindE (is_signaling_mandatory_features b) (\<lambda>signaling_state.
     case signaling_state of
       BlockIsSignaling \<Rightarrow> Inr ()
     | BlockIsMissingSignal feature \<Rightarrow> Inl (TxValidationError BlockMustSignalError))"

section \<open>The service (\<^verbatim>\<open>verification_service.py\<close>)\<close>

text \<open>What the service holds: settings, storage, the feature service, and the parameters of the checks.\<close>

record 'f verification_service =
  vs_settings :: hathor_settings
  vs_crypto :: crypto
  vs_weights :: weight_env
  vs_strings :: str_env
  vs_storage :: tx_storage
  vs_signaling :: "block \<Rightarrow> 'f block_signaling_state result"

definition verify_without_storage_base_block :: "'f verification_service \<Rightarrow> block \<Rightarrow> unit result" where
  "verify_without_storage_base_block vs b =
     bindE (verify_no_inputs b) (\<lambda>_.
     bindE (verify_outputs (vs_settings vs) (outputs b)) (\<lambda>_.
     bindE (verify_block_output_token_indexes b) (\<lambda>_.
     bindE (verify_data (vs_settings vs) b) (\<lambda>_.
     verify_sigops_output (vs_settings vs) (outputs b)))))"

definition verify_without_storage_block :: "'f verification_service \<Rightarrow> block \<Rightarrow> unit result" where
  "verify_without_storage_block vs b =
     bindE (verify_pow (vs_settings vs) (vs_weights vs) b None) (\<lambda>_. verify_without_storage_base_block vs b)"

definition verify_without_storage_tx :: "'f verification_service \<Rightarrow> any_tx \<Rightarrow> unit result" where
  "verify_without_storage_tx vs tx =
     (let stg = vs_settings vs; t = as_transaction tx in
      bindE (if is_pow stg then verify_pow stg (vs_weights vs) t None else Inr ()) (\<lambda>_.
      bindE (verify_number_of_inputs stg tx) (\<lambda>_.
      bindE (verify_outputs stg (outputs t)) (\<lambda>_.
      bindE (verify_output_token_indexes tx) (\<lambda>_.
      verify_sigops_output stg (outputs t))))))"

text \<open>
  The dispatch on \<^verbatim>\<open>vertex.version\<close> with the assertion on the class. Merge-mined blocks (3),
  proof-of-authority blocks (5) and on-chain blueprints (6) are classes of their own, which the type
  of vertices leaves out, so for these versions the assertion fails.
\<close>

definition verify_without_storage :: "'f verification_service \<Rightarrow> vertex \<Rightarrow> unit result" where
  "verify_without_storage vs v =
     bindE
       (case v of
          BlockVertex b \<Rightarrow> if version b = 0 then verify_without_storage_block vs b else Inl AssertionError
        | TxVertex (RegularTx tx) \<Rightarrow>
            if version tx = 1 then verify_without_storage_tx vs (RegularTx tx) else Inl AssertionError
        | TxVertex (TokenCreationTx tx) \<Rightarrow>
            if version tx = 2 then verify_without_storage_tx vs (TokenCreationTx tx) else Inl AssertionError) (\<lambda>_.
     case v of
       TxVertex tx \<Rightarrow> if is_nano_contract tx then verify_nc_signature (vs_settings vs) (vs_crypto vs) tx else Inr ()
     | BlockVertex b \<Rightarrow> Inr ())"

definition verify_tx ::
    "'f verification_service \<Rightarrow> any_tx \<Rightarrow> vertex_static \<Rightarrow> bool \<Rightarrow> token_dict option \<Rightarrow> unit result" where
  "verify_tx vs tx meta reject_locked_reward token_dict =
     (let stg = vs_settings vs; storage = vs_storage vs in
      if is_genesis stg (as_transaction tx) then Inr ()
      else
        bindE (verify_without_storage vs (TxVertex tx)) (\<lambda>_.
        bindE (verify_sigops_input stg storage tx) (\<lambda>_.
        bindE (verify_inputs stg (vs_crypto vs) storage tx False) (\<lambda>_.
        bindE (case token_dict of
                 Some d \<Rightarrow> if d \<noteq> [] then Inr d else get_complete_token_info stg storage tx
               | None \<Rightarrow> get_complete_token_info stg storage tx) (\<lambda>d.
        bindE (verify_sum stg d) (\<lambda>_.
        bindE (verify_parents stg storage (TxVertex tx)) (\<lambda>_.
        if reject_locked_reward then verify_reward_locked stg storage tx meta else Inr ())))))))"

definition verify_token_creation_tx ::
    "'f verification_service \<Rightarrow> token_creation_tx \<Rightarrow> vertex_static \<Rightarrow> bool \<Rightarrow> unit result" where
  "verify_token_creation_tx vs tx meta reject_locked_reward =
     (let stg = vs_settings vs; storage = vs_storage vs in
      bindE (get_complete_token_info stg storage (TokenCreationTx tx)) (\<lambda>token_dict.
      bindE (verify_tx vs (TokenCreationTx tx) meta reject_locked_reward (Some token_dict)) (\<lambda>_.
      bindE (verify_minted_tokens tx token_dict) (\<lambda>_.
      verify_token_info stg (vs_strings vs) tx))))"

definition verify_block :: "'f verification_service \<Rightarrow> block \<Rightarrow> vertex_static \<Rightarrow> unit result" where
  "verify_block vs b meta =
     (if is_genesis (vs_settings vs) b then Inr ()
      else
        bindE (verify_without_storage vs (BlockVertex b)) (\<lambda>_.
        bindE (verify_parents (vs_settings vs) (vs_storage vs) (BlockVertex b)) (\<lambda>_.
        bindE (verify_height meta) (\<lambda>_.
        verify_mandatory_signaling (vs_signaling vs) b))))"

definition verify :: "'f verification_service \<Rightarrow> vertex \<Rightarrow> vertex_static \<Rightarrow> bool \<Rightarrow> unit result" where
  "verify vs v meta reject_locked_reward =
     bindE
       (case v of
          BlockVertex b \<Rightarrow> if version b = 0 then verify_block vs b meta else Inl AssertionError
        | TxVertex (RegularTx tx) \<Rightarrow>
            if version tx = 1 then verify_tx vs (RegularTx tx) meta reject_locked_reward None else Inl AssertionError
        | TxVertex (TokenCreationTx tx) \<Rightarrow>
            if version tx = 2 then verify_token_creation_tx vs tx meta reject_locked_reward else Inl AssertionError) (\<lambda>_.
     case v of
       TxVertex tx \<Rightarrow> if is_nano_contract tx then verify_actions (vs_settings vs) tx else Inr ()
     | BlockVertex b \<Rightarrow> Inr ())"

definition verify_basic_block :: "'f verification_service \<Rightarrow> block \<Rightarrow> bool \<Rightarrow> unit result" where
  "verify_basic_block vs b skip_weight_verification =
     bindE (if \<not> skip_weight_verification then verify_block_weight (vs_settings vs) (vs_weights vs) (vs_storage vs) b else Inr ()) (\<lambda>_.
     verify_reward (vs_settings vs) (vs_storage vs) b)"

definition verify_basic_tx :: "'f verification_service \<Rightarrow> any_tx \<Rightarrow> unit result" where
  "verify_basic_tx vs tx =
     (if is_genesis (vs_settings vs) (as_transaction tx) then Inr ()
      else
        bindE (verify_parents_basic tx) (\<lambda>_.
        bindE (if is_pow (vs_settings vs) then verify_weight (vs_settings vs) (vs_weights vs) tx else Inr ()) (\<lambda>_.
        verify_without_storage vs (TxVertex tx))))"

definition verify_basic :: "'f verification_service \<Rightarrow> vertex \<Rightarrow> bool \<Rightarrow> unit result" where
  "verify_basic vs v skip_block_weight_verification =
     bindE (verify_version (vs_settings vs) v) (\<lambda>_.
     bindE (verify_headers (vs_settings vs) v) (\<lambda>_.
     bindE
       (case v of
          BlockVertex b \<Rightarrow>
            if version b = 0 then verify_basic_block vs b skip_block_weight_verification else Inl AssertionError
        | TxVertex (RegularTx tx) \<Rightarrow>
            if version tx = 1 then verify_basic_tx vs (RegularTx tx) else Inl AssertionError
        | TxVertex (TokenCreationTx tx) \<Rightarrow>
            if version tx = 2 then verify_basic_tx vs (TokenCreationTx tx) else Inl AssertionError) (\<lambda>_.
     case v of
       TxVertex tx \<Rightarrow> guardE (is_nano_contract tx \<longrightarrow> ENABLE_NANO_CONTRACTS (vs_settings vs)) AssertionError
     | BlockVertex b \<Rightarrow> Inr ())))"

end
