(* ===== verification/Service_Proofs.thy ===== *)
theory Service_Proofs
  imports Tx_Verification
begin

text \<open>
  What the verification of a vertex guarantees: the balance of the tokens of an accepted transaction, its inputs, the
  caller of a nano contract, and the parents of vertices. The proofs invert \<open>verify\<close> into the checks
  it composes (\<open>accepted_tx\<close>) and apply the lemmas on token information and on scripts.
\<close>


section \<open>The checks an accepted transaction has passed\<close>

lemma complete_token_info_nonempty:
  "get_complete_token_info stg storage tx = Inr d \<Longrightarrow> d \<noteq> []"
  by (erule complete_token_info) auto

lemma verify_tx_ok:
  assumes "verify_tx vs tx meta rlr td = Inr ()" and "\<not> is_genesis (vs_settings vs) (as_transaction tx)"
    and "td = None \<or> td = Some d \<and> get_complete_token_info (vs_settings vs) (vs_storage vs) tx = Inr d"
  obtains d where "get_complete_token_info (vs_settings vs) (vs_storage vs) tx = Inr d"
    and "verify_sum (vs_settings vs) d = Inr ()"
    and "verify_without_storage vs (TxVertex tx) = Inr ()"
    and "verify_sigops_input (vs_settings vs) (vs_storage vs) tx = Inr ()"
    and "verify_inputs (vs_settings vs) (vs_crypto vs) (vs_storage vs) tx False = Inr ()"
    and "verify_parents (vs_settings vs) (vs_storage vs) (TxVertex tx) = Inr ()"
    and "rlr \<Longrightarrow> verify_reward_locked (vs_settings vs) (vs_storage vs) tx meta = Inr ()"
  using assms complete_token_info_nonempty
  by (auto simp: verify_tx_def Let_def result_simps split: if_splits)

lemma accepted_tx:
  assumes "verify vs (TxVertex tx) meta rlr = Inr ()" and "\<not> is_genesis (vs_settings vs) (as_transaction tx)"
  obtains d where "get_complete_token_info (vs_settings vs) (vs_storage vs) tx = Inr d"
    and "verify_sum (vs_settings vs) d = Inr ()"
    and "verify_without_storage vs (TxVertex tx) = Inr ()"
    and "verify_sigops_input (vs_settings vs) (vs_storage vs) tx = Inr ()"
    and "verify_inputs (vs_settings vs) (vs_crypto vs) (vs_storage vs) tx False = Inr ()"
    and "verify_parents (vs_settings vs) (vs_storage vs) (TxVertex tx) = Inr ()"
    and "rlr \<Longrightarrow> verify_reward_locked (vs_settings vs) (vs_storage vs) tx meta = Inr ()"
    and "is_nano_contract tx \<Longrightarrow> verify_actions (vs_settings vs) tx = Inr ()"
    and "\<And>r. tx = TokenCreationTx r \<Longrightarrow> verify_minted_tokens r d = Inr ()"
    and "\<And>r. tx = TokenCreationTx r \<Longrightarrow> verify_token_info (vs_settings vs) (vs_strings vs) r = Inr ()"
proof (cases tx)
  case (RegularTx r)
  have "verify_tx vs tx meta rlr None = Inr ()" "is_nano_contract tx \<Longrightarrow> verify_actions (vs_settings vs) tx = Inr ()"
    using assms(1) RegularTx by (auto simp: verify_def result_simps split: if_splits)
  with verify_tx_ok [OF _ assms(2)] RegularTx that show thesis by (metis any_tx.distinct(1))
next
  case (TokenCreationTx r)
  obtain d where d: "get_complete_token_info (vs_settings vs) (vs_storage vs) tx = Inr d"
    and v: "verify_tx vs tx meta rlr (Some d) = Inr ()"
    and m: "verify_minted_tokens r d = Inr ()" "verify_token_info (vs_settings vs) (vs_strings vs) r = Inr ()"
    and n: "is_nano_contract tx \<Longrightarrow> verify_actions (vs_settings vs) tx = Inr ()"
    using assms(1) TokenCreationTx
    by (auto simp: verify_def verify_token_creation_tx_def Let_def result_simps split: if_splits)
  obtain d' where d': "get_complete_token_info (vs_settings vs) (vs_storage vs) tx = Inr d'"
    and checks: "verify_sum (vs_settings vs) d' = Inr ()"
    "verify_without_storage vs (TxVertex tx) = Inr ()"
    "verify_sigops_input (vs_settings vs) (vs_storage vs) tx = Inr ()"
    "verify_inputs (vs_settings vs) (vs_crypto vs) (vs_storage vs) tx False = Inr ()"
    "verify_parents (vs_settings vs) (vs_storage vs) (TxVertex tx) = Inr ()"
    "rlr \<Longrightarrow> verify_reward_locked (vs_settings vs) (vs_storage vs) tx meta = Inr ()"
    using d by (rule verify_tx_ok [OF v assms(2) disjI2 [OF conjI [OF refl]]]) blast+
  have "d' = d" using d d' by simp
  show thesis
    by (rule that [OF d' checks n]) (use m TokenCreationTx \<open>d' = d\<close> in auto)
qed

section \<open>Inputs\<close>

lemma inexistent_handler_Inr [simp]: "catchE r inexistent_handler = Inr x \<longleftrightarrow> r = Inr x"
  by (cases r) (auto simp: catchE_def inexistent_handler_def)

lemma sigops_input_loop_ok:
  "sigops_input_loop stg storage is n = Inr m \<Longrightarrow> i \<in> set is \<Longrightarrow>
    \<exists>spent_tx out k. get_spent_tx storage i = Inr spent_tx \<and> py_nth (v_outputs spent_tx) (in_index i) = Inr out \<and>
      get_sigops_count stg (in_data i) (Some (out_script out)) = Inr k"
proof (induction "is" arbitrary: n)
  case (Cons j "is")
  from Cons.prems(1) obtain spent_tx out k where
    j: "get_spent_tx storage j = Inr spent_tx" "py_nth (v_outputs spent_tx) (in_index j) = Inr out"
      "get_sigops_count stg (in_data j) (Some (out_script out)) = Inr k" and rest: "sigops_input_loop stg storage is (n + k) = Inr m"
    by (auto simp: result_simps split: if_splits)
  from Cons.prems(2) Cons.IH [OF rest] j show ?case by auto
qed simp

lemma verify_script_ok [simp]: "verify_script stg c tx i spent_tx = Inr () \<longleftrightarrow> script_eval stg c tx i spent_tx = Inr ()"
  by (cases "script_eval stg c tx i spent_tx") (auto simp: verify_script_def catchE_def split: exn.splits)

text \<open>What \<^verbatim>\<open>verify_inputs\<close> has checked of one input.\<close>

definition input_ok :: "hathor_settings \<Rightarrow> crypto \<Rightarrow> tx_storage \<Rightarrow> any_tx \<Rightarrow> tx_input \<Rightarrow> bool" where
  "input_ok stg c storage tx i \<longleftrightarrow>
     (\<exists>spent_tx. st_vertices storage (in_tx_id i) = Some spent_tx \<and> in_index i < int (length (v_outputs spent_tx)) \<and>
        v_timestamp spent_tx < timestamp (as_transaction tx) \<and> script_eval stg c tx i spent_tx = Inr ())"

lemma verify_inputs_loop_ok:
  "verify_inputs_loop stg c storage tx False is spent = Inr () \<Longrightarrow>
    list_all (input_ok stg c storage tx) is \<and> distinct (map (\<lambda>i. (in_tx_id i, in_index i)) is) \<and>
    (\<lambda>i. (in_tx_id i, in_index i)) ` set is \<inter> set spent = {}"
proof (induction "is" arbitrary: spent)
  case (Cons j "is")
  let ?k = "(in_tx_id j, in_index j)"
  from Cons.prems obtain spent_tx where j: "get_spent_tx storage j = Inr spent_tx"
      "in_index j < int (length (v_outputs spent_tx))" "v_timestamp spent_tx < timestamp (as_transaction tx)"
      "script_eval stg c tx j spent_tx = Inr ()" "?k \<notin> set spent"
    and rest: "verify_inputs_loop stg c storage tx False is (?k # spent) = Inr ()"
    by (auto simp: result_simps Let_def List.member_iff split: if_splits)
  have "input_ok stg c storage tx j"
    using j by (auto simp: input_ok_def get_spent_tx_def get_transaction_def split: option.splits)
  then show ?case using Cons.IH [OF rest] j(5) by auto
qed simp

lemma accepted_input:
  assumes "verify vs (TxVertex tx) meta rlr = Inr ()" and "\<not> is_genesis (vs_settings vs) (as_transaction tx)"
    and "i \<in> set (inputs (as_transaction tx))"
  obtains spent_tx out n where "st_vertices (vs_storage vs) (in_tx_id i) = Some spent_tx"
    and "py_nth (v_outputs spent_tx) (in_index i) = Inr out"
    and "v_timestamp spent_tx < timestamp (as_transaction tx)"
    and "get_sigops_count (vs_settings vs) (in_data i) (Some (out_script out)) = Inr n"
    and "raw_script_eval (vs_settings vs) (vs_crypto vs) (in_data i) (out_script out) (UtxoScriptExtras tx i spent_tx) = Inr ()"
proof -
  obtain m where "sigops_input_loop (vs_settings vs) (vs_storage vs) (inputs (as_transaction tx)) 0 = Inr m"
    and v: "verify_inputs (vs_settings vs) (vs_crypto vs) (vs_storage vs) tx False = Inr ()"
    using accepted_tx [OF assms(1,2)] by (auto simp: verify_sigops_input_def result_simps)
  from sigops_input_loop_ok [OF this(1) assms(3)] obtain spent_tx out k
    where s: "get_spent_tx (vs_storage vs) i = Inr spent_tx" "py_nth (v_outputs spent_tx) (in_index i) = Inr out"
      "get_sigops_count (vs_settings vs) (in_data i) (Some (out_script out)) = Inr k"
    by blast
  have "input_ok (vs_settings vs) (vs_crypto vs) (vs_storage vs) tx i"
    using verify_inputs_loop_ok [OF v [unfolded verify_inputs_def]] assms(3) by (auto simp: list_all_iff)
  with s show thesis
    by (intro that [of spent_tx out k])
      (auto simp: input_ok_def script_eval_def get_spent_tx_def get_transaction_def split: option.splits)
qed

lemma p2pkh_checked_spend:
  assumes "length h = 20" and "get_sigops_count stg input_data (Some (p2pkh_script h)) = Inr n"
    and "raw_script_eval stg c input_data (p2pkh_script h) ex = Inr ()"
  shows "\<exists>pubkey signature. get_hash160 c pubkey = h \<and> signed_by c ex pubkey signature"
proof -
  have "delimited input_data 0"
    using assms(2) count_sigops_delimited by (auto simp: get_sigops_count_def p2pkh_not_multisig)
  with p2pkh_eval_accepts [OF assms(1)] assms(3) show ?thesis by blast
qed

section \<open>Actions\<close>

lemma allowed_action_sets:
  "S \<in> set ALLOWED_ACTION_SETS \<Longrightarrow> \<not> {DEPOSIT, WITHDRAWAL} \<subseteq> S \<and> \<not> {GRANT_AUTHORITY, ACQUIRE_AUTHORITY} \<subseteq> S"
  by (auto simp: ALLOWED_ACTION_SETS_def)

lemma verify_action_list_ok:
  assumes "verify_action_list actions = Inr ()"
  shows "length actions \<le> 16"
    and "let kinds = nc_action_kind ` {a \<in> set actions. action_token_uid a = t}
         in \<not> {DEPOSIT, WITHDRAWAL} \<subseteq> kinds \<and> \<not> {GRANT_AUTHORITY, ACQUIRE_AUTHORITY} \<subseteq> kinds"
proof -
  let ?kinds = "nc_action_kind ` {a \<in> set actions. action_token_uid a = t}"
  show "length actions \<le> 16"
    using assms by (auto simp: verify_action_list_def MAX_ACTIONS_LEN_def split: if_splits)
  have "?kinds = {} \<or> ?kinds \<in> set ALLOWED_ACTION_SETS"
    using assms by (cases "t \<in> action_token_uid ` set actions")
      (auto simp: verify_action_list_def guardE_def list_all_iff split: if_splits)
  moreover have "{} \<in> set ALLOWED_ACTION_SETS" by (simp add: ALLOWED_ACTION_SETS_def)
  ultimately have "?kinds \<in> set ALLOWED_ACTION_SETS" by (elim disjE) (simp_all only:)
  from allowed_action_sets [OF this]
  show "let kinds = ?kinds in \<not> {DEPOSIT, WITHDRAWAL} \<subseteq> kinds \<and> \<not> {GRANT_AUTHORITY, ACQUIRE_AUTHORITY} \<subseteq> kinds"
    unfolding Let_def .
qed

lemma binary_to_int_byte: "binary_to_int [b] = Inr (uint b)"
  by (simp add: binary_to_int_def struct_unpack_def int_from_bytes_def be_val_def)

section \<open>Accepted transactions\<close>

text \<open>
  C24. No transaction that \<^verbatim>\<open>verify\<close> accepts, be it regular, a token creation or a nano contract call, makes or destroys
  tokens out of nothing. For the tokens of its spent outputs, its actions and its own outputs: a custom token whose
  amount grows needs the authority to mint it (held by a spent output, acquired from a contract, or the token is
  created here), one whose amount shrinks needs the authority to melt it; the native token grows by exactly what
  melting returns minus the deposits for minting; and an output carries an authority only if the transaction
  has it.
\<close>

theorem accepted_tx_balance:
  assumes "verify vs (TxVertex tx) meta rlr = Inr ()" and "\<not> is_genesis stg (as_transaction tx)"
    and "stg = vs_settings vs"
  shows "\<exists>ins acts outs. movements stg (vs_storage vs) tx ins acts outs \<and>
    (\<forall>t. t \<noteq> HATHOR_TOKEN_UID stg \<longrightarrow>
       (net_amount ins acts outs t < 0 \<longrightarrow> may_melt tx ins acts t) \<and>
       (0 < net_amount ins acts outs t \<longrightarrow> may_mint tx ins acts t)) \<and>
    net_amount ins acts outs (HATHOR_TOKEN_UID stg) =
      (\<Sum>t | withdraw_of stg t (net_amount ins acts outs t) \<noteq> 0. withdraw_of stg t (net_amount ins acts outs t)) -
      (\<Sum>t | deposit_of stg t (net_amount ins acts outs t) \<noteq> 0. deposit_of stg t (net_amount ins acts outs t)) \<and>
    list_all (\<lambda>(t, out). (can_mint_token out \<longrightarrow> may_mint tx ins acts t) \<and> (can_melt_token out \<longrightarrow> may_melt tx ins acts t)) outs"
proof -
  obtain d where d: "get_complete_token_info stg (vs_storage vs) tx = Inr d" and s: "verify_sum stg d = Inr ()"
    using accepted_tx [OF assms(1)] assms(2,3) by metis
  from d obtain ins acts outs where m: "movements stg (vs_storage vs) tx ins acts outs"
    and a: "\<forall>t. amount (dict_get d t) = net_amount ins acts outs t"
      "\<forall>t. can_mint (dict_get d t) \<longleftrightarrow> may_mint tx ins acts t" "\<forall>t. can_melt (dict_get d t) \<longleftrightarrow> may_melt tx ins acts t"
    and k: "HATHOR_TOKEN_UID stg \<in> fst ` set d" "distinct (map fst d)" and o: "list_all (output_allowed (dict_get d)) outs"
    by (rule complete_token_info)
  have "list_all (\<lambda>(t, out). (can_mint_token out \<longrightarrow> may_mint tx ins acts t) \<and> (can_melt_token out \<longrightarrow> may_melt tx ins acts t)) outs"
    using o a(2,3) by (auto simp: list_all_iff output_allowed_def)
  with m s show ?thesis
    unfolding verify_sum_iff [OF k(2,1)] a(1) [rule_format] a(2) [rule_format] a(3) [rule_format] by blast
qed

text \<open>
  C25. Every input of an accepted transaction spends an output that exists, of an older vertex; no two inputs spend the same
  output; and an output locked to a public key hash was spent with a valid signature of this very transaction under a
  key with that hash.
\<close>

theorem accepted_tx_inputs:
  assumes "verify vs (TxVertex tx) meta rlr = Inr ()" and "\<not> is_genesis (vs_settings vs) (as_transaction tx)"
  shows "distinct (map (\<lambda>i. (in_tx_id i, in_index i)) (inputs (as_transaction tx))) \<and>
    (\<forall>i\<in>set (inputs (as_transaction tx)).
       \<exists>spent_tx out. st_vertices (vs_storage vs) (in_tx_id i) = Some spent_tx \<and>
         py_nth (v_outputs spent_tx) (in_index i) = Inr out \<and> v_timestamp spent_tx < timestamp (as_transaction tx) \<and>
         (\<forall>h. length h = 20 \<longrightarrow> out_script out = p2pkh_script h \<longrightarrow>
            (\<exists>pubkey signature. get_hash160 (vs_crypto vs) pubkey = h \<and>
               signed_by (vs_crypto vs) (UtxoScriptExtras tx i spent_tx) pubkey signature)))"
proof (intro conjI ballI)
  have "verify_inputs (vs_settings vs) (vs_crypto vs) (vs_storage vs) tx False = Inr ()"
    using accepted_tx [OF assms] by metis
  then show "distinct (map (\<lambda>i. (in_tx_id i, in_index i)) (inputs (as_transaction tx)))"
    using verify_inputs_loop_ok by (metis verify_inputs_def)
next
  fix i assume "i \<in> set (inputs (as_transaction tx))"
  from accepted_input [OF assms this] obtain spent_tx out n
    where i: "st_vertices (vs_storage vs) (in_tx_id i) = Some spent_tx" "py_nth (v_outputs spent_tx) (in_index i) = Inr out"
      "v_timestamp spent_tx < timestamp (as_transaction tx)"
      "get_sigops_count (vs_settings vs) (in_data i) (Some (out_script out)) = Inr n"
      "raw_script_eval (vs_settings vs) (vs_crypto vs) (in_data i) (out_script out) (UtxoScriptExtras tx i spent_tx) = Inr ()"
    by blast
  then show "\<exists>spent_tx out. st_vertices (vs_storage vs) (in_tx_id i) = Some spent_tx \<and>
         py_nth (v_outputs spent_tx) (in_index i) = Inr out \<and> v_timestamp spent_tx < timestamp (as_transaction tx) \<and>
         (\<forall>h. length h = 20 \<longrightarrow> out_script out = p2pkh_script h \<longrightarrow>
            (\<exists>pubkey signature. get_hash160 (vs_crypto vs) pubkey = h \<and>
               signed_by (vs_crypto vs) (UtxoScriptExtras tx i spent_tx) pubkey signature))"
    using p2pkh_checked_spend by metis
qed

text \<open>
  C26. A nano contract call is accepted only when its caller authorised it. The address of the header is a pay-to-public-key-hash or a
  multi-signature address. In the first case some public key hashes to the hash in the address and a signature of the
  transaction under it verifies. In the second the header's script ends in the push of a redeem script with the hash in the
  address, and the redeem script runs to \<open>1\<close> on what the script pushed before; when it is the one generated for
  \<open>m\<close> of some keys, that is \<open>m\<close> signatures of the transaction, valid for \<open>m\<close> of the keys. The actions are at most
  sixteen, no token has both a deposit and a withdrawal, nor both a grant and an acquisition of authority.
\<close>

theorem accepted_nano_call:
  assumes "verify vs (TxVertex tx) meta rlr = Inr ()" and "\<not> is_genesis (vs_settings vs) (as_transaction tx)"
    and "get_nano_header tx = Inr header"
  shows "length (nc_address header) = 25 \<and> length (nc_script header) \<le> 1024 \<and>
    (if binary_to_int (P2PKH_VERSION_BYTE (vs_settings vs)) = Inr (uint (hd (nc_address header)))
     then \<exists>pubkey signature. get_hash160 (vs_crypto vs) pubkey = drop 1 (take 21 (nc_address header)) \<and>
         signed_by (vs_crypto vs) (ScriptExtras (SubjectTx tx)) pubkey signature
     else binary_to_int (MULTISIG_VERSION_BYTE (vs_settings vs)) = Inr (uint (hd (nc_address header))) \<and>
         multisig_authorised (vs_settings vs) (vs_crypto vs) (ScriptExtras (SubjectTx tx)) (nc_script header)
           (drop 1 (take 21 (nc_address header)))) \<and>
    (\<exists>actions. get_actions (vs_settings vs) tx header = Inr actions \<and> length actions \<le> 16 \<and>
       (\<forall>t. let kinds = nc_action_kind ` {a \<in> set actions. action_token_uid a = t}
            in \<not> {DEPOSIT, WITHDRAWAL} \<subseteq> kinds \<and> \<not> {GRANT_AUTHORITY, ACQUIRE_AUTHORITY} \<subseteq> kinds))"
proof -
  let ?stg = "vs_settings vs" and ?a = "nc_address header" and ?h = "drop 1 (take 21 (nc_address header))"
  let ?ex = "ScriptExtras (SubjectTx tx)"
  have nano: "is_nano_contract tx" using assms(3) by (auto simp: is_nano_contract_def get_nano_header_def)
  have ws: "verify_without_storage vs (TxVertex tx) = Inr ()" and act: "verify_actions ?stg tx = Inr ()"
    using accepted_tx [OF assms(1,2)] nano by metis+
  from ws assms(3) nano obtain script n
    where a: "length ?a = 25" "length (nc_script header) \<le> 1024" "create_output_script ?stg ?a None = Inr script"
      "get_sigops_count ?stg (nc_script header) (Some script) = Inr n"
      "raw_script_eval ?stg (vs_crypto vs) (nc_script header) script ?ex = Inr ()"
    by (auto simp: verify_without_storage_def verify_nc_signature_def result_simps ADDRESS_LEN_BYTES_def MAX_NC_SCRIPT_SIZE_def
        catchE_def split: if_splits sum.splits exn.splits)
  from act assms(3) nano obtain actions where acts: "get_actions ?stg tx header = Inr actions" "verify_action_list actions = Inr ()"
    by (auto simp: verify_actions_def result_simps)
  have h: "length ?h = 20" using a(1) by simp
  have first: "py_nth ?a 0 = Inr (hd ?a)" using a(1) by (cases ?a) (simp_all add: py_nth_def)
  have "if binary_to_int (P2PKH_VERSION_BYTE ?stg) = Inr (uint (hd ?a))
     then \<exists>pubkey signature. get_hash160 (vs_crypto vs) pubkey = ?h \<and> signed_by (vs_crypto vs) ?ex pubkey signature
     else binary_to_int (MULTISIG_VERSION_BYTE ?stg) = Inr (uint (hd ?a)) \<and> multisig_authorised ?stg (vs_crypto vs) ?ex (nc_script header) ?h"
  proof (cases "binary_to_int (P2PKH_VERSION_BYTE ?stg) = Inr (uint (hd ?a))")
    case True
    then have "script = p2pkh_script ?h"
      using a(3) first P2PKH_create_output_script_form [OF a(1)] by (simp add: create_output_script_def)
    then show ?thesis using True p2pkh_checked_spend [OF h] a(4,5) by auto
  next
    case False
    then have "binary_to_int (MULTISIG_VERSION_BYTE ?stg) = Inr (uint (hd ?a))" "script = multisig_script ?h"
      using a(3) first MultiSig_create_output_script_form [OF a(1)]
      by (auto simp: create_output_script_def result_simps split: if_splits)
    then show ?thesis using False multisig_spend [OF h] a(5) by simp
  qed
  then show ?thesis using a acts verify_action_list_ok [OF acts(2)] by (intro conjI exI [of _ actions] allI) blast+
qed

subsection \<open>A nano contract call\<close>

text \<open>A transaction that spends 100 of the native token, deposits 30 into a contract and keeps 70.\<close>

definition demo_settings :: hathor_settings where
  "demo_settings = mainnet_settings\<lparr>ENABLE_NANO_CONTRACTS := True\<rparr>"

definition demo_input_data :: bytes where
  "demo_input_data = concat (map push_img [[1], sample_pubkey])"

definition demo_parent :: "byte \<Rightarrow> transaction" where
  "demo_parent n = \<lparr>nonce = 0, timestamp = 100, signal_bits = 0, version = 1, weight = 0, inputs = [],
     outputs = [\<lparr>out_value = 100, out_script = p2pkh_script (replicate 20 33), token_data = 0\<rparr>], parents = [], headers = [],
     vhash = Some [n], tokens = []\<rparr>"

definition demo_header :: nano_header where
  "demo_header = \<lparr>nc_seqnum = 0, nc_id = replicate 32 7, nc_method = [102], nc_args_bytes = [],
     nc_actions = [\<lparr>action_type = DEPOSIT, token_index = 0, action_amount = 30\<rparr>],
     nc_address = 0x28 # replicate 20 33 @ replicate 4 0, nc_script = demo_input_data\<rparr>"

definition demo_call :: any_tx where
  "demo_call = RegularTx \<lparr>nonce = 0, timestamp = 200, signal_bits = 0, version = 1, weight = 0,
     inputs = [\<lparr>in_tx_id = [1], in_index = 0, in_data = demo_input_data\<rparr>],
     outputs = [\<lparr>out_value = 70, out_script = p2pkh_script (replicate 20 33), token_data = 0\<rparr>], parents = [[1], [2]],
     headers = [demo_header], vhash = Some [3], tokens = []\<rparr>"

definition demo_storage :: tx_storage where
  "demo_storage = \<lparr>st_vertices = [[1] \<mapsto> TxVertex (RegularTx (demo_parent 1)), [2] \<mapsto> TxVertex (RegularTx (demo_parent 2)),
     [14] \<mapsto> BlockVertex (demo_block 14)], st_height = (\<lambda>_. 14), best_block_tips = [[14]]\<rparr>"

definition demo_weights :: weight_env where
  "demo_weights = \<lparr>f_less = (\<lambda>_ _. False), f_eq = (=), f_add = (+), f_sub = (-), f_mul = (*), f_div = (\<lambda>a b. Inr a),
     f_pow = (\<lambda>a b. Inr a), f_log2 = Inr, f_of_int = word_of_int, f_truediv = (\<lambda>a b. word_of_int (a div b)),
     f_trunc = (\<lambda>_. Inr (2 ^ 256)), f_isfinite = (\<lambda>_. True), MIN_BLOCK_WEIGHT = 0, MIN_TX_WEIGHT = 0,
     MIN_TX_WEIGHT_COEFFICIENT = 0, MIN_TX_WEIGHT_K = 0, WEIGHT_DECAY_AMOUNT = 0, WEIGHT_TOL = 0, MAX_TX_WEIGHT_DIFF = 0,
     MAX_TX_WEIGHT_DIFF_ACTIVATION = 0, TEST_TX_WEIGHT = False, TEST_BLOCK_WEIGHT = False\<rparr>"

definition demo_service :: "unit verification_service" where
  "demo_service = \<lparr>vs_settings = demo_settings, vs_crypto = sample_crypto, vs_weights = demo_weights,
     vs_strings = \<lparr>is_space = (\<lambda>c. c = 32), upper = id\<rparr>, vs_storage = demo_storage, vs_signaling = (\<lambda>_. Inr BlockIsSignaling)\<rparr>"

lemma demo_signed:
  "signed_by sample_crypto (UtxoScriptExtras demo_call i spent_tx) sample_pubkey [1]"
  "signed_by sample_crypto (ScriptExtras (SubjectTx demo_call)) sample_pubkey [1]"
proof -
  have "case any_get_sighash_all demo_call of Inr _ \<Rightarrow> True | Inl _ \<Rightarrow> False"
    by code_simp
  then obtain bs where "any_get_sighash_all demo_call = Inr bs" by (auto split: sum.splits)
  then show "signed_by sample_crypto (UtxoScriptExtras demo_call i spent_tx) sample_pubkey [1]"
    "signed_by sample_crypto (ScriptExtras (SubjectTx demo_call)) sample_pubkey [1]"
    by (auto simp: signed_by_def sample_crypto_def sample_pubkey_def is_pubkey_compressed_def any_get_sighash_all_data_def)
qed

lemma demo_script_ops:
  "get_script_op 0 (p2pkh_script (replicate 20 33)) [] = Inr (0x76, 1, [])"
  "get_script_op 1 (p2pkh_script (replicate 20 33)) [] = Inr (0xa9, 2, [])"
  "get_script_op 2 (p2pkh_script (replicate 20 33)) [] = Inr (0x14, 23, [SBytes (replicate 20 33)])"
  "get_script_op 23 (p2pkh_script (replicate 20 33)) [] = Inr (0x88, 24, [])"
  "get_script_op 24 (p2pkh_script (replicate 20 33)) [] = Inr (0xac, 25, [])"
  by code_simp+

lemma demo_script:
  "count_sigops demo_settings (p2pkh_script (replicate 20 33)) = Inr 1"
proof -
  let ?s = "p2pkh_script (replicate 20 33)"
  have l: "int (length ?s) = 25" by (simp add: p2pkh_script_def)
  note u = count_sigops_loop.simps [of demo_settings ?s]
  have "count_sigops_loop demo_settings ?s 1 25 lo = Inr 1" for lo by (simp add: u l)
  then have "count_sigops_loop demo_settings ?s 0 23 lo = Inr 1" for lo
    by (subst u) (simp add: l demo_script_ops, subst u, simp add: l demo_script_ops count_sigop_def)
  then have "count_sigops_loop demo_settings ?s 0 1 lo = Inr 1" for lo
    by (subst u) (simp add: l demo_script_ops, subst u, simp add: l demo_script_ops count_sigop_def)
  then show ?thesis
    unfolding count_sigops_def by (subst u) (simp add: l demo_script_ops count_sigop_def)
qed

lemma demo_count:
  "count_sigops demo_settings demo_input_data = Inr 0"
  unfolding demo_input_data_def by (rule count_sigops_pushes) (simp add: short_push_def sample_pubkey_def)

lemma demo_eval:
  assumes "signed_by sample_crypto ex sample_pubkey [1]"
  shows "raw_script_eval demo_settings sample_crypto demo_input_data (p2pkh_script (replicate 20 33)) ex = Inr ()"
  by (rule p2pkh_honest_spend [OF _ _ assms])
    (simp_all add: sample_hash160 sample_pubkey_def P2PKH_create_input_data_form demo_input_data_def push_img_def)

lemma demo_checks:
  "get_spent_tx demo_storage \<lparr>in_tx_id = [1], in_index = 0, in_data = demo_input_data\<rparr> = Inr (TxVertex (RegularTx (demo_parent 1)))"
  "get_transaction demo_storage [1] = Inr (TxVertex (RegularTx (demo_parent 1)))"
  "get_transaction demo_storage [2] = Inr (TxVertex (RegularTx (demo_parent 2)))"
  "get_transaction demo_storage [14] = Inr (BlockVertex (demo_block 14))"
  by (simp_all add: get_spent_tx_def get_transaction_def demo_storage_def)

lemma demo_settings_fields [simp]:
  "P2PKH_VERSION_BYTE demo_settings = [0x28]" "HATHOR_TOKEN_UID demo_settings = [0]" "CONSENSUS_ALGORITHM demo_settings = PROOF_OF_WORK"
  "MAX_NUM_INPUTS demo_settings = 255" "MAX_NUM_OUTPUTS demo_settings = 255" "MAX_OUTPUT_SCRIPT_SIZE demo_settings = 1024"
  "MAX_INPUT_DATA_SIZE demo_settings = 1024" "MAX_TX_SIGOPS_INPUT demo_settings = 1275"
  "MAX_TX_SIGOPS_OUTPUT demo_settings = 1275" "REWARD_SPEND_MIN_BLOCKS demo_settings = 300"
  by (simp_all add: demo_settings_def mainnet_settings_def)

lemma demo_length: "length demo_input_data = 36"
  by (simp add: demo_input_data_def push_img_def sample_pubkey_def)

lemma demo_nano_signature: "verify_nc_signature demo_settings sample_crypto demo_call = Inr ()"
proof -
  let ?a = "0x28 # replicate 20 33 @ replicate 4 0 :: bytes"
  have "create_output_script demo_settings ?a None = Inr (p2pkh_script (replicate 20 33))"
    using P2PKH_create_output_script_form [of ?a] by (simp add: create_output_script_def py_nth_def binary_to_int_byte)
  then show ?thesis
    using demo_eval [OF demo_signed(2)] demo_count demo_length
    by (simp add: verify_nc_signature_def is_nano_contract_def get_nano_header_def demo_call_def demo_header_def
        ADDRESS_LEN_BYTES_def MAX_NC_SCRIPT_SIZE_def MAX_NC_SCRIPT_SIGOPS_COUNT_def get_sigops_count_def p2pkh_not_multisig catchE_def)
qed

lemma demo_pow: "verify_pow demo_settings demo_weights (as_transaction demo_call) None = Inr ()"
  by (simp add: verify_pow_def demo_call_def vertex_hash_def get_target_def demo_weights_def is_pow_def int_from_bytes_def be_val_def)

lemma length_p2pkh_script: "length (p2pkh_script h) = 5 + length h"
  by (simp add: p2pkh_script_def)

lemma demo_outputs:
  "verify_number_of_inputs demo_settings demo_call = Inr ()"
  "verify_outputs demo_settings (outputs (as_transaction demo_call)) = Inr ()"
  "verify_output_token_indexes demo_call = Inr ()"
  "verify_sigops_output demo_settings (outputs (as_transaction demo_call)) = Inr ()"
  by (simp_all add: verify_number_of_inputs_def Let_def get_minimum_number_of_inputs_def verify_outputs_def verify_number_of_outputs_def
      verify_output_token_indexes_def verify_sigops_output_def get_sigops_count_def demo_script demo_call_def is_nano_contract_def
      is_token_authority_def get_token_index_def length_p2pkh_script)

lemma demo_without_storage: "verify_without_storage demo_service (TxVertex demo_call) = Inr ()"
  using demo_nano_signature demo_pow demo_outputs
  by (simp add: demo_service_def verify_without_storage_def verify_without_storage_tx_def demo_call_def Let_def is_pow_def)

lemma demo_inputs:
  "verify_sigops_input demo_settings demo_storage demo_call = Inr ()"
  "verify_inputs demo_settings sample_crypto demo_storage demo_call False = Inr ()"
proof -
  have p: "v_outputs (TxVertex (RegularTx (demo_parent 1))) =
      [\<lparr>out_value = 100, out_script = p2pkh_script (replicate 20 33), token_data = 0\<rparr>]"
    "v_timestamp (TxVertex (RegularTx (demo_parent 1))) = 100"
    by (simp_all add: demo_parent_def)
  show "verify_sigops_input demo_settings demo_storage demo_call = Inr ()"
    using p demo_count by (simp add: demo_call_def verify_sigops_input_def demo_checks catchE_def py_nth_def get_sigops_count_def
        p2pkh_not_multisig)
  have i: "inputs (as_transaction demo_call) = [\<lparr>in_tx_id = [1], in_index = 0, in_data = demo_input_data\<rparr>]"
    "timestamp (as_transaction demo_call) = 200"
    by (simp_all add: demo_call_def)
  have v: "verify_script demo_settings sample_crypto demo_call i (TxVertex (RegularTx (demo_parent 1))) = Inr ()"
    if "i = \<lparr>in_tx_id = [1], in_index = 0, in_data = demo_input_data\<rparr>" for i
    using demo_eval [OF demo_signed(1)] p that by (simp add: script_eval_def py_nth_def)
  show "verify_inputs demo_settings sample_crypto demo_storage demo_call False = Inr ()"
    using p by (simp add: verify_inputs_def i demo_checks catchE_def demo_length v)
qed

lemma demo_sum:
  "get_complete_token_info demo_settings demo_storage demo_call = Inr [([0], \<lparr>amount = 0, can_mint = False, can_melt = False\<rparr>)]"
  "verify_sum demo_settings [([0], \<lparr>amount = 0, can_mint = False, can_melt = False\<rparr>)] = Inr ()"
proof -
  have u: "v_get_token_uid demo_settings (TxVertex (RegularTx (demo_parent 1))) 0 = Inr [0]"
    "get_token_uid demo_settings (as_transaction demo_call) 0 = Inr [0]"
    by (simp_all add: get_token_uid_def)
  have a: "get_actions demo_settings demo_call demo_header = Inr [NCDepositAction [0] 30]"
    using u by (simp add: get_actions_def demo_header_def to_nc_action_def catchE_def Let_def)
  show "get_complete_token_info demo_settings demo_storage demo_call = Inr [([0], \<lparr>amount = 0, can_mint = False, can_melt = False\<rparr>)]"
    using u a
    by (simp add: get_complete_token_info_def demo_call_def demo_checks demo_parent_def py_nth_def get_token_index_def spend_output_def
      Let_def is_token_authority_def update_token_info_from_nano_actions_def is_nano_contract_def get_nano_header_def
      dict_get_def get_default_def deposit_verification_rule_def add_output_def can_mint_token_def can_melt_token_def)
  show "verify_sum demo_settings [([0], \<lparr>amount = 0, can_mint = False, can_melt = False\<rparr>)] = Inr ()"
    by (simp add: verify_sum_def)
qed

lemma demo_graph:
  "verify_parents demo_settings demo_storage (TxVertex demo_call) = Inr ()"
  "verify_reward_locked demo_settings demo_storage demo_call \<lparr>sm_height = 0, sm_min_height = 0\<rparr> = Inr ()"
  by (simp_all add: verify_parents_def demo_call_def verify_parent_def demo_checks demo_parent_def catchE_def
      verify_reward_locked_def get_minimum_best_height_def demo_storage_def [THEN arg_cong, of best_block_tips]
      demo_storage_def [THEN arg_cong, of st_height]
      verify_reward_locked_for_height_def get_spent_reward_locked_info_def)

lemma demo_actions: "verify_actions demo_settings demo_call = Inr ()"
  by (simp add: verify_actions_def is_nano_contract_def get_nano_header_def demo_call_def demo_header_def get_actions_def
      to_nc_action_def get_token_uid_def catchE_def Let_def verify_action_list_def MAX_ACTIONS_LEN_def ALLOWED_ACTION_SETS_def NATIVE_TOKEN_UID_def)

lemma demo_verified:
  "verify demo_service (TxVertex demo_call) \<lparr>sm_height = 0, sm_min_height = 0\<rparr> True = Inr ()"
  "\<not> is_genesis demo_settings (as_transaction demo_call)"
proof -
  show g: "\<not> is_genesis demo_settings (as_transaction demo_call)"
    by (simp add: is_genesis_def demo_call_def get_all_genesis_hashes_def demo_settings_def mainnet_settings_def)
  obtain tx where tx: "demo_call = RegularTx tx" "version tx = 1" by (simp add: demo_call_def)
  have "verify_tx demo_service demo_call \<lparr>sm_height = 0, sm_min_height = 0\<rparr> True None = Inr ()"
    using demo_without_storage demo_inputs demo_sum demo_graph g by (simp add: verify_tx_def demo_service_def Let_def)
  then show "verify demo_service (TxVertex demo_call) \<lparr>sm_height = 0, sm_min_height = 0\<rparr> True = Inr ()"
    using demo_actions by (simp add: verify_def tx demo_service_def)
qed

theorem accepted_tx_balance_witness:
  "\<exists>ins acts outs. movements demo_settings demo_storage demo_call ins acts outs \<and>
    net_amount ins acts outs [0] =
      (\<Sum>t | withdraw_of demo_settings t (net_amount ins acts outs t) \<noteq> 0. withdraw_of demo_settings t (net_amount ins acts outs t)) -
      (\<Sum>t | deposit_of demo_settings t (net_amount ins acts outs t) \<noteq> 0. deposit_of demo_settings t (net_amount ins acts outs t))"
proof -
  have "demo_settings = vs_settings demo_service" "vs_storage demo_service = demo_storage" by (simp_all add: demo_service_def)
  then show ?thesis
    using accepted_tx_balance [OF demo_verified(1), of demo_settings] demo_verified(2) by auto
qed

theorem accepted_tx_inputs_witness:
  "\<exists>pubkey signature. get_hash160 sample_crypto pubkey = replicate 20 33 \<and>
     signed_by sample_crypto (UtxoScriptExtras demo_call \<lparr>in_tx_id = [1], in_index = 0, in_data = demo_input_data\<rparr>
       (TxVertex (RegularTx (demo_parent 1)))) pubkey signature"
proof -
  have "\<not> is_genesis (vs_settings demo_service) (as_transaction demo_call)"
    using demo_verified(2) by (simp add: demo_service_def)
  from accepted_tx_inputs [OF demo_verified(1) this] show ?thesis
    by (simp add: demo_service_def demo_storage_def)
      (simp add: demo_call_def demo_parent_def py_nth_def)
qed

theorem accepted_nano_call_witness:
  "\<exists>pubkey signature. get_hash160 sample_crypto pubkey = replicate 20 33 \<and>
     signed_by sample_crypto (ScriptExtras (SubjectTx demo_call)) pubkey signature"
proof -
  have "\<not> is_genesis (vs_settings demo_service) (as_transaction demo_call)"
    using demo_verified(2) by (simp add: demo_service_def)
  moreover have "get_nano_header demo_call = Inr demo_header"
    by (simp add: get_nano_header_def demo_call_def)
  ultimately show ?thesis
    using accepted_nano_call [OF demo_verified(1)] by (simp add: demo_service_def demo_header_def binary_to_int_byte)
qed

section \<open>Parents\<close>

text \<open>
  The inner loop looks up the parent block again instead of the parents of that block, so it finds a
  block and never sets \<open>min_timestamp\<close>.
\<close>

lemma block_parent_loop_block:
  assumes "get_transaction storage h = Inr p" and "v_is_block p"
  shows "block_parent_loop storage h hs m = Inr m"
  by (induction hs) (simp_all add: assms)

definition parent_ok :: "hathor_settings \<Rightarrow> vertex \<Rightarrow> vertex \<Rightarrow> bool" where
  "parent_ok stg v p \<longleftrightarrow> v_timestamp p < v_timestamp v \<and>
     (v_is_block v \<and> v_is_block p \<and> \<not> is_genesis stg (v_base p) \<longrightarrow>
        v_timestamp v - v_timestamp p \<le> MAX_DISTANCE_BETWEEN_BLOCKS stg)"

lemma verify_parent_ok:
  assumes "min_timestamp s = None"
  shows "verify_parent stg storage v h s = Inr s' \<longleftrightarrow>
    (\<exists>p. st_vertices storage h = Some p \<and> parent_ok stg v p \<and> (v_is_block p \<longrightarrow> \<not> 0 < my_parents_txs s) \<and>
       s' = (if v_is_block p then s\<lparr>my_parents_blocks := my_parents_blocks s + 1\<rparr>
             else s\<lparr>my_parents_txs := my_parents_txs s + 1\<rparr>))"
proof (cases "st_vertices storage h")
  case None
  then show ?thesis by (simp add: verify_parent_def get_transaction_def catchE_def)
next
  case (Some p)
  then have g: "get_transaction storage h = Inr p" by (simp add: get_transaction_def)
  have s: "s\<lparr>my_parents_blocks := n, min_timestamp := None\<rparr> = s\<lparr>my_parents_blocks := n\<rparr>" for n
    using assms by (cases s) simp
  show ?thesis
    using assms block_parent_loop_block [OF g] Some
    by (auto simp: verify_parent_def g catchE_def parent_ok_def s split: if_splits)
qed

lemma verify_parents_loop_Cons:
  "verify_parents_loop stg storage v (h # hs) \<lparr>my_parents_txs = t, my_parents_blocks = b, min_timestamp = None\<rparr> = Inr s' \<longleftrightarrow>
    (\<exists>p. st_vertices storage h = Some p \<and> parent_ok stg v p \<and> (v_is_block p \<longrightarrow> \<not> 0 < t) \<and>
       verify_parents_loop stg storage v hs
         (if v_is_block p then \<lparr>my_parents_txs = t, my_parents_blocks = b + 1, min_timestamp = None\<rparr>
          else \<lparr>my_parents_txs = t + 1, my_parents_blocks = b, min_timestamp = None\<rparr>) = Inr s')"
proof -
  let ?s = "\<lparr>my_parents_txs = t, my_parents_blocks = b, min_timestamp = None\<rparr>"
  let ?f = "\<lambda>p. if v_is_block p then \<lparr>my_parents_txs = t, my_parents_blocks = b + 1, min_timestamp = None\<rparr>
    else \<lparr>my_parents_txs = t + 1, my_parents_blocks = b, min_timestamp = None\<rparr>"
  have "verify_parent stg storage v h ?s = Inr s1 \<longleftrightarrow>
      (\<exists>p. st_vertices storage h = Some p \<and> parent_ok stg v p \<and> (v_is_block p \<longrightarrow> \<not> 0 < t) \<and> s1 = ?f p)" for s1
    by (subst verify_parent_ok) simp_all
  moreover have "(\<exists>x. (\<exists>p. A p \<and> B p \<and> C p \<and> x = f p) \<and> Q x) \<longleftrightarrow> (\<exists>p. A p \<and> B p \<and> C p \<and> Q (f p))" for A B C Q and f :: "vertex \<Rightarrow> parents_state"
    by blast
  ultimately show ?thesis
    unfolding verify_parents_loop.simps bindE_eq_Inr by (simp only:)
qed

lemma verify_parents_loop_ok:
  "0 \<le> t \<Longrightarrow>
   verify_parents_loop stg storage v hs \<lparr>my_parents_txs = t, my_parents_blocks = b, min_timestamp = None\<rparr> = Inr s' \<longleftrightarrow>
    (\<exists>ps. map (st_vertices storage) hs = map Some ps \<and> list_all (parent_ok stg v) ps \<and>
       sorted_wrt (\<lambda>p q. v_is_block q \<longrightarrow> v_is_block p) ps \<and> (0 < t \<longrightarrow> list_all (\<lambda>p. \<not> v_is_block p) ps) \<and>
       s' = \<lparr>my_parents_txs = t + int (length (filter (\<lambda>p. \<not> v_is_block p) ps)),
             my_parents_blocks = b + int (length (filter v_is_block ps)), min_timestamp = None\<rparr>)"
proof (induction hs arbitrary: t b)
  case (Cons h hs)
  have iff: "(\<exists>ps. map (st_vertices storage) (h # hs) = map Some ps \<and> P ps) \<longleftrightarrow>
      (\<exists>p. st_vertices storage h = Some p \<and> (\<exists>ps. map (st_vertices storage) hs = map Some ps \<and> P (p # ps)))" for P
    by (auto simp: Cons_eq_map_conv)
  show ?case
    unfolding verify_parents_loop_Cons iff
  proof (intro arg_cong [where f = Ex] ext, goal_cases)
    case (1 p)
    show ?case
    proof (cases "v_is_block p")
      case True
      then show ?thesis using Cons.prems Cons.IH [of t "b + 1"] by (auto simp: algebra_simps)
    next
      case False
      then show ?thesis using Cons.prems Cons.IH [of "t + 1" b] by (auto simp: list_all_iff algebra_simps)
    qed
  qed
qed auto

lemma blocks_first_shape:
  "sorted_wrt (\<lambda>p q. v_is_block q \<longrightarrow> v_is_block p) ps \<and> length (filter v_is_block ps) = nb \<and>
     length (filter (\<lambda>p. \<not> v_is_block p) ps) = nt \<longleftrightarrow> map v_is_block ps = replicate nb True @ replicate nt False"
proof (induction ps arbitrary: nb nt)
  case (Cons p ps)
  show ?case
  proof (cases "v_is_block p")
    case True
    then show ?thesis using Cons.IH [of "nb - 1" nt] by (cases nb) (auto simp: Cons_replicate_eq)
  next
    case False
    then have "sorted_wrt (\<lambda>p q. v_is_block q \<longrightarrow> v_is_block p) (p # ps) \<longleftrightarrow> list_all (\<lambda>q. \<not> v_is_block q) ps"
      by (auto simp: list_all_iff sorted_wrt_iff_nth_less [of _ ps])
    then show ?thesis
      using False Cons.IH [of 0 "nt - 1"] by (cases nb; cases nt) (auto simp: list_all_iff filter_empty_conv)
  qed
qed auto

lemma verify_parents_accepts:
  "verify_parents stg storage v = Inr () \<longleftrightarrow>
    distinct (v_parents v) \<and>
    (\<exists>ps. map (st_vertices storage) (v_parents v) = map Some ps \<and>
       map v_is_block ps = (if v_is_block v then [True, False, False] else [False, False]) \<and>
       (\<forall>p\<in>set ps. v_timestamp p < v_timestamp v \<and>
          (v_is_block v \<and> v_is_block p \<and> \<not> is_genesis stg (v_base p) \<longrightarrow>
             v_timestamp v - v_timestamp p \<le> MAX_DISTANCE_BETWEEN_BLOCKS stg)))"
proof -
  let ?nb = "if v_is_block v then 1 else 0 :: nat"
  have "verify_parents stg storage v = Inr () \<longleftrightarrow> distinct (v_parents v) \<and>
      (\<exists>ps. map (st_vertices storage) (v_parents v) = map Some ps \<and> list_all (parent_ok stg v) ps \<and>
         sorted_wrt (\<lambda>p q. v_is_block q \<longrightarrow> v_is_block p) ps \<and> length (filter v_is_block ps) = ?nb \<and>
         length (filter (\<lambda>p. \<not> v_is_block p) ps) = 2)"
    by (simp add: verify_parents_def bindE_eq_Inr verify_parents_loop_ok Let_def)
      (auto split: if_splits
        intro!: exI [of _ "\<lparr>my_parents_txs = 2, my_parents_blocks = int ?nb, min_timestamp = None\<rparr>"])
  also have "\<dots> \<longleftrightarrow> distinct (v_parents v) \<and>
      (\<exists>ps. map (st_vertices storage) (v_parents v) = map Some ps \<and> list_all (parent_ok stg v) ps \<and>
         map v_is_block ps = replicate ?nb True @ replicate 2 False)"
    unfolding blocks_first_shape ..
  finally show ?thesis
    by (simp add: parent_ok_def list_all_iff numeral_2_eq_2 conj_commute)
qed

text \<open>
  C27. \<^verbatim>\<open>verify_parents\<close> accepts a vertex exactly when its parents are distinct and known, older than the vertex, of the
  right kinds in the right order (one block and two transactions for a block, two transactions for a transaction),
  and, for a block, the parent block is the genesis or not too far back. The minimum timestamp that the
  code computes from the parents of the parent block puts no further condition on the parents.
\<close>

theorem verify_parents_iff:
  "verify_parents stg storage v = Inr () \<longleftrightarrow>
    distinct (v_parents v) \<and>
    (\<exists>ps. map (st_vertices storage) (v_parents v) = map Some ps \<and>
       map v_is_block ps = (if v_is_block v then [True, False, False] else [False, False]) \<and>
       (\<forall>p\<in>set ps. v_timestamp p < v_timestamp v \<and>
          (v_is_block v \<and> v_is_block p \<and> \<not> is_genesis stg (v_base p) \<longrightarrow>
             v_timestamp v - v_timestamp p \<le> MAX_DISTANCE_BETWEEN_BLOCKS stg)))"
  by (rule verify_parents_accepts)

text \<open>A block that confirms transactions older than those its parent block confirms.\<close>

definition late_parent :: block where
  "late_parent = demo_block 5\<lparr>parents := [[4], [6], [7]], vhash := Some [5]\<rparr>"

definition late_block :: block where
  "late_block = demo_block 7\<lparr>parents := [[5], [1], [2]], vhash := Some [8]\<rparr>"

definition late_storage :: tx_storage where
  "late_storage = demo_storage\<lparr>st_vertices := (st_vertices demo_storage)([5] \<mapsto> BlockVertex late_parent,
     [6] \<mapsto> TxVertex (RegularTx (demo_parent 6\<lparr>timestamp := 140\<rparr>)), [7] \<mapsto> TxVertex (RegularTx (demo_parent 7\<lparr>timestamp := 140\<rparr>)))\<rparr>"

theorem verify_parents_iff_witness:
  "verify_parents demo_settings late_storage (BlockVertex late_block) = Inr () \<and>
   (\<exists>tx. st_vertices late_storage [6] = Some tx \<and> v_timestamp (TxVertex (RegularTx (demo_parent 1))) < v_timestamp tx) \<and>
   (\<exists>tx. st_vertices late_storage [7] = Some tx \<and> v_timestamp (TxVertex (RegularTx (demo_parent 1))) < v_timestamp tx)"
proof -
  have "map (st_vertices late_storage) (v_parents (BlockVertex late_block)) =
      map Some [BlockVertex late_parent, TxVertex (RegularTx (demo_parent 1)), TxVertex (RegularTx (demo_parent 2))]"
    by (simp add: late_storage_def late_block_def demo_storage_def)
  moreover have "v_timestamp p < v_timestamp (BlockVertex late_block) \<and>
      v_timestamp (BlockVertex late_block) - v_timestamp p \<le> MAX_DISTANCE_BETWEEN_BLOCKS demo_settings"
    if "p \<in> set [BlockVertex late_parent, TxVertex (RegularTx (demo_parent 1)), TxVertex (RegularTx (demo_parent 2))]" for p
    using that by (auto simp: late_parent_def late_block_def demo_block_def demo_parent_def demo_settings_def mainnet_settings_def)
  moreover have "distinct (v_parents (BlockVertex late_block))" by (simp add: late_block_def)
  ultimately have "verify_parents demo_settings late_storage (BlockVertex late_block) = Inr ()"
    unfolding verify_parents_iff
    by (intro conjI exI [of _ "[BlockVertex late_parent, TxVertex (RegularTx (demo_parent 1)), TxVertex (RegularTx (demo_parent 2))]"]) simp_all
  then show ?thesis by (simp add: late_storage_def demo_parent_def)
qed

end
