(* ===== verification/Static_Metadata.thy ===== *)
theory Static_Metadata
  imports Service_Proofs
begin

unbundle bit_operations_syntax

text \<open>
  Static metadata (\<^verbatim>\<open>transaction/static_metadata.py\<close>): the height, the minimum height, the closest ancestor block
  and the counts of signal bits of a vertex, calculated from its dependencies; and the signal bits of a block
  (\<^verbatim>\<open>transaction/block.py\<close>, \<^verbatim>\<open>utils/int.py\<close>). The storage holds the static metadata of the stored
  vertices under their hashes.
\<close>

section \<open>Settings and storage\<close>

text \<open>The settings of feature activation that do not concern single features (\<^verbatim>\<open>feature_activation/settings.py\<close>).\<close>

record interval_settings =
  evaluation_interval :: int
  max_signal_bits :: int
  default_threshold :: int

text \<open>
  The transaction storage with what is stored beside the vertices: static metadata (the height is in \<open>st_height\<close>),
  whether a vertex is voided and fully connected (its metadata), and the height index of the best chain.
\<close>

record chain_storage = tx_storage +
  st_min_height :: "bytes \<Rightarrow> int"
  st_bit_counts :: "bytes \<Rightarrow> int list"
  st_closest_ancestor_block :: "bytes \<Rightarrow> bytes"
  st_voided :: "bytes \<Rightarrow> bool"
  st_fully_connected :: "bytes \<Rightarrow> bool"
  height_index :: "int \<Rightarrow> bytes option"

definition cs_txs :: "chain_storage \<Rightarrow> tx_storage" where
  "cs_txs cs = tx_storage.truncate cs"

definition get_vertex :: "chain_storage \<Rightarrow> bytes \<Rightarrow> vertex result" where
  "get_vertex cs h = get_transaction (cs_txs cs) h"

definition get_block :: "chain_storage \<Rightarrow> bytes \<Rightarrow> block result" where
  "get_block cs h =
     bindE (get_vertex cs h) (\<lambda>v. case v of BlockVertex b \<Rightarrow> Inr b | TxVertex _ \<Rightarrow> Inl AssertionError)"

section \<open>Signal bits of a block\<close>

fun bits_of :: "nat \<Rightarrow> int \<Rightarrow> int list" where
  "bits_of 0 n = []"
| "bits_of (Suc k) n = (if n > 0 then (n AND 1) # bits_of k (drop_bit 1 n) else [])"

text \<open>
  \<^verbatim>\<open>get_bit_list\<close>: the loop runs while the number is positive, which it is at most \<open>nat n\<close> times.
\<close>

definition get_bit_list :: "int \<Rightarrow> int \<Rightarrow> int list result" where
  "get_bit_list n min_size =
     bindE (guardE (n \<ge> 0) AssertionError) (\<lambda>_.
     let bits = bits_of (nat n) n in Inr (bits @ replicate (nat min_size - length bits) 0))"

definition get_feature_activation_bitmask :: "interval_settings \<Rightarrow> int" where
  "get_feature_activation_bitmask fs = push_bit (nat (max_signal_bits fs)) 1 - 1"

definition get_feature_activation_bit_list :: "interval_settings \<Rightarrow> block \<Rightarrow> int list result" where
  "get_feature_activation_bit_list fs b =
     bindE (guardE (signal_bits b \<le> 0xFF) AssertionError) (\<lambda>_.
     get_bit_list (signal_bits b AND get_feature_activation_bitmask fs) (max_signal_bits fs))"

definition get_feature_activation_bit_value :: "interval_settings \<Rightarrow> block \<Rightarrow> int \<Rightarrow> int result" where
  "get_feature_activation_bit_value fs b i =
     bindE (get_feature_activation_bit_list fs b) (\<lambda>bit_list. py_nth bit_list i)"

section \<open>Blocks\<close>

definition get_tx_parents :: "vertex \<Rightarrow> bytes list" where
  "get_tx_parents v = (if v_is_block v then drop 1 (v_parents v) else v_parents v)"

definition calculate_height :: "hathor_settings \<Rightarrow> chain_storage \<Rightarrow> block \<Rightarrow> int result" where
  "calculate_height stg cs b =
     (if is_genesis stg b then Inr 0
      else bindE (get_block_parent_hash b) (\<lambda>parent_hash.
        bindE (get_block cs parent_hash) (\<lambda>_.
        Inr (st_height cs parent_hash + 1))))"

fun max_min_height :: "chain_storage \<Rightarrow> bytes list \<Rightarrow> int \<Rightarrow> int result" where
  "max_min_height cs [] min_height = Inr min_height"
| "max_min_height cs (h # hs) min_height =
     bindE (get_vertex cs h) (\<lambda>_. max_min_height cs hs (max min_height (st_min_height cs h)))"

definition calculate_block_min_height :: "chain_storage \<Rightarrow> block \<Rightarrow> int result" where
  "calculate_block_min_height cs b = max_min_height cs (get_tx_parents (BlockVertex b)) 0"

definition get_previous_feature_activation_bit_counts ::
    "interval_settings \<Rightarrow> chain_storage \<Rightarrow> block \<Rightarrow> int \<Rightarrow> int list result" where
  "get_previous_feature_activation_bit_counts fs cs b height =
     (if height mod evaluation_interval fs = 0 then Inr []
      else bindE (get_block_parent_hash b) (\<lambda>parent_hash.
        bindE (get_block cs parent_hash) (\<lambda>_. Inr (st_bit_counts cs parent_hash))))"

text \<open>\<^verbatim>\<open>starmap(add, zip_longest(xs, ys, fillvalue=0))\<close>.\<close>

fun add_longest :: "int list \<Rightarrow> int list \<Rightarrow> int list" where
  "add_longest [] ys = ys"
| "add_longest xs [] = xs"
| "add_longest (x # xs) (y # ys) = (x + y) # add_longest xs ys"

definition calculate_feature_activation_bit_counts ::
    "interval_settings \<Rightarrow> chain_storage \<Rightarrow> block \<Rightarrow> int \<Rightarrow> int list result" where
  "calculate_feature_activation_bit_counts fs cs b height =
     bindE (get_previous_feature_activation_bit_counts fs cs b height) (\<lambda>previous_counts.
     bindE (get_feature_activation_bit_list fs b) (\<lambda>bit_list.
     Inr (add_longest previous_counts bit_list)))"

record block_static_metadata =
  bm_height :: int
  bm_min_height :: int
  bm_bit_counts :: "int list"

definition create_block_static_metadata ::
    "hathor_settings \<Rightarrow> interval_settings \<Rightarrow> chain_storage \<Rightarrow> block \<Rightarrow> block_static_metadata result" where
  "create_block_static_metadata stg fs cs b =
     bindE (calculate_height stg cs b) (\<lambda>height.
     bindE (calculate_block_min_height cs b) (\<lambda>min_height.
     bindE (calculate_feature_activation_bit_counts fs cs b height) (\<lambda>counts.
     Inr \<lparr>bm_height = height, bm_min_height = min_height, bm_bit_counts = counts\<rparr>)))"

section \<open>Transactions\<close>

definition calculate_inherited_min_height :: "chain_storage \<Rightarrow> any_tx \<Rightarrow> int result" where
  "calculate_inherited_min_height cs tx =
     max_min_height cs (get_tx_parents (TxVertex tx) @ map in_tx_id (inputs (as_transaction tx))) 0"

fun my_min_height_loop :: "hathor_settings \<Rightarrow> chain_storage \<Rightarrow> tx_input list \<Rightarrow> int \<Rightarrow> int result" where
  "my_min_height_loop stg cs [] min_height = Inr min_height"
| "my_min_height_loop stg cs (tx_input # tx_inputs) min_height =
     bindE (get_vertex cs (in_tx_id tx_input)) (\<lambda>spent_tx.
     my_min_height_loop stg cs tx_inputs
       (if v_is_block spent_tx
        then max min_height (st_height cs (in_tx_id tx_input) + REWARD_SPEND_MIN_BLOCKS stg + 1)
        else min_height))"

definition calculate_my_min_height :: "hathor_settings \<Rightarrow> chain_storage \<Rightarrow> any_tx \<Rightarrow> int result" where
  "calculate_my_min_height stg cs tx = my_min_height_loop stg cs (inputs (as_transaction tx)) 0"

definition calculate_tx_min_height :: "hathor_settings \<Rightarrow> chain_storage \<Rightarrow> any_tx \<Rightarrow> int result" where
  "calculate_tx_min_height stg cs tx =
     (if is_genesis stg (as_transaction tx) then Inr 0
      else bindE (calculate_inherited_min_height cs tx) (\<lambda>a.
        bindE (calculate_my_min_height stg cs tx) (\<lambda>b. Inr (max a b))))"

text \<open>
  The loop over \<^verbatim>\<open>get_all_dependencies()\<close>, a set of hashes: the order in which Python iterates over it is not
  determined, so the enumeration \<open>deps\<close> is an argument. The candidate of a block is the block, the candidate of
  a transaction is its own closest ancestor.
\<close>

definition get_all_dependencies :: "any_tx \<Rightarrow> bytes set" where
  "get_all_dependencies tx =
     set (parents (as_transaction tx)) \<union> in_tx_id ` set (inputs (as_transaction tx))"

definition candidate_block :: "chain_storage \<Rightarrow> bytes \<Rightarrow> bytes result" where
  "candidate_block cs vertex_id =
     bindE (get_vertex cs vertex_id) (\<lambda>v.
     if v_is_block v then Inr vertex_id
     else bindE (get_block cs (st_closest_ancestor_block cs vertex_id)) (\<lambda>_.
          Inr (st_closest_ancestor_block cs vertex_id)))"

fun closest_ancestor_loop :: "chain_storage \<Rightarrow> bytes list \<Rightarrow> bytes option \<Rightarrow> bytes option result" where
  "closest_ancestor_loop cs [] closest = Inr closest"
| "closest_ancestor_loop cs (vertex_id # deps) closest =
     bindE (candidate_block cs vertex_id) (\<lambda>candidate.
     closest_ancestor_loop cs deps
       (case closest of
          None \<Rightarrow> Some candidate
        | Some c \<Rightarrow> if st_height cs candidate > st_height cs c then Some candidate else Some c))"

definition calculate_closest_ancestor_block ::
    "hathor_settings \<Rightarrow> chain_storage \<Rightarrow> any_tx \<Rightarrow> bytes list \<Rightarrow> bytes result" where
  "calculate_closest_ancestor_block stg cs tx deps =
     (if is_genesis stg (as_transaction tx) then Inr (GENESIS_BLOCK_HASH stg)
      else bindE (closest_ancestor_loop cs deps None) (\<lambda>closest.
        case closest of None \<Rightarrow> Inl AssertionError | Some c \<Rightarrow> Inr c))"

record tx_static_metadata =
  tm_min_height :: int
  tm_closest_ancestor_block :: bytes

definition create_tx_static_metadata ::
    "hathor_settings \<Rightarrow> chain_storage \<Rightarrow> any_tx \<Rightarrow> bytes list \<Rightarrow> tx_static_metadata result" where
  "create_tx_static_metadata stg cs tx deps =
     bindE (calculate_tx_min_height stg cs tx) (\<lambda>min_height.
     bindE (calculate_closest_ancestor_block stg cs tx deps) (\<lambda>closest_ancestor_block.
     Inr \<lparr>tm_min_height = min_height, tm_closest_ancestor_block = closest_ancestor_block\<rparr>))"

section \<open>Minimum heights\<close>

text \<open>
  A vertex that passed \<^verbatim>\<open>verify_parents\<close> and, if it is a block, \<^verbatim>\<open>verify_no_inputs\<close> and \<^verbatim>\<open>verify_height\<close>, with the height and the
  minimum height calculated for it; or a genesis vertex, which has neither parents nor inputs.
\<close>

definition vertex_accepted :: "hathor_settings \<Rightarrow> chain_storage \<Rightarrow> vertex \<Rightarrow> int \<Rightarrow> int \<Rightarrow> bool" where
  "vertex_accepted stg cs v height min_height \<longleftrightarrow>
     (if is_genesis stg (v_base v) then v_parents v = [] \<and> inputs (v_base v) = []
      else verify_parents stg (cs_txs cs) v = Inr () \<and>
        (case v of
           TxVertex tx \<Rightarrow> calculate_tx_min_height stg cs tx = Inr min_height
         | BlockVertex b \<Rightarrow>
             calculate_height stg cs b = Inr height \<and> calculate_block_min_height cs b = Inr min_height \<and>
             verify_no_inputs b = Inr () \<and> verify_height \<lparr>sm_height = height, sm_min_height = min_height\<rparr> = Inr ()))"

definition chain_accepted :: "hathor_settings \<Rightarrow> chain_storage \<Rightarrow> bool" where
  "chain_accepted stg cs \<longleftrightarrow> (\<forall>h v. get_vertex cs h = Inr v \<longrightarrow> vertex_accepted stg cs v (st_height cs h) (st_min_height cs h))"

text \<open>The past of a vertex: all its parents, the parent block included, and all it spends, and their past.\<close>

definition dependencies :: "vertex \<Rightarrow> bytes set" where
  "dependencies v = set (v_parents v) \<union> in_tx_id ` set (inputs (v_base v))"

inductive in_past :: "chain_storage \<Rightarrow> vertex \<Rightarrow> bytes \<Rightarrow> bool" for cs v where
  direct: "h \<in> dependencies v \<Longrightarrow> in_past cs v h"
| further: "in_past cs v g \<Longrightarrow> get_vertex cs g = Inr u \<Longrightarrow> h \<in> dependencies u \<Longrightarrow> in_past cs v h"

lemma max_min_height_ok:
  "max_min_height cs hs m = Inr n \<Longrightarrow> m \<le> n \<and> (\<forall>h\<in>set hs. (\<exists>v. get_vertex cs h = Inr v) \<and> st_min_height cs h \<le> n)"
proof (induction hs arbitrary: m)
  case (Cons h hs)
  then obtain v where "get_vertex cs h = Inr v" "max_min_height cs hs (max m (st_min_height cs h)) = Inr n"
    by (auto simp: result_simps)
  with Cons.IH [OF this(2)] show ?case by auto
qed simp

lemma my_min_height_loop_ok:
  "my_min_height_loop stg cs is m = Inr n \<Longrightarrow> m \<le> n \<and>
     (\<forall>i\<in>set is. \<forall>b. get_vertex cs (in_tx_id i) = Inr (BlockVertex b) \<longrightarrow>
        st_height cs (in_tx_id i) + REWARD_SPEND_MIN_BLOCKS stg + 1 \<le> n)"
proof (induction "is" arbitrary: m)
  case (Cons i "is")
  then obtain v where v: "get_vertex cs (in_tx_id i) = Inr v"
    "my_min_height_loop stg cs is (if v_is_block v then max m (st_height cs (in_tx_id i) + REWARD_SPEND_MIN_BLOCKS stg + 1) else m) = Inr n"
    by (auto simp: result_simps)
  from Cons.IH [OF v(2)] v(1) show ?case by (auto split: if_splits)
qed simp

lemma vertex_truncate_fields [simp]:
  "is_genesis stg (generic_vertex.truncate v) = is_genesis stg v" "inputs (generic_vertex.truncate v) = inputs v"
  by (simp_all add: is_genesis_def generic_vertex.defs)

lemma tx_min_height_ok:
  assumes "calculate_tx_min_height stg cs tx = Inr m" and "\<not> is_genesis stg (as_transaction tx)"
  shows "h \<in> set (parents (as_transaction tx)) \<union> in_tx_id ` set (inputs (as_transaction tx)) \<Longrightarrow> st_min_height cs h \<le> m"
    and "i \<in> set (inputs (as_transaction tx)) \<Longrightarrow> get_vertex cs (in_tx_id i) = Inr (BlockVertex b) \<Longrightarrow>
      st_height cs (in_tx_id i) + REWARD_SPEND_MIN_BLOCKS stg < m"
proof -
  from assms obtain x y where x: "calculate_inherited_min_height cs tx = Inr x" and y: "calculate_my_min_height stg cs tx = Inr y"
    and m: "m = max x y"
    by (auto simp: calculate_tx_min_height_def result_simps)
  show "st_min_height cs h \<le> m" if "h \<in> set (parents (as_transaction tx)) \<union> in_tx_id ` set (inputs (as_transaction tx))"
  proof -
    have "st_min_height cs h \<le> x"
      using max_min_height_ok [OF x [unfolded calculate_inherited_min_height_def]] that by (simp add: get_tx_parents_def)
    then show ?thesis using m by simp
  qed
  show "st_height cs (in_tx_id i) + REWARD_SPEND_MIN_BLOCKS stg < m"
    if "i \<in> set (inputs (as_transaction tx))" "get_vertex cs (in_tx_id i) = Inr (BlockVertex b)"
    using my_min_height_loop_ok [OF y [unfolded calculate_my_min_height_def]] that m by fastforce
qed

text \<open>Along the past of a block, blocks do not get higher, and no transaction has a minimum height above the block.\<close>

definition below :: "chain_storage \<Rightarrow> int \<Rightarrow> bytes \<Rightarrow> bool" where
  "below cs H h \<longleftrightarrow> (\<forall>w. get_vertex cs h = Inr w \<longrightarrow> (if v_is_block w then st_height cs h else st_min_height cs h) \<le> H)"

lemma tx_dependencies_below:
  assumes "vertex_accepted stg cs (TxVertex tx) height m" and "m \<le> H" and "0 \<le> REWARD_SPEND_MIN_BLOCKS stg"
    and "h \<in> dependencies (TxVertex tx)"
  shows "below cs H h"
proof -
  have tx: "inputs (v_base (TxVertex tx)) = inputs (as_transaction tx)" "v_parents (TxVertex tx) = parents (as_transaction tx)"
    by simp_all
  have g: "\<not> is_genesis stg (as_transaction tx)"
    using assms(1,4) by (auto simp: vertex_accepted_def dependencies_def)
  then have p: "verify_parents stg (cs_txs cs) (TxVertex tx) = Inr ()" and m: "calculate_tx_min_height stg cs tx = Inr m"
    using assms(1) by (auto simp: vertex_accepted_def)
  from p obtain ps where ps: "map (st_vertices (cs_txs cs)) (parents (as_transaction tx)) = map Some ps" "map v_is_block ps = [False, False]"
    unfolding verify_parents_accepts tx by (elim conjE exE) simp
  have parent: "\<not> v_is_block w" if "h \<in> set (parents (as_transaction tx))" "get_vertex cs h = Inr w" for w
  proof -
    have "Some w \<in> set (map (st_vertices (cs_txs cs)) (parents (as_transaction tx)))"
      using that by (force simp: get_vertex_def get_transaction_def split: option.splits)
    then have "w \<in> set ps" unfolding ps(1) by auto
    then have "v_is_block w \<in> set (map v_is_block ps)" by simp
    then show ?thesis unfolding ps(2) by simp
  qed
  have "(if v_is_block w then st_height cs h else st_min_height cs h) \<le> H" if w: "get_vertex cs h = Inr w" for w
  proof (cases w)
    case (BlockVertex b)
    with parent w assms(4) obtain i where "i \<in> set (inputs (as_transaction tx))" "h = in_tx_id i"
      by (auto simp: dependencies_def tx)
    then show ?thesis using tx_min_height_ok(2) [OF m g] w BlockVertex assms(2,3) by fastforce
  next
    case (TxVertex t)
    then show ?thesis using tx_min_height_ok(1) [OF m g, of h] assms(2,4) by (fastforce simp: dependencies_def tx)
  qed
  then show ?thesis by (simp add: below_def)
qed

lemma block_dependencies_below:
  assumes "vertex_accepted stg cs (BlockVertex b) height m" and "height \<le> H" and "h \<in> dependencies (BlockVertex b)"
  shows "below cs H h"
proof -
  have b: "inputs (v_base (BlockVertex b)) = inputs b" "v_parents (BlockVertex b) = parents b"
    by simp_all
  have g: "\<not> is_genesis stg b" using assms(1,3) by (auto simp: vertex_accepted_def dependencies_def)
  then have p: "verify_parents stg (cs_txs cs) (BlockVertex b) = Inr ()" and height: "calculate_height stg cs b = Inr height"
    and m: "calculate_block_min_height cs b = Inr m" and "inputs b = []" and le: "m \<le> height"
    using assms(1) by (auto simp: vertex_accepted_def verify_no_inputs_def verify_height_def guardE_def split: if_splits)
  then have h: "h \<in> set (parents b)" using assms(3) by (simp add: dependencies_def b)
  from p obtain ps where ps: "map (st_vertices (cs_txs cs)) (parents b) = map Some ps" "map v_is_block ps = [True, False, False]"
    unfolding verify_parents_accepts b by (elim conjE exE) simp
  then obtain x y z where xyz: "ps = [x, y, z]" "v_is_block x" "\<not> v_is_block y" "\<not> v_is_block z" by (auto simp: map_eq_Cons_conv)
  with ps(1) obtain hx hy hz where hs: "parents b = [hx, hy, hz]" "get_vertex cs hx = Inr x" "get_vertex cs hy = Inr y" "get_vertex cs hz = Inr z"
    by (auto simp: map_eq_Cons_conv get_vertex_def get_transaction_def)
  have "st_height cs hx + 1 = height"
    using height g hs by (auto simp: calculate_height_def get_block_parent_hash_def py_nth_def result_simps)
  moreover have "st_min_height cs hy \<le> m" "st_min_height cs hz \<le> m"
    using max_min_height_ok [OF m [unfolded calculate_block_min_height_def]] hs by (auto simp: get_tx_parents_def b)
  ultimately show ?thesis using h hs xyz assms(2) le by (auto simp: below_def)
qed

lemma past_below:
  assumes "chain_accepted stg cs" and "0 \<le> REWARD_SPEND_MIN_BLOCKS stg"
    and "vertex_accepted stg cs (BlockVertex b) height m" and "in_past cs (BlockVertex b) h"
  shows "below cs height h"
  using assms(4)
proof induction
  case (direct h)
  then show ?case using block_dependencies_below [OF assms(3)] by simp
next
  case (further g u h)
  have u: "vertex_accepted stg cs u (st_height cs g) (st_min_height cs g)"
    using assms(1) further by (simp add: chain_accepted_def)
  show ?case
  proof (cases u)
    case (TxVertex tx)
    then show ?thesis using further u tx_dependencies_below [OF _ _ assms(2)] by (auto simp: below_def)
  next
    case (BlockVertex c)
    then show ?thesis using further u block_dependencies_below by (auto simp: below_def)
  qed
qed

text \<open>
  C33. The reward lock holds in the whole past of an accepted block. Let the vertices of a storage have passed
  \<^verbatim>\<open>verify_parents\<close> and, the blocks, \<^verbatim>\<open>verify_no_inputs\<close> and \<^verbatim>\<open>verify_height\<close> with the static metadata calculated for them,
  and let a new block pass them too. Then every block reward that is spent by a transaction in the past of the new block, reached
  through any chain of parent blocks, parent transactions and inputs, is more than \<^verbatim>\<open>REWARD_SPEND_MIN_BLOCKS\<close> blocks lower than the
  new block.
\<close>

theorem reward_lock_past:
  assumes "chain_accepted stg cs" and "0 \<le> REWARD_SPEND_MIN_BLOCKS stg"
    and "\<not> is_genesis stg b" and "create_block_static_metadata stg fs cs b = Inr m"
    and "verify_parents stg (cs_txs cs) (BlockVertex b) = Inr ()" and "verify_no_inputs b = Inr ()"
    and "verify_height \<lparr>sm_height = bm_height m, sm_min_height = bm_min_height m\<rparr> = Inr ()"
    and "in_past cs (BlockVertex b) t" and "get_vertex cs t = Inr (TxVertex tx)"
    and "i \<in> set (inputs (as_transaction tx))" and "get_vertex cs (in_tx_id i) = Inr (BlockVertex reward)"
  shows "st_height cs (in_tx_id i) + REWARD_SPEND_MIN_BLOCKS stg < bm_height m"
proof -
  have "vertex_accepted stg cs (BlockVertex b) (bm_height m) (bm_min_height m)"
    using assms(3-7) by (auto simp: vertex_accepted_def create_block_static_metadata_def result_simps)
  from past_below [OF assms(1,2) this assms(8)] have "st_min_height cs t \<le> bm_height m"
    using assms(9) by (simp add: below_def)
  moreover have tx: "vertex_accepted stg cs (TxVertex tx) (st_height cs t) (st_min_height cs t)"
    using assms(1,9) by (simp add: chain_accepted_def)
  then have g: "\<not> is_genesis stg (as_transaction tx)"
    using assms(10) by (auto simp: vertex_accepted_def)
  then have "calculate_tx_min_height stg cs tx = Inr (st_min_height cs t)" using tx by (simp add: vertex_accepted_def)
  from tx_min_height_ok(2) [OF this g assms(10,11)] calculation show ?thesis by linarith
qed

text \<open>
  A chain of blocks \<open>3\<close>, \<open>4\<close>, \<open>6\<close> over the genesis vertices \<open>0\<close>, \<open>1\<close>, \<open>2\<close>, in which transaction \<open>5\<close> spends the reward of block
  \<open>3\<close> and block \<open>6\<close> confirms it. The new block \<open>7\<close> has it in its past through its parent block only.
\<close>

definition past_settings :: hathor_settings where
  "past_settings = mainnet_settings\<lparr>REWARD_SPEND_MIN_BLOCKS := 1, GENESIS_BLOCK_HASH := [0], GENESIS_TX1_HASH := [1], GENESIS_TX2_HASH := [2]\<rparr>"

definition past_tx :: "byte \<Rightarrow> tx_input list \<Rightarrow> bytes list \<Rightarrow> any_tx" where
  "past_tx n is ps = RegularTx \<lparr>nonce = 0, timestamp = 30 * uint n, signal_bits = 0, version = 1, weight = 0, inputs = is, outputs = [],
     parents = ps, headers = [], vhash = Some [n], tokens = []\<rparr>"

definition past_block :: "byte \<Rightarrow> bytes list \<Rightarrow> block" where
  "past_block n ps = demo_block n\<lparr>parents := ps\<rparr>"

definition past_input :: tx_input where
  "past_input = \<lparr>in_tx_id = [3], in_index = 0, in_data = []\<rparr>"

definition past_storage :: chain_storage where
  "past_storage = \<lparr>st_vertices = [[0] \<mapsto> BlockVertex (past_block 0 []), [1] \<mapsto> TxVertex (past_tx 1 [] []), [2] \<mapsto> TxVertex (past_tx 2 [] []),
       [3] \<mapsto> BlockVertex (past_block 3 [[0], [1], [2]]), [4] \<mapsto> BlockVertex (past_block 4 [[3], [1], [2]]),
       [5] \<mapsto> TxVertex (past_tx 5 [past_input] [[1], [2]]), [6] \<mapsto> BlockVertex (past_block 6 [[4], [5], [1]])],
     st_height = (\<lambda>h. if h = [3] then 1 else if h = [4] then 2 else if h = [6] then 3 else 0), best_block_tips = [[6]],
     st_min_height = (\<lambda>h. if h = [5] \<or> h = [6] then 3 else 0), st_bit_counts = (\<lambda>_. [0, 0, 0, 0]),
     st_closest_ancestor_block = (\<lambda>_. [0]), st_voided = (\<lambda>_. False), st_fully_connected = (\<lambda>_. True), height_index = (\<lambda>_. None)\<rparr>"

lemma past_vertices:
  "get_vertex past_storage h =
     (if h = [6] then Inr (BlockVertex (past_block 6 [[4], [5], [1]])) else if h = [5] then Inr (TxVertex (past_tx 5 [past_input] [[1], [2]]))
      else if h = [4] then Inr (BlockVertex (past_block 4 [[3], [1], [2]])) else if h = [3] then Inr (BlockVertex (past_block 3 [[0], [1], [2]]))
      else if h = [2] then Inr (TxVertex (past_tx 2 [] [])) else if h = [1] then Inr (TxVertex (past_tx 1 [] []))
      else if h = [0] then Inr (BlockVertex (past_block 0 [])) else Inl TransactionDoesNotExist)"
  by (simp add: get_vertex_def get_transaction_def cs_txs_def past_storage_def tx_storage.defs)

lemma past_fields [simp]:
  "inputs (as_transaction (past_tx n is ps)) = is" "parents (as_transaction (past_tx n is ps)) = ps" "in_tx_id past_input = [3]"
  "inputs (past_block n ps) = []" "parents (past_block n ps) = ps" "REWARD_SPEND_MIN_BLOCKS past_settings = 1"
  "timestamp (past_block n ps) = 30 * uint n" "timestamp (as_transaction (past_tx n is ps)) = 30 * uint n"
  "is_genesis past_settings (past_block n ps) \<longleftrightarrow> n \<in> {0, 1, 2}"
  "is_genesis past_settings (as_transaction (past_tx n is ps)) \<longleftrightarrow> n \<in> {0, 1, 2}"
  "MAX_DISTANCE_BETWEEN_BLOCKS past_settings = 4500"
  by (auto simp: past_tx_def past_block_def past_input_def demo_block_def past_settings_def mainnet_settings_def is_genesis_def
      get_all_genesis_hashes_def)

lemma past_lookup:
  "st_vertices (cs_txs past_storage) h = (case get_vertex past_storage h of Inr v \<Rightarrow> Some v | Inl e \<Rightarrow> None)"
  by (simp add: get_vertex_def get_transaction_def split: option.splits)

lemma past_parents:
  "verify_parents past_settings (cs_txs past_storage) (BlockVertex (past_block 3 [[0], [1], [2]])) = Inr ()"
  "verify_parents past_settings (cs_txs past_storage) (BlockVertex (past_block 4 [[3], [1], [2]])) = Inr ()"
  "verify_parents past_settings (cs_txs past_storage) (BlockVertex (past_block 6 [[4], [5], [1]])) = Inr ()"
  "verify_parents past_settings (cs_txs past_storage) (BlockVertex (past_block 7 [[6], [1], [2]])) = Inr ()"
  "verify_parents past_settings (cs_txs past_storage) (TxVertex (past_tx 5 [past_input] [[1], [2]])) = Inr ()"
  unfolding verify_parents_accepts past_lookup
  by (simp_all add: past_vertices map_eq_Cons_conv Cons_eq_map_conv)

lemma past_heights:
  "calculate_height past_settings past_storage (past_block 3 [[0], [1], [2]]) = Inr 1"
  "calculate_height past_settings past_storage (past_block 4 [[3], [1], [2]]) = Inr 2"
  "calculate_height past_settings past_storage (past_block 6 [[4], [5], [1]]) = Inr 3"
  "calculate_height past_settings past_storage (past_block 7 [[6], [1], [2]]) = Inr 4"
  "calculate_block_min_height past_storage (past_block 3 [[0], [1], [2]]) = Inr 0"
  "calculate_block_min_height past_storage (past_block 4 [[3], [1], [2]]) = Inr 0"
  "calculate_block_min_height past_storage (past_block 6 [[4], [5], [1]]) = Inr 3"
  "calculate_block_min_height past_storage (past_block 7 [[6], [1], [2]]) = Inr 0"
  "calculate_tx_min_height past_settings past_storage (past_tx 5 [past_input] [[1], [2]]) = Inr 3"
proof -
  have st: "st_height past_storage = (\<lambda>h. if h = [3] then 1 else if h = [4] then 2 else if h = [6] then 3 else 0)"
    "st_min_height past_storage = (\<lambda>h. if h = [5] \<or> h = [6] then 3 else 0)"
    by (simp_all add: past_storage_def)
  note defs = calculate_height_def get_block_parent_hash_def py_nth_def get_block_def past_vertices calculate_block_min_height_def
    get_tx_parents_def calculate_tx_min_height_def calculate_inherited_min_height_def calculate_my_min_height_def st
  show
    "calculate_height past_settings past_storage (past_block 3 [[0], [1], [2]]) = Inr 1"
    "calculate_height past_settings past_storage (past_block 4 [[3], [1], [2]]) = Inr 2"
    "calculate_height past_settings past_storage (past_block 6 [[4], [5], [1]]) = Inr 3"
    "calculate_height past_settings past_storage (past_block 7 [[6], [1], [2]]) = Inr 4"
    "calculate_block_min_height past_storage (past_block 3 [[0], [1], [2]]) = Inr 0"
    "calculate_block_min_height past_storage (past_block 4 [[3], [1], [2]]) = Inr 0"
    "calculate_block_min_height past_storage (past_block 6 [[4], [5], [1]]) = Inr 3"
    "calculate_block_min_height past_storage (past_block 7 [[6], [1], [2]]) = Inr 0"
    "calculate_tx_min_height past_settings past_storage (past_tx 5 [past_input] [[1], [2]]) = Inr 3"
    by (simp_all add: defs)
qed

lemma past_accepted: "chain_accepted past_settings past_storage"
proof -
  have st: "st_height past_storage [3] = 1" "st_height past_storage [4] = 2" "st_height past_storage [6] = 3"
    "st_min_height past_storage [3] = 0" "st_min_height past_storage [4] = 0" "st_min_height past_storage [5] = 3"
    "st_min_height past_storage [6] = 3"
    by (simp_all add: past_storage_def)
  show ?thesis
    unfolding chain_accepted_def
    by (simp add: past_vertices vertex_accepted_def past_parents past_heights st verify_no_inputs_def verify_height_def)
qed

theorem reward_lock_past_witness:
  "\<exists>m. create_block_static_metadata past_settings \<lparr>evaluation_interval = 3, max_signal_bits = 4, default_threshold = 3\<rparr>
         past_storage (past_block 7 [[6], [1], [2]]) = Inr m \<and> st_height past_storage [3] + 1 < bm_height m"
proof -
  let ?fs = "\<lparr>evaluation_interval = 3, max_signal_bits = 4, default_threshold = 3\<rparr>"
  let ?b = "past_block 7 [[6], [1], [2]]"
  let ?m = "\<lparr>bm_height = 4, bm_min_height = 0, bm_bit_counts = [0, 0, 0, 0]\<rparr>"
  have zeros: "replicate 4 (0 :: int) = [0, 0, 0, 0]" by (simp add: eval_nat_numeral)
  have "signal_bits ?b = 0" by (simp add: past_block_def demo_block_def)
  moreover have "st_bit_counts past_storage [6] = [0, 0, 0, 0]" by (simp add: past_storage_def)
  ultimately have m: "create_block_static_metadata past_settings ?fs past_storage ?b = Inr ?m"
    by (simp add: create_block_static_metadata_def past_heights calculate_feature_activation_bit_counts_def get_block_parent_hash_def
        py_nth_def get_block_def past_vertices get_previous_feature_activation_bit_counts_def get_feature_activation_bit_list_def
        get_bit_list_def zeros)
  have "in_past past_storage (BlockVertex ?b) [6]" by (rule in_past.direct) (simp add: dependencies_def)
  then have past: "in_past past_storage (BlockVertex ?b) [5]"
    by (rule in_past.further [where u = "BlockVertex (past_block 6 [[4], [5], [1]])"]) (simp_all add: past_vertices dependencies_def)
  have "st_height past_storage (in_tx_id past_input) + REWARD_SPEND_MIN_BLOCKS past_settings < bm_height ?m"
    by (rule reward_lock_past [OF past_accepted _ _ m past_parents(4) _ _ past,
          of "past_tx 5 [past_input] [[1], [2]]" _ "past_block 3 [[0], [1], [2]]"])
      (simp_all add: verify_height_def verify_no_inputs_def past_vertices)
  with m show ?thesis by simp
qed

section \<open>The closest ancestor block\<close>

text \<open>The blocks that may be chosen: candidates of a dependency such that no dependency has a higher candidate.\<close>

definition highest_candidate :: "chain_storage \<Rightarrow> bytes set \<Rightarrow> bytes \<Rightarrow> bool" where
  "highest_candidate cs D b \<longleftrightarrow> (\<exists>d\<in>D. candidate_block cs d = Inr b) \<and>
     (\<forall>d\<in>D. \<forall>a. candidate_block cs d = Inr a \<longrightarrow> st_height cs a \<le> st_height cs b)"

lemma closest_ancestor_loop_total:
  assumes "\<forall>d\<in>set deps. \<exists>a. candidate_block cs d = Inr a"
  shows "\<exists>r. closest_ancestor_loop cs deps c = Inr r \<and> (c \<noteq> None \<or> deps \<noteq> [] \<longrightarrow> r \<noteq> None)"
  using assms
proof (induction deps arbitrary: c)
  case (Cons d deps)
  then obtain a where a: "candidate_block cs d = Inr a" by auto
  let ?c = "case c of None \<Rightarrow> Some a | Some c \<Rightarrow> if st_height cs a > st_height cs c then Some a else Some c"
  have "?c \<noteq> None" by (cases c) auto
  with Cons.IH [of ?c] Cons.prems a show ?case by auto
qed simp

lemma closest_ancestor_loop_ok:
  assumes "closest_ancestor_loop cs deps c = Inr r"
  shows "(\<forall>d\<in>set deps. \<exists>a. candidate_block cs d = Inr a \<and> (\<exists>b. r = Some b \<and> st_height cs a \<le> st_height cs b)) \<and>
    (\<forall>a. c = Some a \<longrightarrow> (\<exists>b. r = Some b \<and> st_height cs a \<le> st_height cs b)) \<and>
    (\<forall>b. r = Some b \<longrightarrow> c = Some b \<or> (\<exists>d\<in>set deps. candidate_block cs d = Inr b))"
  using assms
proof (induction deps arbitrary: c)
  case (Cons d deps)
  then obtain a where a: "candidate_block cs d = Inr a"
    and rest: "closest_ancestor_loop cs deps
       (case c of None \<Rightarrow> Some a | Some c \<Rightarrow> if st_height cs a > st_height cs c then Some a else Some c) = Inr r"
    by (auto simp: result_simps)
  from Cons.IH [OF rest] a show ?case
    by (cases c) (auto split: if_splits)
qed auto

text \<open>Nothing replaces a block that no later candidate exceeds.\<close>

lemma closest_ancestor_loop_stays:
  assumes "\<forall>d\<in>set deps. \<exists>a. candidate_block cs d = Inr a \<and> st_height cs a \<le> st_height cs b"
  shows "closest_ancestor_loop cs deps (Some b) = Inr (Some b)"
  using assms
proof (induction deps)
  case (Cons d deps)
  then obtain a where "candidate_block cs d = Inr a" "st_height cs a \<le> st_height cs b" by auto
  then show ?case using Cons by simp
qed simp

text \<open>
  C34. Whatever the order in which the set of dependencies of a transaction is enumerated, its closest ancestor block is a
  highest candidate of the dependencies. Among several highest candidates the order decides: for each of them there is
  an enumeration of the set that makes it the closest ancestor block.
\<close>

theorem closest_ancestor_highest:
  assumes "\<not> is_genesis stg (as_transaction tx)" and "get_all_dependencies tx \<noteq> {}"
    and "\<forall>d\<in>get_all_dependencies tx. \<exists>a. candidate_block cs d = Inr a"
  shows "(\<forall>deps. set deps = get_all_dependencies tx \<longrightarrow>
      (\<exists>b. calculate_closest_ancestor_block stg cs tx deps = Inr b \<and> highest_candidate cs (get_all_dependencies tx) b)) \<and>
    (\<forall>b. highest_candidate cs (get_all_dependencies tx) b \<longrightarrow>
      (\<exists>deps. distinct deps \<and> set deps = get_all_dependencies tx \<and> calculate_closest_ancestor_block stg cs tx deps = Inr b))"
proof (intro conjI allI impI)
  fix deps assume deps: "set deps = get_all_dependencies tx"
  then have "deps \<noteq> []" using assms(2) by auto
  then obtain b where b: "closest_ancestor_loop cs deps None = Inr (Some b)"
    using closest_ancestor_loop_total [of deps cs None] assms(3) deps by auto
  have "\<exists>d\<in>get_all_dependencies tx. candidate_block cs d = Inr b"
    and "\<And>d. d \<in> get_all_dependencies tx \<Longrightarrow> \<exists>a. candidate_block cs d = Inr a \<and> st_height cs a \<le> st_height cs b"
    using closest_ancestor_loop_ok [OF b] unfolding deps by auto
  then have "highest_candidate cs (get_all_dependencies tx) b" unfolding highest_candidate_def by fastforce
  with b show "\<exists>b. calculate_closest_ancestor_block stg cs tx deps = Inr b \<and> highest_candidate cs (get_all_dependencies tx) b"
    using assms(1) by (auto simp: calculate_closest_ancestor_block_def)
next
  fix b assume b: "highest_candidate cs (get_all_dependencies tx) b"
  then obtain d where d: "d \<in> get_all_dependencies tx" "candidate_block cs d = Inr b" by (auto simp: highest_candidate_def)
  have "finite (get_all_dependencies tx)" by (simp add: get_all_dependencies_def)
  then obtain ds where ds: "distinct ds" "set ds = get_all_dependencies tx - {d}"
    using finite_distinct_list [of "get_all_dependencies tx - {d}"] by auto
  have "\<exists>a. candidate_block cs d' = Inr a \<and> st_height cs a \<le> st_height cs b" if "d' \<in> set ds" for d'
  proof -
    have "d' \<in> get_all_dependencies tx" using that ds by simp
    then obtain a where "candidate_block cs d' = Inr a" "st_height cs a \<le> st_height cs b"
      using assms(3) b unfolding highest_candidate_def by blast
    then show ?thesis by blast
  qed
  then have "closest_ancestor_loop cs (d # ds) None = Inr (Some b)"
    using closest_ancestor_loop_stays [of ds cs b] d by simp
  then show "\<exists>deps. distinct deps \<and> set deps = get_all_dependencies tx \<and> calculate_closest_ancestor_block stg cs tx deps = Inr b"
    using assms(1) d ds by (intro exI [of _ "d # ds"]) (auto simp: calculate_closest_ancestor_block_def)
qed

text \<open>A transaction that spends the rewards of two blocks of the same height.\<close>

definition tie_storage :: chain_storage where
  "tie_storage = past_storage\<lparr>st_height := (\<lambda>_. 310)\<rparr>"

definition tie_tx :: any_tx where
  "tie_tx = past_tx 8 [past_input, past_input\<lparr>in_tx_id := [4]\<rparr>] []"

theorem closest_ancestor_highest_witness:
  "\<exists>deps deps'. set deps = set deps' \<and> calculate_closest_ancestor_block past_settings tie_storage tie_tx deps = Inr [3] \<and>
     calculate_closest_ancestor_block past_settings tie_storage tie_tx deps' = Inr [4]"
proof -
  have deps: "get_all_dependencies tie_tx = {[3], [4]}" by (simp add: get_all_dependencies_def tie_tx_def)
  have g: "\<not> is_genesis past_settings (as_transaction tie_tx)" by (simp add: tie_tx_def)
  have "get_vertex tie_storage = get_vertex past_storage"
    by (simp add: fun_eq_iff get_vertex_def get_transaction_def cs_txs_def tie_storage_def tx_storage.defs)
  then have c: "candidate_block tie_storage [3] = Inr [3]" "candidate_block tie_storage [4] = Inr [4]"
    by (simp_all add: candidate_block_def past_vertices)
  then have h: "highest_candidate tie_storage {[3], [4]} [3]" "highest_candidate tie_storage {[3], [4]} [4]"
    by (simp_all add: highest_candidate_def tie_storage_def)
  have "\<forall>d\<in>get_all_dependencies tie_tx. \<exists>a. candidate_block tie_storage d = Inr a" using c deps by simp
  note all = closest_ancestor_highest [OF g _ this, unfolded deps, simplified, THEN conjunct2, rule_format]
  from all [OF h(1)] obtain ds where ds: "set ds = {[3], [4]}" "calculate_closest_ancestor_block past_settings tie_storage tie_tx ds = Inr [3]"
    by blast
  from all [OF h(2)] obtain ds' where "set ds' = {[3], [4]}" "calculate_closest_ancestor_block past_settings tie_storage tie_tx ds' = Inr [4]"
    by blast
  with ds show ?thesis by (intro exI [of _ ds] exI [of _ ds']) simp
qed

end
