(* ===== verification/Feature_Activation.thy ===== *)
theory Feature_Activation
  imports Static_Metadata
begin

text \<open>
  Feature activation (\<^verbatim>\<open>hathor/feature_activation\<close>): the criteria of a feature and their validation, the settings and the
  check that no two features use a signal bit at the same time, the states of a feature along the chain with the
  cache in the metadata of blocks, mandatory signaling, and the service that chooses the signal bits of
  mined blocks.
\<close>

section \<open>Features, states and criteria\<close>

datatype feature = NOP_FEATURE_1 | NOP_FEATURE_2 | NOP_FEATURE_3 | INCREASE_MAX_MERKLE_PATH_LENGTH

datatype feature_state = DEFINED | STARTED | MUST_SIGNAL | LOCKED_IN | ACTIVE | FAILED

definition is_active :: "feature_state \<Rightarrow> bool" where
  "is_active s = (s = ACTIVE)"

definition get_signaling_states :: "feature_state list" where
  "get_signaling_states = [STARTED, MUST_SIGNAL, LOCKED_IN]"

text \<open>The version string of a criteria plays no part after its regular expression has matched and is left out.\<close>

record criteria =
  c_bit :: int
  start_height :: int
  timeout_height :: int
  c_threshold :: "int option"
  minimum_activation_height :: int
  lock_in_on_timeout :: bool
  signal_support_by_default :: bool

record feature_settings = interval_settings +
  features :: "(feature \<times> criteria) list"

definition get_threshold :: "'a interval_settings_scheme \<Rightarrow> criteria \<Rightarrow> int" where
  "get_threshold fs c = (case c_threshold c of Some t \<Rightarrow> t | None \<Rightarrow> default_threshold fs)"

section \<open>Validation of the settings\<close>

text \<open>
  The field types (\<^verbatim>\<open>NonNegativeInt\<close>, \<^verbatim>\<open>PositiveInt\<close>, \<^verbatim>\<open>Field(ge=1, le=8)\<close>) and the validators; a field that
  does not validate makes the construction of the model raise a \<^verbatim>\<open>ValidationError\<close>, a \<^verbatim>\<open>ValueError\<close>.
\<close>

definition criteria_fields_ok :: "criteria \<Rightarrow> bool" where
  "criteria_fields_ok c \<longleftrightarrow> 0 \<le> c_bit c \<and> 0 \<le> start_height c \<and> 0 \<le> timeout_height c \<and>
     (case c_threshold c of Some t \<Rightarrow> 0 \<le> t | None \<Rightarrow> True) \<and> 0 \<le> minimum_activation_height c"

definition validate_bit :: "int \<Rightarrow> criteria \<Rightarrow> bool" where
  "validate_bit max_bits c \<longleftrightarrow> \<not> c_bit c \<ge> max_bits"

definition validate_timeout_height :: "int \<Rightarrow> criteria \<Rightarrow> bool" where
  "validate_timeout_height interval c \<longleftrightarrow> \<not> timeout_height c < start_height c + 2 * interval"

definition validate_threshold :: "int \<Rightarrow> criteria \<Rightarrow> bool" where
  "validate_threshold interval c \<longleftrightarrow> (case c_threshold c of Some t \<Rightarrow> \<not> t > interval | None \<Rightarrow> True)"

definition validate_evaluation_interval_multiple :: "int \<Rightarrow> criteria \<Rightarrow> bool" where
  "validate_evaluation_interval_multiple interval c \<longleftrightarrow>
     start_height c mod interval = 0 \<and> timeout_height c mod interval = 0 \<and> minimum_activation_height c mod interval = 0"

definition to_validated :: "int \<Rightarrow> int \<Rightarrow> criteria \<Rightarrow> criteria result" where
  "to_validated interval max_bits c =
     bindE (guardE (criteria_fields_ok c \<and> validate_bit max_bits c \<and> validate_timeout_height interval c \<and>
                    validate_threshold interval c \<and> validate_evaluation_interval_multiple interval c) ValueError) (\<lambda>_.
     Inr c)"

record feature_interval =
  fi_begin :: int
  fi_end :: int
  fi_feature :: feature

definition get_intervals_of_bit :: "(feature \<times> criteria) list \<Rightarrow> int \<Rightarrow> feature_interval list" where
  "get_intervals_of_bit fcs i =
     map (\<lambda>(f, c). \<lparr>fi_begin = start_height c, fi_end = timeout_height c, fi_feature = f\<rparr>) (filter (\<lambda>(f, c). c_bit c = i) fcs)"

text \<open>The dictionary of lists, its keys in the order of their first use.\<close>

definition get_intervals_by_bit :: "(feature \<times> criteria) list \<Rightarrow> (int \<times> feature_interval list) list" where
  "get_intervals_by_bit fcs =
     map (\<lambda>i. (i, get_intervals_of_bit fcs i)) (rev (remdups (rev (map (c_bit \<circ> snd) fcs))))"

fun overlap_loop ::
    "feature_interval option \<Rightarrow> feature_interval list \<Rightarrow> (feature_interval \<times> feature_interval) option" where
  "overlap_loop previous [] = None"
| "overlap_loop previous (current # intervals) =
     (case previous of
        Some p \<Rightarrow> if fi_begin current \<le> fi_end p then Some (p, current) else overlap_loop (Some current) intervals
      | None \<Rightarrow> overlap_loop (Some current) intervals)"

definition find_overlap :: "feature_interval list \<Rightarrow> (feature_interval \<times> feature_interval) option" where
  "find_overlap intervals = overlap_loop None (sort_key fi_begin intervals)"

definition validate_conflicting_bits :: "(feature \<times> criteria) list \<Rightarrow> bool" where
  "validate_conflicting_bits fcs \<longleftrightarrow>
     list_all (\<lambda>(i, intervals). find_overlap intervals = None) (get_intervals_by_bit fcs)"

definition validate_features :: "int \<Rightarrow> int \<Rightarrow> (feature \<times> criteria) list \<Rightarrow> (feature \<times> criteria) list result" where
  "validate_features interval max_bits fcs =
     map_result (\<lambda>(f, c). bindE (to_validated interval max_bits c) (\<lambda>c. Inr (f, c))) fcs"

text \<open>Constructing the settings: the fields in their order, a dictionary has its keys once.\<close>

definition make_feature_settings :: "int \<Rightarrow> int \<Rightarrow> int \<Rightarrow> (feature \<times> criteria) list \<Rightarrow> feature_settings result" where
  "make_feature_settings interval max_bits dflt fcs =
     bindE (guardE (0 < interval \<and> 1 \<le> max_bits \<and> max_bits \<le> 8 \<and> 0 \<le> dflt \<and> \<not> dflt > interval) ValueError) (\<lambda>_.
     bindE (validate_features interval max_bits fcs) (\<lambda>fcs.
     bindE (guardE (validate_conflicting_bits fcs) ValueError) (\<lambda>_.
     Inr \<lparr>evaluation_interval = interval, max_signal_bits = max_bits, default_threshold = dflt, features = fcs\<rparr>)))"

section \<open>The service (\<^verbatim>\<open>feature_service.py\<close>, \<^verbatim>\<open>bit_signaling_service.py\<close>)\<close>

text \<open>
  What the services change: the feature states cached in the metadata of the blocks, and the features the
  user supports and does not support.
\<close>

record feature_cache =
  feature_states :: "bytes \<Rightarrow> feature \<Rightarrow> feature_state option"
  support_features :: "feature set"
  not_support_features :: "feature set"

record feature_env =
  fe_settings :: hathor_settings
  fe_features :: feature_settings
  fe_storage :: chain_storage

definition block_height :: "feature_env \<Rightarrow> block \<Rightarrow> int result" where
  "block_height env b = bindE (vertex_hash b) (\<lambda>h. Inr (st_height (fe_storage env) h))"

definition block_bit_counts :: "feature_env \<Rightarrow> block \<Rightarrow> int list result" where
  "block_bit_counts env b = bindE (vertex_hash b) (\<lambda>h. Inr (st_bit_counts (fe_storage env) h))"

definition block_parent :: "feature_env \<Rightarrow> block \<Rightarrow> block result" where
  "block_parent env b = get_block_parent (cs_txs (fe_storage env)) b"

definition get_feature_state :: "feature_cache \<Rightarrow> bytes \<Rightarrow> feature \<Rightarrow> feature_state option" where
  "get_feature_state s h f = feature_states s h f"

definition set_feature_state :: "bytes \<Rightarrow> feature \<Rightarrow> feature_state \<Rightarrow> feature_cache \<Rightarrow> feature_cache result" where
  "set_feature_state h f st s =
     (let previous_state = get_feature_state s h f
      in if previous_state = Some st then Inr s
         else bindE (guardE (previous_state = None) AssertionError) (\<lambda>_.
              Inr (s\<lparr>feature_states := (feature_states s)(h := (feature_states s h)(f := Some st))\<rparr>)))"

definition add_feature_support :: "feature \<Rightarrow> feature_cache \<Rightarrow> feature_cache" where
  "add_feature_support f s =
     s\<lparr>not_support_features := not_support_features s - {f}, support_features := insert f (support_features s)\<rparr>"

definition remove_feature_support :: "feature \<Rightarrow> feature_cache \<Rightarrow> feature_cache" where
  "remove_feature_support f s =
     s\<lparr>support_features := support_features s - {f}, not_support_features := insert f (not_support_features s)\<rparr>"

definition on_must_signal :: "feature \<Rightarrow> feature_cache \<Rightarrow> feature_cache" where
  "on_must_signal f s = add_feature_support f s"

definition get_block_by_height :: "feature_env \<Rightarrow> int \<Rightarrow> block option result" where
  "get_block_by_height env height =
     (case height_index (fe_storage env) height of
        None \<Rightarrow> Inr None
      | Some h \<Rightarrow> bindE (get_block (fe_storage env) h) (\<lambda>b. Inr (Some b)))"

text \<open>
  The loop of \<^verbatim>\<open>_get_ancestor_iteratively\<close> with a bound on its rounds: the height drops by one in each, so the
  difference of the heights is enough.
\<close>

fun ancestor_loop :: "feature_env \<Rightarrow> int \<Rightarrow> nat \<Rightarrow> block \<Rightarrow> block result" where
  "ancestor_loop env ancestor_height n ancestor =
     bindE (block_height env ancestor) (\<lambda>height.
     if height > ancestor_height then
       (case n of
          0 \<Rightarrow> Inl RecursionError
        | Suc n \<Rightarrow> bindE (block_parent env ancestor) (\<lambda>parent. ancestor_loop env ancestor_height n parent))
     else Inr ancestor)"

definition get_ancestor_iteratively :: "feature_env \<Rightarrow> block \<Rightarrow> int \<Rightarrow> block result" where
  "get_ancestor_iteratively env b ancestor_height =
     bindE (guardE (ancestor_height \<ge> 0) AssertionError) (\<lambda>_.
     bindE (block_height env b) (\<lambda>height.
     bindE (guardE (height - ancestor_height \<le> evaluation_interval (fe_features env)) AssertionError) (\<lambda>_.
     ancestor_loop env ancestor_height (nat (height - ancestor_height)) b)))"

definition get_ancestor_at_height :: "feature_env \<Rightarrow> block \<Rightarrow> int \<Rightarrow> block result" where
  "get_ancestor_at_height env b ancestor_height =
     bindE (block_height env b) (\<lambda>height.
     bindE (guardE (ancestor_height < height) AssertionError) (\<lambda>_.
     bindE (block_parent env b) (\<lambda>parent_block.
     bindE (vertex_hash parent_block) (\<lambda>parent_hash.
     bindE (guardE (st_fully_connected (fe_storage env) parent_hash) AssertionError) (\<lambda>_.
     bindE (block_height env parent_block) (\<lambda>parent_height.
     if parent_height = ancestor_height then Inr parent_block
     else if \<not> st_voided (fe_storage env) parent_hash then
       bindE (get_block_by_height env ancestor_height) (\<lambda>ancestor.
       case ancestor of None \<Rightarrow> Inl AssertionError | Some a \<Rightarrow> Inr a)
     else get_ancestor_iteratively env parent_block ancestor_height))))))"

section \<open>States\<close>

definition calculate_new_state :: "feature_env \<Rightarrow> block \<Rightarrow> feature \<Rightarrow> feature_state \<Rightarrow> feature_state result" where
  "calculate_new_state env boundary_block f previous_state =
     bindE (block_height env boundary_block) (\<lambda>height.
     case map_of (features (fe_features env)) f of
       None \<Rightarrow> Inr DEFINED
     | Some c \<Rightarrow>
         let interval = evaluation_interval (fe_features env) in
         bindE (guardE (\<not> is_genesis (fe_settings env) boundary_block) AssertionError) (\<lambda>_.
         bindE (guardE (height mod interval = 0) AssertionError) (\<lambda>_.
         case previous_state of
           DEFINED \<Rightarrow> Inr (if height \<ge> start_height c then STARTED else DEFINED)
         | STARTED \<Rightarrow>
             if height \<ge> timeout_height c \<and> \<not> lock_in_on_timeout c then Inr FAILED
             else bindE (block_parent env boundary_block) (\<lambda>parent_block.
               bindE (block_bit_counts env parent_block) (\<lambda>counts.
               bindE (py_nth counts (c_bit c)) (\<lambda>count.
               if height < timeout_height c \<and> count \<ge> get_threshold (fe_features env) c then Inr LOCKED_IN
               else if height + interval \<ge> timeout_height c \<and> lock_in_on_timeout c then Inr MUST_SIGNAL
               else Inr STARTED)))
         | MUST_SIGNAL \<Rightarrow> Inr LOCKED_IN
         | LOCKED_IN \<Rightarrow> Inr (if height \<ge> minimum_activation_height c then ACTIVE else LOCKED_IN)
         | ACTIVE \<Rightarrow> Inr ACTIVE
         | FAILED \<Rightarrow> Inr FAILED)))"

text \<open>
  \<^verbatim>\<open>get_state\<close> calls itself on the previous boundary block. The first argument is the depth of calls that is left before
  Python raises a \<^verbatim>\<open>RecursionError\<close>.
\<close>

fun get_state :: "nat \<Rightarrow> feature_env \<Rightarrow> block \<Rightarrow> feature \<Rightarrow> feature_cache \<Rightarrow> (feature_state \<times> feature_cache) result" where
  "get_state 0 env b f s = Inl RecursionError"
| "get_state (Suc depth) env b f s =
     (if is_genesis (fe_settings env) b then Inr (DEFINED, s)
      else bindE (vertex_hash b) (\<lambda>h.
        case get_feature_state s h f of
          Some st \<Rightarrow> Inr (st, s)
        | None \<Rightarrow>
            bindE (block_height env b) (\<lambda>height.
            let interval = evaluation_interval (fe_features env);
                offset_to_boundary = height mod interval;
                offset_to_previous_boundary = (if offset_to_boundary \<noteq> 0 then offset_to_boundary else interval);
                previous_boundary_height = height - offset_to_previous_boundary in
            bindE (guardE (previous_boundary_height \<ge> 0) AssertionError) (\<lambda>_.
            bindE (get_ancestor_at_height env b previous_boundary_height) (\<lambda>previous_boundary_block.
            bindE (get_state depth env previous_boundary_block f s) (\<lambda>(previous_boundary_state, s).
            bindE (vertex_hash previous_boundary_block) (\<lambda>ph.
            bindE (set_feature_state ph f previous_boundary_state s) (\<lambda>s.
            if offset_to_boundary \<noteq> 0 then Inr (previous_boundary_state, s)
            else bindE (calculate_new_state env b f previous_boundary_state) (\<lambda>new_state.
              let s = (if new_state = MUST_SIGNAL then on_must_signal f s else s) in
              bindE (set_feature_state h f new_state s) (\<lambda>s.
              Inr (new_state, s)))))))))))"

definition get_feature_activation_block :: "feature_env \<Rightarrow> vertex \<Rightarrow> block result" where
  "get_feature_activation_block env v =
     (case v of
        BlockVertex b \<Rightarrow> Inr b
      | TxVertex tx \<Rightarrow>
          bindE (vertex_hash (as_transaction tx)) (\<lambda>h.
          get_block (fe_storage env) (st_closest_ancestor_block (fe_storage env) h)))"

definition is_feature_active :: "nat \<Rightarrow> feature_env \<Rightarrow> vertex \<Rightarrow> feature \<Rightarrow> feature_cache \<Rightarrow> (bool \<times> feature_cache) result" where
  "is_feature_active depth env v f s =
     bindE (get_feature_activation_block env v) (\<lambda>b.
     bindE (get_state depth env b f s) (\<lambda>(state, s). Inr (is_active state, s)))"

fun feature_infos_loop ::
    "nat \<Rightarrow> feature_env \<Rightarrow> block \<Rightarrow> (feature \<times> criteria) list \<Rightarrow> feature_cache \<Rightarrow>
     ((feature \<times> criteria \<times> feature_state) list \<times> feature_cache) result" where
  "feature_infos_loop depth env b [] s = Inr ([], s)"
| "feature_infos_loop depth env b ((f, c) # fcs) s =
     bindE (get_state depth env b f s) (\<lambda>(state, s).
     bindE (feature_infos_loop depth env b fcs s) (\<lambda>(infos, s).
     Inr ((f, c, state) # infos, s)))"

definition get_feature_infos ::
    "nat \<Rightarrow> feature_env \<Rightarrow> vertex \<Rightarrow> feature_cache \<Rightarrow> ((feature \<times> criteria \<times> feature_state) list \<times> feature_cache) result" where
  "get_feature_infos depth env v s =
     bindE (get_feature_activation_block env v) (\<lambda>b.
     feature_infos_loop depth env b (features (fe_features env)) s)"

definition get_feature_states ::
    "nat \<Rightarrow> feature_env \<Rightarrow> vertex \<Rightarrow> feature_cache \<Rightarrow> ((feature \<times> feature_state) list \<times> feature_cache) result" where
  "get_feature_states depth env v s =
     bindE (get_feature_infos depth env v s) (\<lambda>(infos, s). Inr (map (\<lambda>(f, c, state). (f, state)) infos, s))"

section \<open>Mandatory signaling\<close>

fun missing_signal_loop ::
    "feature_settings \<Rightarrow> int list \<Rightarrow> int \<Rightarrow> (feature \<times> criteria \<times> feature_state) list \<Rightarrow> feature block_signaling_state result" where
  "missing_signal_loop fs bit_counts remaining_blocks [] = Inr BlockIsSignaling"
| "missing_signal_loop fs bit_counts remaining_blocks ((f, c, state) # infos) =
     (if state \<noteq> MUST_SIGNAL then missing_signal_loop fs bit_counts remaining_blocks infos
      else bindE (py_nth bit_counts (c_bit c)) (\<lambda>count.
        if get_threshold fs c - count > remaining_blocks then Inr (BlockIsMissingSignal f)
        else missing_signal_loop fs bit_counts remaining_blocks infos))"

definition is_signaling_mandatory_features ::
    "nat \<Rightarrow> feature_env \<Rightarrow> block \<Rightarrow> feature_cache \<Rightarrow> (feature block_signaling_state \<times> feature_cache) result" where
  "is_signaling_mandatory_features depth env b s =
     bindE (block_bit_counts env b) (\<lambda>bit_counts.
     bindE (block_height env b) (\<lambda>height.
     let interval = evaluation_interval (fe_features env);
         offset_to_boundary = height mod interval;
         remaining_blocks = interval - offset_to_boundary - 1 in
     bindE (get_feature_infos depth env (BlockVertex b) s) (\<lambda>(feature_infos, s).
     bindE (missing_signal_loop (fe_features env) bit_counts remaining_blocks feature_infos) (\<lambda>r. Inr (r, s)))))"

section \<open>Signal bits of mined blocks\<close>

definition validate_support_intersection :: "feature_cache \<Rightarrow> unit result" where
  "validate_support_intersection s = guardE (support_features s \<inter> not_support_features s = {}) ValueError"

definition get_signaling_features ::
    "nat \<Rightarrow> feature_env \<Rightarrow> block \<Rightarrow> feature_cache \<Rightarrow> ((feature \<times> criteria) list \<times> feature_cache) result" where
  "get_signaling_features depth env b s =
     bindE (get_feature_infos depth env (BlockVertex b) s) (\<lambda>(feature_infos, s).
     let signaling_features =
           map (\<lambda>(f, c, state). (f, c)) (filter (\<lambda>(f, c, state). List.member get_signaling_states state) feature_infos) in
     bindE (guardE (int (length signaling_features) \<le> max_signal_bits (fe_features env)) AssertionError) (\<lambda>_.
     Inr (signaling_features, s)))"

definition calculate_feature_signals ::
    "nat \<Rightarrow> feature_env \<Rightarrow> block \<Rightarrow> feature_cache \<Rightarrow> ((feature \<times> criteria \<times> bool) list \<times> feature_cache) result" where
  "calculate_feature_signals depth env b s =
     bindE (get_signaling_features depth env b s) (\<lambda>(signaling_features, s).
     Inr (map (\<lambda>(f, c).
            let default_enable_bit = signal_support_by_default c;
                support = (f \<in> support_features s);
                not_support = (f \<in> not_support_features s)
            in (f, c, (default_enable_bit \<or> support) \<and> \<not> not_support)) signaling_features, s))"

definition generate_signal_bits :: "nat \<Rightarrow> feature_env \<Rightarrow> block \<Rightarrow> feature_cache \<Rightarrow> (int \<times> feature_cache) result" where
  "generate_signal_bits depth env b s =
     bindE (calculate_feature_signals depth env b s) (\<lambda>(feature_signals, s).
     Inr (foldl (\<lambda>bits (f, c, enable_bit). bits OR push_bit (nat (c_bit c)) (of_bool enable_bit)) 0 feature_signals, s))"

definition get_support_features :: "nat \<Rightarrow> feature_env \<Rightarrow> block \<Rightarrow> feature_cache \<Rightarrow> (feature list \<times> feature_cache) result" where
  "get_support_features depth env best_block s =
     bindE (calculate_feature_signals depth env best_block s) (\<lambda>(feature_signals, s).
     Inr (map fst (filter (\<lambda>(f, c, enable_bit). enable_bit) feature_signals), s))"

definition get_not_support_features :: "nat \<Rightarrow> feature_env \<Rightarrow> block \<Rightarrow> feature_cache \<Rightarrow> (feature list \<times> feature_cache) result" where
  "get_not_support_features depth env best_block s =
     bindE (calculate_feature_signals depth env best_block s) (\<lambda>(feature_signals, s).
     Inr (map fst (filter (\<lambda>(f, c, enable_bit). \<not> enable_bit) feature_signals), s))"

section \<open>Settings kept in the database (\<^verbatim>\<open>feature_activation_storage.py\<close>)\<close>

text \<open>The stored settings, and what starting with new settings makes of them.\<close>

definition reset_settings :: "feature_settings option \<Rightarrow> feature_settings option" where
  "reset_settings db = None"

fun validate_db_features :: "(feature \<times> criteria) list \<Rightarrow> (feature \<times> criteria) list \<Rightarrow> bool" where
  "validate_db_features [] new_features = True"
| "validate_db_features ((f, c) # db_features) new_features =
     (case map_of new_features f of
        None \<Rightarrow> False
      | Some new_criteria \<Rightarrow> new_criteria = c \<and> validate_db_features db_features new_features)"

definition validate_settings :: "feature_settings option \<Rightarrow> feature_settings \<Rightarrow> feature_settings option result" where
  "validate_settings db new_settings =
     (case db of
        None \<Rightarrow> Inr (Some new_settings)
      | Some db_settings \<Rightarrow>
          bindE (guardE (interval_settings.truncate new_settings = interval_settings.truncate db_settings) InitializationError) (\<lambda>_.
          bindE (guardE (validate_db_features (features db_settings) (features new_settings)) InitializationError) (\<lambda>_.
          Inr (Some new_settings))))"

end
