(* ===== verification/Feature_Proofs.thy ===== *)
theory Feature_Proofs
  imports Feature_Activation
begin

unbundle bit_operations_syntax

text \<open>
  Properties of feature activation: the counts and ancestors on a chain, the refinement of the recursive, cached
  computation of states by a specification that counts signals per interval, the life of a feature, the
  validation of the settings, mandatory signaling and the signal bits of mined blocks.
\<close>

section \<open>Bits and chains\<close>

lemma bits_of_padded:
  assumes "0 \<le> n" and "n < 2 ^ m" and "nat n \<le> k"
  shows "length (bits_of k n) \<le> m \<and>
    (\<forall>i<m. (bits_of k n @ replicate (m - length (bits_of k n)) 0) ! i = of_bool (bit n i))"
  using assms
proof (induction m arbitrary: n k)
  case 0
  then have "n = 0" by simp
  then show ?case by (cases k) simp_all
next
  case (Suc m)
  show ?case
  proof (cases "n = 0")
    case True
    then have "bits_of k n = []" by (cases k) simp_all
    then show ?thesis using True by (auto simp del: replicate_Suc)
  next
    case False
    then obtain j where k: "k = Suc j" using Suc.prems(1,3) by (cases k) auto
    let ?r = "drop_bit 1 n"
    have r: "?r = n div 2" by (simp add: drop_bit_Suc)
    have "0 \<le> ?r" "?r < 2 ^ m" "nat ?r \<le> j" using Suc.prems False k unfolding r by auto
    from Suc.IH [OF this] have ih: "length (bits_of j ?r) \<le> m"
      "\<And>i. i < m \<Longrightarrow> (bits_of j ?r @ replicate (m - length (bits_of j ?r)) 0) ! i = of_bool (bit ?r i)" by auto
    have b: "bits_of k n = (n AND 1) # bits_of j ?r" using False Suc.prems(1) k by simp
    have "of_bool (bit n 0) = n AND 1" by (simp add: bit_0 and_one_eq mod_2_eq_odd)
    with ih show ?thesis
      unfolding b by (auto simp: nth_Cons bit_drop_bit_eq less_Suc_eq_0_disj split: nat.splits)
  qed
qed

lemma bit_list_ok:
  assumes "0 \<le> signal_bits b" and "signal_bits b \<le> 0xFF" and "0 \<le> max_signal_bits fs"
  obtains l where "get_feature_activation_bit_list fs b = Inr l" and "int (length l) = max_signal_bits fs"
    and "\<And>i. i < length l \<Longrightarrow> l ! i = of_bool (bit (signal_bits b) i)"
proof -
  let ?m = "nat (max_signal_bits fs)"
  let ?n = "signal_bits b AND get_feature_activation_bitmask fs"
  have mask: "get_feature_activation_bitmask fs = mask ?m"
    by (simp add: get_feature_activation_bitmask_def mask_eq_exp_minus_1)
  then have n: "?n = take_bit ?m (signal_bits b)" by (simp add: take_bit_eq_mask)
  have range: "0 \<le> ?n" "?n < 2 ^ ?m" unfolding n by (auto simp: take_bit_int_less_exp)
  let ?l = "bits_of (nat ?n) ?n @ replicate (?m - length (bits_of (nat ?n) ?n)) 0"
  have "get_feature_activation_bit_list fs b = Inr ?l"
    using assms range by (simp add: get_feature_activation_bit_list_def get_bit_list_def Let_def)
  moreover have "length ?l = ?m" using bits_of_padded [OF range order_refl] by simp
  moreover have "?l ! i = of_bool (bit (signal_bits b) i)" if "i < ?m" for i
    using bits_of_padded [OF range order_refl] that by (simp add: n bit_take_bit_iff)
  ultimately show thesis using that assms(3) by auto
qed

lemma add_longest_nth:
  "length xs = length ys \<Longrightarrow> length (add_longest xs ys) = length ys \<and> (\<forall>i<length ys. add_longest xs ys ! i = xs ! i + ys ! i)"
  by (induction xs ys rule: add_longest.induct) (auto simp: nth_Cons split: nat.splits)

text \<open>
  A chain of blocks from the genesis up to height \<open>n\<close>, as the storage of a node has it below the block at
  height \<open>n\<close>, which need not be stored yet: every block has its static metadata, the blocks below the last
  are stored under their hashes and fully connected, and the height index has the ancestors of every block that is not
  voided.
\<close>

definition block_hash :: "block \<Rightarrow> bytes" where
  "block_hash b = the (vhash b)"

definition chain_ok :: "feature_env \<Rightarrow> (nat \<Rightarrow> block) \<Rightarrow> nat \<Rightarrow> bool" where
  "chain_ok env chain n \<longleftrightarrow>
     (\<forall>i\<le>n. vhash (chain i) \<noteq> None \<and> (is_genesis (fe_settings env) (chain i) \<longleftrightarrow> i = 0) \<and>
        st_height (fe_storage env) (block_hash (chain i)) = int i \<and> 0 \<le> signal_bits (chain i) \<and> signal_bits (chain i) \<le> 0xFF \<and>
        calculate_feature_activation_bit_counts (interval_settings.truncate (fe_features env)) (fe_storage env) (chain i) (int i) =
          Inr (st_bit_counts (fe_storage env) (block_hash (chain i)))) \<and>
     (\<forall>i<n. get_block_parent_hash (chain (Suc i)) = Inr (block_hash (chain i)) \<and>
        st_vertices (fe_storage env) (block_hash (chain i)) = Some (BlockVertex (chain i)) \<and>
        st_fully_connected (fe_storage env) (block_hash (chain i)) \<and>
        (\<not> st_voided (fe_storage env) (block_hash (chain i)) \<longrightarrow>
           (\<forall>j\<le>i. height_index (fe_storage env) (int j) = Some (block_hash (chain j)))))"

lemma chain_ok_mono: "chain_ok env chain n \<Longrightarrow> m \<le> n \<Longrightarrow> chain_ok env chain m"
  unfolding chain_ok_def
proof (elim conjE, intro conjI)
  assume mn: "m \<le> n"
  show "\<forall>i\<le>m. P i" if "\<forall>i\<le>n. P i" for P using that mn by simp
  show "\<forall>i<m. P i" if "\<forall>i<n. P i" for P using that mn by simp
qed

lemma chain_hash: "chain_ok env chain n \<Longrightarrow> i \<le> n \<Longrightarrow> vertex_hash (chain i) = Inr (block_hash (chain i))"
  by (fastforce simp: chain_ok_def vertex_hash_def block_hash_def)

lemma chain_height: "chain_ok env chain n \<Longrightarrow> i \<le> n \<Longrightarrow> block_height env (chain i) = Inr (int i)"
  by (simp add: block_height_def chain_hash) (simp add: chain_ok_def)

lemma chain_stored: "chain_ok env chain n \<Longrightarrow> i < n \<Longrightarrow> get_block (fe_storage env) (block_hash (chain i)) = Inr (chain i)"
  by (simp add: chain_ok_def get_block_def get_vertex_def get_transaction_def cs_txs_def tx_storage.defs)

lemma chain_parent: "chain_ok env chain n \<Longrightarrow> i < n \<Longrightarrow> block_parent env (chain (Suc i)) = Inr (chain i)"
  by (simp add: chain_ok_def block_parent_def get_block_parent_def get_transaction_def cs_txs_def tx_storage.defs)

subsection \<open>Counts\<close>

text \<open>The number of blocks that signal a bit, from the last boundary up to height \<open>n\<close>.\<close>

definition signal_count :: "nat \<Rightarrow> (nat \<Rightarrow> block) \<Rightarrow> nat \<Rightarrow> nat \<Rightarrow> int" where
  "signal_count interval chain i n = (\<Sum>j=n - n mod interval..n. of_bool (bit (signal_bits (chain j)) i))"

lemma signal_count_boundary:
  "n mod interval = 0 \<Longrightarrow> signal_count interval chain i n = of_bool (bit (signal_bits (chain n)) i)"
  by (simp add: signal_count_def)

lemma signal_count_Suc:
  assumes "Suc n mod interval \<noteq> 0"
  shows "signal_count interval chain i (Suc n) = signal_count interval chain i n + of_bool (bit (signal_bits (chain (Suc n))) i)"
proof -
  have "Suc n mod interval = Suc (n mod interval)" using assms by (auto simp: mod_Suc split: if_splits)
  then have "Suc n - Suc n mod interval = n - n mod interval" by simp
  moreover have "n - n mod interval \<le> Suc n" by simp
  ultimately show ?thesis by (simp add: signal_count_def)
qed

lemma int_mod_interval: "0 < e \<Longrightarrow> int n mod e = int (n mod nat e)"
  by (simp add: zmod_int)

lemma chain_counts:
  assumes "chain_ok env chain n" and "0 < evaluation_interval (fe_features env)" and "0 \<le> max_signal_bits (fe_features env)"
  shows "int (length (st_bit_counts (fe_storage env) (block_hash (chain n)))) = max_signal_bits (fe_features env) \<and>
    (\<forall>i<length (st_bit_counts (fe_storage env) (block_hash (chain n))).
       st_bit_counts (fe_storage env) (block_hash (chain n)) ! i =
         signal_count (nat (evaluation_interval (fe_features env))) chain i n)"
  using assms(1)
proof (induction n)
  case (0)
  let ?fs = "interval_settings.truncate (fe_features env)"
  have fs: "max_signal_bits ?fs = max_signal_bits (fe_features env)" "evaluation_interval ?fs = evaluation_interval (fe_features env)"
    by (simp_all add: interval_settings.defs)
  obtain l where l: "get_feature_activation_bit_list ?fs (chain 0) = Inr l" "int (length l) = max_signal_bits ?fs"
      "\<And>i. i < length l \<Longrightarrow> l ! i = of_bool (bit (signal_bits (chain 0)) i)"
    using 0 assms(3) fs by (auto intro: bit_list_ok [of "chain 0" ?fs] simp: chain_ok_def)
  have "calculate_feature_activation_bit_counts ?fs (fe_storage env) (chain 0) 0 = Inr l"
    by (simp add: calculate_feature_activation_bit_counts_def get_previous_feature_activation_bit_counts_def l(1))
  with 0 have "st_bit_counts (fe_storage env) (block_hash (chain 0)) = l" by (simp add: chain_ok_def)
  with l fs show ?case by (simp add: signal_count_def)
next
  case (Suc n)
  let ?fs = "interval_settings.truncate (fe_features env)" and ?e = "evaluation_interval (fe_features env)"
  let ?c = "\<lambda>n. st_bit_counts (fe_storage env) (block_hash (chain n))"
  have fs: "max_signal_bits ?fs = max_signal_bits (fe_features env)" "evaluation_interval ?fs = ?e"
    by (simp_all add: interval_settings.defs)
  have ih: "int (length (?c n)) = max_signal_bits (fe_features env)"
    "\<And>i. i < length (?c n) \<Longrightarrow> ?c n ! i = signal_count (nat ?e) chain i n"
    using Suc.IH [OF chain_ok_mono [OF Suc.prems]] by auto
  obtain l where l: "get_feature_activation_bit_list ?fs (chain (Suc n)) = Inr l" "int (length l) = max_signal_bits ?fs"
      "\<And>i. i < length l \<Longrightarrow> l ! i = of_bool (bit (signal_bits (chain (Suc n))) i)"
    using Suc.prems assms(3) fs by (auto intro: bit_list_ok [of "chain (Suc n)" ?fs] simp: chain_ok_def)
  have c: "calculate_feature_activation_bit_counts ?fs (fe_storage env) (chain (Suc n)) (int (Suc n)) = Inr (?c (Suc n))"
    using Suc.prems unfolding chain_ok_def by blast
  have m: "int (Suc n) mod ?e = 0 \<longleftrightarrow> Suc n mod nat ?e = 0"
    by (simp only: int_mod_interval [OF assms(2)] of_nat_eq_0_iff)
  have p: "get_block_parent_hash (chain (Suc n)) = Inr (block_hash (chain n))" using Suc.prems by (simp add: chain_ok_def)
  show ?case
  proof (cases "Suc n mod nat ?e = 0")
    case True
    then have "?c (Suc n) = l"
      using c m l(1) fs by (simp add: calculate_feature_activation_bit_counts_def get_previous_feature_activation_bit_counts_def)
    then show ?thesis using l fs signal_count_boundary [OF True] by simp
  next
    case False
    then have "?c (Suc n) = add_longest (?c n) l"
      using c m l(1) fs p chain_stored [OF Suc.prems, of n]
      by (simp add: calculate_feature_activation_bit_counts_def get_previous_feature_activation_bit_counts_def)
    moreover have "length (?c n) = length l" using ih(1) l(2) fs by simp
    ultimately show ?thesis
      using add_longest_nth [of "?c n" l] ih l fs signal_count_Suc [OF False] by simp
  qed
qed

subsection \<open>The specification of the states\<close>

text \<open>
  What a feature with criteria \<open>c\<close> and threshold \<open>t\<close> does at the boundary at height \<open>h\<close> when \<open>n\<close> blocks of the interval that
  ends there signaled it.
\<close>

fun advance_state :: "int \<Rightarrow> int \<Rightarrow> criteria \<Rightarrow> int \<Rightarrow> int \<Rightarrow> feature_state \<Rightarrow> feature_state" where
  "advance_state e t c h n DEFINED = (if start_height c \<le> h then STARTED else DEFINED)"
| "advance_state e t c h n STARTED =
     (if timeout_height c \<le> h \<and> \<not> lock_in_on_timeout c then FAILED
      else if h < timeout_height c \<and> t \<le> n then LOCKED_IN
      else if timeout_height c \<le> h + e \<and> lock_in_on_timeout c then MUST_SIGNAL
      else STARTED)"
| "advance_state e t c h n MUST_SIGNAL = LOCKED_IN"
| "advance_state e t c h n LOCKED_IN = (if minimum_activation_height c \<le> h then ACTIVE else LOCKED_IN)"
| "advance_state e t c h n ACTIVE = ACTIVE"
| "advance_state e t c h n FAILED = FAILED"

text \<open>The state in the interval number \<open>k\<close>, from the numbers of signals in the intervals.\<close>

primrec interval_state :: "int \<Rightarrow> int \<Rightarrow> criteria \<Rightarrow> (nat \<Rightarrow> int) \<Rightarrow> nat \<Rightarrow> feature_state" where
  "interval_state e t c count 0 = DEFINED"
| "interval_state e t c count (Suc k) = advance_state e t c (int (Suc k) * e) (count k) (interval_state e t c count k)"

text \<open>The number of signals for a bit in the whole interval number \<open>k\<close>.\<close>

definition interval_count :: "nat \<Rightarrow> (nat \<Rightarrow> block) \<Rightarrow> nat \<Rightarrow> nat \<Rightarrow> int" where
  "interval_count interval chain i k = (\<Sum>j=k * interval..<Suc k * interval. of_bool (bit (signal_bits (chain j)) i))"

lemma signal_count_interval:
  assumes "0 < interval"
  shows "signal_count interval chain i (Suc k * interval - 1) = interval_count interval chain i k"
proof -
  have n: "Suc k * interval - 1 = interval - 1 + k * interval" using assms by simp
  have "(Suc k * interval - 1) mod interval = (interval - 1) mod interval" unfolding n by (rule mod_mult_self1)
  also have "\<dots> = interval - 1" using assms by (intro mod_less) simp
  finally have m: "(Suc k * interval - 1) mod interval = interval - 1" .
  have "Suc k * interval - 1 - (Suc k * interval - 1) mod interval = k * interval" unfolding m using assms by simp
  moreover have "{k * interval..Suc k * interval - 1} = {k * interval..<Suc k * interval}" using assms by auto
  ultimately show ?thesis by (simp only: signal_count_def interval_count_def)
qed

definition chain_state :: "feature_env \<Rightarrow> (nat \<Rightarrow> block) \<Rightarrow> nat \<Rightarrow> feature \<Rightarrow> feature_state" where
  "chain_state env chain n f =
     (let e = evaluation_interval (fe_features env) in
      case map_of (features (fe_features env)) f of
        None \<Rightarrow> DEFINED
      | Some c \<Rightarrow>
          interval_state e (get_threshold (fe_features env) c) c (interval_count (nat e) chain (nat (c_bit c))) (n div nat e))"

text \<open>What the validation of the settings guarantees.\<close>

definition settings_ok :: "feature_settings \<Rightarrow> bool" where
  "settings_ok fs \<longleftrightarrow>
     make_feature_settings (evaluation_interval fs) (max_signal_bits fs) (default_threshold fs) (features fs) = Inr fs"

lemma map_result_id: "map_result g xs = Inr ys \<Longrightarrow> (\<And>x y. g x = Inr y \<Longrightarrow> y = x \<and> P x) \<Longrightarrow> ys = xs \<and> list_all P xs"
  by (induction xs arbitrary: ys) (auto simp: result_simps)

lemma validate_features_iff:
  "map_result (\<lambda>(f, c). bindE (to_validated e m c) (\<lambda>c. Inr (f, c))) fcs = Inr gcs \<longleftrightarrow>
   gcs = fcs \<and> (\<forall>(f, c)\<in>set fcs. to_validated e m c = Inr c)"
proof (induction fcs arbitrary: gcs)
  case Nil
  then show ?case by auto
next
  case (Cons fc fcs)
  obtain f c where fc: "fc = (f, c)" by (cases fc)
  have "c' = c" if "to_validated e m c = Inr c'" for c' using that by (simp add: to_validated_def guardE_def split: if_splits)
  with Cons.IH show ?case unfolding fc by (cases "to_validated e m c") (auto simp: result_simps)
qed

lemma settings_okD:
  assumes "settings_ok fs"
  shows "0 < evaluation_interval fs" "1 \<le> max_signal_bits fs" "0 \<le> default_threshold fs"
    "default_threshold fs \<le> evaluation_interval fs" "validate_conflicting_bits (features fs)"
    "\<And>f c. (f, c) \<in> set (features fs) \<Longrightarrow> to_validated (evaluation_interval fs) (max_signal_bits fs) c = Inr c"
proof -
  let ?P = "\<lambda>(f, c). to_validated (evaluation_interval fs) (max_signal_bits fs) c = Inr c"
  obtain fcs where v: "validate_features (evaluation_interval fs) (max_signal_bits fs) (features fs) = Inr fcs"
    and "validate_conflicting_bits fcs"
    and "0 < evaluation_interval fs" "1 \<le> max_signal_bits fs" "0 \<le> default_threshold fs" "default_threshold fs \<le> evaluation_interval fs"
    using assms by (auto simp: settings_ok_def make_feature_settings_def result_simps guardE_def split: if_splits)
  moreover have "fcs = features fs \<and> list_all ?P (features fs)"
    using v unfolding validate_features_def
    by (rule map_result_id) (auto simp: to_validated_def result_simps split: prod.splits if_splits)
  ultimately show "0 < evaluation_interval fs" "1 \<le> max_signal_bits fs" "0 \<le> default_threshold fs"
    "default_threshold fs \<le> evaluation_interval fs" "validate_conflicting_bits (features fs)"
    "\<And>f c. (f, c) \<in> set (features fs) \<Longrightarrow> to_validated (evaluation_interval fs) (max_signal_bits fs) c = Inr c"
    by (auto simp: list_all_iff)
qed

lemma to_validated_ok:
  "to_validated e m c = Inr c' \<longleftrightarrow> c' = c \<and> 0 \<le> c_bit c \<and> c_bit c < m \<and> 0 \<le> start_height c \<and> 0 \<le> timeout_height c \<and>
     0 \<le> minimum_activation_height c \<and> (\<forall>t. c_threshold c = Some t \<longrightarrow> 0 \<le> t \<and> t \<le> e) \<and>
     start_height c + 2 * e \<le> timeout_height c \<and>
     start_height c mod e = 0 \<and> timeout_height c mod e = 0 \<and> minimum_activation_height c mod e = 0"
  by (auto simp: to_validated_def result_simps criteria_fields_ok_def validate_bit_def validate_timeout_height_def
      validate_threshold_def validate_evaluation_interval_multiple_def guardE_def split: if_splits option.splits)

lemma chain_count_nth:
  assumes "chain_ok env chain n" and "settings_ok (fe_features env)" and "(f, c) \<in> set (features (fe_features env))"
  shows "py_nth (st_bit_counts (fe_storage env) (block_hash (chain n))) (c_bit c) =
    Inr (signal_count (nat (evaluation_interval (fe_features env))) chain (nat (c_bit c)) n)"
proof -
  let ?cs = "st_bit_counts (fe_storage env) (block_hash (chain n))"
  have c: "0 \<le> c_bit c" "c_bit c < max_signal_bits (fe_features env)"
    using settings_okD(6) [OF assms(2,3)] by (auto simp: to_validated_ok)
  have cs: "int (length ?cs) = max_signal_bits (fe_features env)"
    "\<forall>i<length ?cs. ?cs ! i = signal_count (nat (evaluation_interval (fe_features env))) chain i n"
    using chain_counts [OF assms(1)] settings_okD(1,2) [OF assms(2)] by auto
  have "nat (c_bit c) < length ?cs" using c cs(1) by linarith
  then show ?thesis using c cs by (simp add: py_nth_def)
qed

subsection \<open>Ancestors\<close>

lemma ancestor_loop_ok:
  assumes "chain_ok env chain n"
  shows "p \<le> i \<Longrightarrow> i \<le> n \<Longrightarrow> i - p \<le> k \<Longrightarrow> ancestor_loop env (int p) k (chain i) = Inr (chain p)"
proof (induction k arbitrary: i)
  case 0
  then show ?case by (simp add: chain_height [OF assms])
next
  case (Suc k)
  show ?case
  proof (cases "i = p")
    case True
    then show ?thesis using Suc.prems by (simp add: chain_height [OF assms])
  next
    case False
    then obtain j where j: "i = Suc j" using Suc.prems by (cases i) auto
    have "ancestor_loop env (int p) k (chain j) = Inr (chain p)" using Suc.prems False j by (intro Suc.IH) auto
    then show ?thesis
      using Suc.prems False j chain_parent [OF assms, of j]
      by (subst ancestor_loop.simps) (simp add: chain_height [OF assms])
  qed
qed

lemma get_ancestor_ok:
  assumes "chain_ok env chain n" and "p < n" and "int (n - p) \<le> evaluation_interval (fe_features env)"
  shows "get_ancestor_at_height env (chain n) (int p) = Inr (chain p)"
proof -
  obtain m where m: "n = Suc m" using assms(2) by (cases n) auto
  have fc: "st_fully_connected (fe_storage env) (block_hash (chain m))"
    "\<not> st_voided (fe_storage env) (block_hash (chain m)) \<Longrightarrow> height_index (fe_storage env) (int p) = Some (block_hash (chain p))"
    using assms(1,2) m by (auto simp: chain_ok_def)
  have it: "get_ancestor_iteratively env (chain m) (int p) = Inr (chain p)"
    using assms m ancestor_loop_ok [OF assms(1), of p m "m - p"]
    by (simp add: get_ancestor_iteratively_def chain_height [OF assms(1)] nat_diff_distrib del: ancestor_loop.simps)
  show ?thesis
    using assms m fc it chain_hash [OF assms(1), of m] chain_parent [OF assms(1), of m] chain_stored [OF assms(1,2)]
    by (auto simp: get_ancestor_at_height_def chain_height [OF assms(1)] get_block_by_height_def)
qed

subsection \<open>One boundary\<close>

lemma boundary_div:
  assumes "0 < (e :: nat)" and "n mod e = 0" and "0 < n"
  shows "n div e = Suc ((n - e) div e)" and "e \<le> n" and "(n - e) mod e = 0" and "n - 1 = Suc ((n - e) div e) * e - 1"
    and "int (Suc ((n - e) div e)) * int e = int n"
proof -
  from assms obtain k where k: "n = Suc k * e" by (metis Suc_pred' mod_0_imp_dvd dvdE mult.commute nat_0_less_mult_iff)
  then show "n div e = Suc ((n - e) div e)" "e \<le> n" "(n - e) mod e = 0" "n - 1 = Suc ((n - e) div e) * e - 1"
    "int (Suc ((n - e) div e)) * int e = int n"
    using assms(1) by (simp_all add: algebra_simps)
qed

lemma calculate_new_state_ok:
  assumes "chain_ok env chain n" and "settings_ok (fe_features env)" and "0 < n"
    and "n mod nat (evaluation_interval (fe_features env)) = 0"
  shows "calculate_new_state env (chain n) f (chain_state env chain (n - nat (evaluation_interval (fe_features env))) f) =
    Inr (chain_state env chain n f)"
proof (cases "map_of (features (fe_features env)) f")
  case None
  then show ?thesis using chain_height [OF assms(1), of n] by (simp add: calculate_new_state_def chain_state_def)
next
  case (Some c)
  let ?e = "evaluation_interval (fe_features env)"
  note ok = settings_okD [OF assms(2)]
  have e: "0 < nat ?e" "int (nat ?e) = ?e" using ok(1) by auto
  note b = boundary_div [OF e(1) assms(4,3)]
  have "\<not> is_genesis (fe_settings env) (chain n)" using assms(1,3) by (simp add: chain_ok_def)
  moreover have "int n mod ?e = 0" using assms(4) int_mod_interval [OF ok(1), of n] by simp
  moreover have "block_parent env (chain n) = Inr (chain (n - 1))"
    using chain_parent [OF assms(1), of "n - 1"] assms(3) by simp
  moreover obtain counts where counts: "block_bit_counts env (chain (n - 1)) = Inr counts"
    "py_nth counts (c_bit c) = Inr (interval_count (nat ?e) chain (nat (c_bit c)) ((n - nat ?e) div nat ?e))"
  proof -
    have o: "chain_ok env chain (n - 1)" by (rule chain_ok_mono [OF assms(1)]) simp
    have "block_bit_counts env (chain (n - 1)) = Inr (st_bit_counts (fe_storage env) (block_hash (chain (n - 1))))"
      using chain_hash [OF o, of "n - 1"] by (simp add: block_bit_counts_def)
    then show thesis
      using that chain_count_nth [OF o assms(2) map_of_SomeD [OF Some]] signal_count_interval [OF e(1)] b(4) by metis
  qed
  moreover define prev where "prev = chain_state env chain (n - nat ?e) f"
  moreover have "chain_state env chain n f = advance_state ?e (get_threshold (fe_features env) c) c (int n)
      (interval_count (nat ?e) chain (nat (c_bit c)) ((n - nat ?e) div nat ?e)) prev"
    using Some b(1,5) e(2) by (simp add: prev_def chain_state_def Let_def)
  ultimately show ?thesis
    using Some chain_height [OF assms(1), of n]
    by (cases prev) (simp_all add: calculate_new_state_def)
qed

subsection \<open>The cache\<close>

definition cache_ok :: "feature_env \<Rightarrow> (nat \<Rightarrow> block) \<Rightarrow> nat \<Rightarrow> feature_cache \<Rightarrow> bool" where
  "cache_ok env chain n s \<longleftrightarrow>
     (\<forall>i\<le>n. \<forall>f st. feature_states s (block_hash (chain i)) f = Some st \<longrightarrow> st = chain_state env chain i f)"

text \<open>What the calls change of the supported features: a feature that must signal is moved to them.\<close>

definition support_step :: "feature_env \<Rightarrow> (nat \<Rightarrow> block) \<Rightarrow> nat \<Rightarrow> feature_cache \<Rightarrow> feature_cache \<Rightarrow> bool" where
  "support_step env chain n s s' \<longleftrightarrow>
     support_features s \<subseteq> support_features s' \<and> not_support_features s' \<subseteq> not_support_features s \<and>
     (\<forall>f. f \<in> support_features s' - support_features s \<or> f \<in> not_support_features s - not_support_features s' \<longrightarrow>
        (\<exists>i\<le>n. chain_state env chain i f = MUST_SIGNAL))"

lemma support_step_refl [simp]: "support_step env chain n s s"
  by (simp add: support_step_def)

lemma support_step_trans: "support_step env chain n s t \<Longrightarrow> support_step env chain n t u \<Longrightarrow> support_step env chain n s u"
  unfolding support_step_def by blast

lemma support_step_on_must_signal:
  "chain_state env chain i f = MUST_SIGNAL \<Longrightarrow> i \<le> n \<Longrightarrow> support_step env chain n s (on_must_signal f s)"
  by (auto simp: support_step_def on_must_signal_def add_feature_support_def)

lemma support_step_set: "set_feature_state h f st s = Inr s' \<Longrightarrow> support_step env chain n s s'"
  by (auto simp: set_feature_state_def support_step_def guardE_def Let_def split: if_splits)

lemma cache_ok_hit:
  "cache_ok env chain n s \<Longrightarrow> i \<le> n \<Longrightarrow> get_feature_state s (block_hash (chain i)) f = Some st \<Longrightarrow> st = chain_state env chain i f"
  by (simp add: cache_ok_def get_feature_state_def)

lemma cache_ok_on_must_signal [simp]: "cache_ok env chain n (on_must_signal f s) = cache_ok env chain n s"
  by (simp add: cache_ok_def on_must_signal_def add_feature_support_def)

lemma chain_hash_inj:
  assumes "chain_ok env chain n" and "i \<le> n" and "j \<le> n" and "block_hash (chain i) = block_hash (chain j)"
  shows "i = j"
proof -
  have "st_height (fe_storage env) (block_hash (chain k)) = int k" if "k \<le> n" for k using assms(1) that by (simp add: chain_ok_def)
  from this [OF assms(2)] this [OF assms(3)] show ?thesis unfolding assms(4) by linarith
qed

lemma set_feature_state_ok:
  assumes "chain_ok env chain n" and "cache_ok env chain n s" and "i \<le> n"
  obtains s' where "set_feature_state (block_hash (chain i)) f (chain_state env chain i f) s = Inr s'" and "cache_ok env chain n s'"
proof (cases "get_feature_state s (block_hash (chain i)) f")
  case None
  let ?s = "s\<lparr>feature_states := (feature_states s)(block_hash (chain i) := (feature_states s (block_hash (chain i)))
      (f := Some (chain_state env chain i f)))\<rparr>"
  have "cache_ok env chain n ?s"
    using assms(2) by (auto simp: cache_ok_def dest!: chain_hash_inj [OF assms(1) _ assms(3)])
  then show thesis using None that [of ?s] by (simp add: set_feature_state_def)
next
  case (Some st)
  with cache_ok_hit [OF assms(2,3)] have "st = chain_state env chain i f" by simp
  with Some have "set_feature_state (block_hash (chain i)) f (chain_state env chain i f) s = Inr s"
    by (simp add: set_feature_state_def)
  then show thesis using assms(2) that by blast
qed

lemma previous_boundary:
  assumes "0 < E" and "0 < n" and "p = n - (if n mod nat E \<noteq> 0 then n mod nat E else nat E)"
  shows "p < n" and "int (n - p) \<le> E" and "p mod nat E = 0"
    and "n div nat E + of_bool (n mod nat E \<noteq> 0) = Suc (p div nat E)"
    and "int n - (if int n mod E \<noteq> 0 then int n mod E else E) = int p"
proof -
  have e: "0 < nat E" "int (nat E) = E" using assms(1) by auto
  have m: "int n mod E = int (n mod nat E)" by (rule int_mod_interval [OF assms(1)])
  have "n mod nat E < nat E" using e by simp
  then have less: "int (n mod nat E) < E" using e(2) by linarith
  have "p < n \<and> int (n - p) \<le> E \<and> p mod nat E = 0 \<and> n div nat E + of_bool (n mod nat E \<noteq> 0) = Suc (p div nat E) \<and>
    int n - (if int n mod E \<noteq> 0 then int n mod E else E) = int p"
  proof (cases "n mod nat E = 0")
    case True
    then show ?thesis using boundary_div [OF e(1) True assms(2)] assms e m by auto
  next
    case False
    have "n - n mod nat E = nat E * (n div nat E)" by (simp add: minus_mod_eq_mult_div)
    then have "p mod nat E = 0 \<and> p div nat E = n div nat E" using assms(3) False e by simp
    moreover have "n mod nat E \<le> n" by simp
    ultimately show ?thesis using False assms(2,3) m less by (auto simp: of_nat_diff)
  qed
  then show "p < n" "int (n - p) \<le> E" "p mod nat E = 0" "n div nat E + of_bool (n mod nat E \<noteq> 0) = Suc (p div nat E)"
    "int n - (if int n mod E \<noteq> 0 then int n mod E else E) = int p" by blast+
qed

lemma get_state_ok:
  assumes "chain_ok env chain N" and "settings_ok (fe_features env)"
  shows "n \<le> N \<Longrightarrow> cache_ok env chain N s \<Longrightarrow>
    n div nat (evaluation_interval (fe_features env)) + of_bool (n mod nat (evaluation_interval (fe_features env)) \<noteq> 0) < depth \<Longrightarrow>
    \<exists>s'. get_state depth env (chain n) f s = Inr (chain_state env chain n f, s') \<and> cache_ok env chain N s' \<and> support_step env chain N s s'"
proof (induction depth arbitrary: n s)
  case 0
  then show ?case by simp
next
  case (Suc depth)
  let ?E = "evaluation_interval (fe_features env)"
  let ?e = "nat ?E" and ?h = "block_hash (chain n)"
  have E: "0 < ?E" by (rule settings_okD(1) [OF assms(2)])
  note ok = chain_ok_mono [OF assms(1) Suc.prems(1)]
  have g: "is_genesis (fe_settings env) (chain n) \<longleftrightarrow> n = 0" using ok by (simp add: chain_ok_def)
  show ?case
  proof (cases "n = 0")
    case True
    then have "chain_state env chain n f = DEFINED" by (simp add: chain_state_def Let_def split: option.split)
    with True g Suc.prems(2) show ?thesis by simp
  next
    case n: False
    define p where "p = n - (if n mod ?e \<noteq> 0 then n mod ?e else ?e)"
    have "0 < n" using n by simp
    note b = previous_boundary [OF E this p_def]
    have p: "p < n" "int (n - p) \<le> ?E" "p mod ?e = 0" "p div ?e < depth"
      "int n - (if int n mod ?E \<noteq> 0 then int n mod ?E else ?E) = int p"
      using b Suc.prems(3) by auto
    show ?thesis
    proof (cases "get_feature_state s ?h f")
      case (Some st)
      then show ?thesis using n g Suc.prems chain_hash [OF ok] cache_ok_hit [OF Suc.prems(2,1) Some] by simp
    next
      case None
      have "p \<le> N" using p(1) Suc.prems(1) by simp
      obtain s1 where s1: "get_state depth env (chain p) f s = Inr (chain_state env chain p f, s1)" "cache_ok env chain N s1"
          "support_step env chain N s s1"
        using Suc.IH [OF \<open>p \<le> N\<close> Suc.prems(2)] p(3,4) by auto
      obtain s2 where s2: "set_feature_state (block_hash (chain p)) f (chain_state env chain p f) s1 = Inr s2" "cache_ok env chain N s2"
        by (rule set_feature_state_ok [OF assms(1) s1(2) \<open>p \<le> N\<close>])
      have t: "support_step env chain N s s2" by (rule support_step_trans [OF s1(3) support_step_set [OF s2(1)]])
      note run = n g None chain_hash [OF assms(1) Suc.prems(1)] chain_hash [OF assms(1) \<open>p \<le> N\<close>] chain_height [OF ok order_refl]
        get_ancestor_ok [OF ok p(1,2)] s1(1) s2(1)
      show ?thesis
      proof (cases "n mod ?e = 0")
        case False
        then have "chain_state env chain p f = chain_state env chain n f"
          using b(4) by (simp add: chain_state_def Let_def split: option.split)
        then show ?thesis
          using False s2(2) t p(5) run int_mod_interval [OF E, of n] by (simp add: Let_def)
      next
        case True
        then have "p = n - ?e" by (simp add: p_def)
        then have c: "calculate_new_state env (chain n) f (chain_state env chain p f) = Inr (chain_state env chain n f)"
          using calculate_new_state_ok [OF ok assms(2) _ True] n by simp
        let ?s3 = "if chain_state env chain n f = MUST_SIGNAL then on_must_signal f s2 else s2"
        have "cache_ok env chain N ?s3" using s2(2) by simp
        then obtain s4 where s4: "set_feature_state ?h f (chain_state env chain n f) ?s3 = Inr s4" "cache_ok env chain N s4"
          using set_feature_state_ok [OF assms(1) _ Suc.prems(1)] by blast
        have "support_step env chain N s2 ?s3" using support_step_on_must_signal [OF _ Suc.prems(1)] by simp
        from support_step_trans [OF support_step_trans [OF t this] support_step_set [OF s4(1)]] s4 show ?thesis
          using True p(5) c run int_mod_interval [OF E, of n] by (simp add: Let_def)
      qed
    qed
  qed
qed

subsection \<open>Life of a feature\<close>

lemma interval_state_lock_in: "lock_in_on_timeout c \<Longrightarrow> interval_state e t c count k \<noteq> FAILED"
  by (induction k) (auto elim: advance_state.elims split: if_splits)

lemma interval_state_started:
  assumes "start_height c \<le> int (Suc k) * e"
  shows "interval_state e t c count (Suc k) \<noteq> DEFINED"
  using assms by (cases "interval_state e t c count k") auto

lemma interval_state_must_signal:
  assumes "lock_in_on_timeout c" and "start_height c \<le> int (Suc k) * e" and "timeout_height c \<le> int (Suc (Suc k)) * e + e"
  shows "interval_state e t c count (Suc (Suc k)) \<in> {MUST_SIGNAL, LOCKED_IN, ACTIVE}"
  using interval_state_started [OF assms(2), of t count] interval_state_lock_in [OF assms(1), of e t count "Suc k"] assms(1,3)
  by (subst interval_state.simps) (cases "interval_state e t c count (Suc k)", auto)

lemma interval_state_locked:
  assumes "interval_state e t c count k \<in> {MUST_SIGNAL, LOCKED_IN, ACTIVE}" and "k < m"
  shows "interval_state e t c count m \<in> {LOCKED_IN, ACTIVE}"
  using assms(2)
proof (induction m)
  case 0
  then show ?case by simp
next
  case (Suc m)
  show ?case
  proof (cases "k = m")
    case True
    then show ?thesis using assms(1) by auto
  next
    case False
    then have "interval_state e t c count m \<in> {LOCKED_IN, ACTIVE}" using Suc by simp
    then show ?thesis by auto
  qed
qed

lemma interval_state_active_after:
  assumes "interval_state e t c count k \<in> {MUST_SIGNAL, LOCKED_IN, ACTIVE}" and "Suc k < m"
    and "minimum_activation_height c \<le> int m * e"
  shows "interval_state e t c count m = ACTIVE"
proof -
  obtain j where m: "m = Suc j" "k < j" using assms(2) by (cases m) auto
  from interval_state_locked [OF assms(1) m(2)] show ?thesis using assms(3) unfolding m(1) by auto
qed

lemma lock_in_activates:
  assumes "to_validated e bits c = Inr c" and "lock_in_on_timeout c" and "0 < e"
    and "timeout_height c + (if start_height c = 0 then 2 * e else e) \<le> int m * e"
    and "minimum_activation_height c \<le> int m * e"
  shows "interval_state e t c count m = ACTIVE"
proof -
  define k where "k = nat (timeout_height c div e) - 2"
  let ?k = "if start_height c = 0 \<and> k = 0 then 1 else k"
  have ok: "0 \<le> start_height c" "start_height c + 2 * e \<le> timeout_height c" "timeout_height c mod e = 0" "start_height c mod e = 0"
    using assms(1) by (auto simp: to_validated_ok)
  obtain a where a: "start_height c = a * e" using ok(4) by (metis mod_0_imp_dvd dvd_def mult.commute)
  obtain b where b: "timeout_height c = b * e" using ok(3) by (metis mod_0_imp_dvd dvd_def mult.commute)
  have ab: "0 \<le> a" "a + 2 \<le> b"
  proof -
    show "0 \<le> a" using ok(1) assms(3) unfolding a by (simp add: zero_le_mult_iff)
    have "(a + 2) * e \<le> b * e" using ok(2) unfolding a b by (simp add: algebra_simps)
    then show "a + 2 \<le> b" using assms(3) by simp
  qed
  have k: "int k = b - 2" using ab assms(3) unfolding k_def b by simp
  have m: "b + (if a = 0 then 2 else 1) \<le> int m"
  proof -
    have "(b + (if a = 0 then 2 else 1)) * e \<le> int m * e" using assms(3,4) unfolding a b by (simp add: algebra_simps split: if_splits)
    then show ?thesis using assms(3) by simp
  qed
  obtain j where j: "?k = Suc j" using k ab by (cases ?k) (auto simp: a split: if_splits)
  have "start_height c \<le> int (Suc j) * e"
    using ab k assms(3) unfolding j [symmetric] a by (auto intro: mult_right_mono)
  moreover have "b \<le> int (Suc j) + 2" using k unfolding j [symmetric] by auto
  then have "b * e \<le> (int (Suc j) + 2) * e" using assms(3) by (intro mult_right_mono) auto
  then have "timeout_height c \<le> int (Suc (Suc j)) * e + e" unfolding b by (simp add: algebra_simps)
  ultimately have "interval_state e t c count (Suc (Suc j)) \<in> {MUST_SIGNAL, LOCKED_IN, ACTIVE}"
    by (rule interval_state_must_signal [OF assms(2)])
  moreover have "Suc (Suc (Suc j)) < m" using m k j ab assms(3) unfolding a by (auto split: if_splits)
  ultimately show ?thesis using assms(5) by (rule interval_state_active_after)
qed

lemma interval_state_locked_signaled:
  assumes "\<not> lock_in_on_timeout c" and "interval_state e t c count k \<in> {LOCKED_IN, ACTIVE}"
  shows "\<exists>j. Suc j \<le> k \<and> t \<le> count j \<and> int (Suc j) * e < timeout_height c \<and> interval_state e t c count j = STARTED"
  using assms(2)
proof (induction k)
  case 0
  then show ?case by simp
next
  case (Suc k)
  have no_must: "interval_state e t c count i \<noteq> MUST_SIGNAL" for i
    using assms(1) by (induction i) (auto elim: advance_state.elims split: if_splits)
  show ?case
  proof (cases "interval_state e t c count k \<in> {LOCKED_IN, ACTIVE}")
    case True
    then show ?thesis using Suc.IH by (meson le_SucI)
  next
    case False
    then have "interval_state e t c count k = STARTED"
      using Suc.prems no_must [of k] by (cases "interval_state e t c count k") (auto split: if_splits)
    then show ?thesis using Suc.prems assms(1) by (auto intro!: exI [of _ k] split: if_splits)
  qed
qed

lemma interval_state_started_after: "interval_state e t c count k = STARTED \<Longrightarrow> 0 < e \<Longrightarrow> start_height c \<le> int k * e"
proof (induction k)
  case 0
  then show ?case by simp
next
  case (Suc k)
  then show ?case
    by (cases "interval_state e t c count k") (auto simp: algebra_simps split: if_splits)
qed

lemma interval_state_active_height:
  "interval_state e t c count k = ACTIVE \<Longrightarrow> 0 < e \<Longrightarrow> minimum_activation_height c \<le> int k * e"
proof (induction k)
  case 0
  then show ?case by simp
next
  case (Suc k)
  then show ?case
    by (cases "interval_state e t c count k") (auto simp: algebra_simps split: if_splits)
qed

lemma interval_state_final: "interval_state e t c count k \<in> {ACTIVE, FAILED} \<Longrightarrow> interval_state e t c count (k + d) = interval_state e t c count k"
  by (induction d) auto

subsection \<open>Intervals that share a bit\<close>

lemma sorted_wrt_insort_key:
  assumes "symp D"
  shows "sorted_wrt D (insort_key g x xs) \<longleftrightarrow> (\<forall>y\<in>set xs. D x y) \<and> sorted_wrt D xs"
  by (induction xs) (auto simp: set_insort_key dest: sympD [OF assms])

lemma sorted_wrt_sort_key: "symp D \<Longrightarrow> sorted_wrt D (sort_key g xs) \<longleftrightarrow> sorted_wrt D xs"
  by (induction xs) (auto simp: sorted_wrt_insort_key)

lemma sorted_wrt_filter_iff: "sorted_wrt D (filter Q xs) \<longleftrightarrow> sorted_wrt (\<lambda>x y. Q x \<and> Q y \<longrightarrow> D x y) xs"
  by (induction xs) auto

lemma sorted_wrt_keys:
  "(\<forall>i\<in>set (map k xs). sorted_wrt (\<lambda>x y. k x = i \<and> k y = i \<longrightarrow> D x y) xs) \<longleftrightarrow> sorted_wrt (\<lambda>x y. k x = k y \<longrightarrow> D x y) xs"
  (is "?l \<longleftrightarrow> ?r")
proof
  assume l: ?l
  show ?r unfolding sorted_wrt_iff_nth_less
  proof safe
    fix i j assume ij: "i < j" "j < length xs" "k (xs ! i) = k (xs ! j)"
    then have "k (xs ! i) \<in> set (map k xs)" by simp
    with l have "sorted_wrt (\<lambda>x y. k x = k (xs ! i) \<and> k y = k (xs ! i) \<longrightarrow> D x y) xs" by blast
    with ij show "D (xs ! i) (xs ! j)" by (simp add: sorted_wrt_iff_nth_less)
  qed
next
  assume ?r
  then show ?l unfolding sorted_wrt_iff_nth_less by simp
qed

definition disjoint_intervals :: "feature_interval \<Rightarrow> feature_interval \<Rightarrow> bool" where
  "disjoint_intervals a b \<longleftrightarrow> {fi_begin a..fi_end a} \<inter> {fi_begin b..fi_end b} = {}"

lemma disjoint_intervals_iff:
  "fi_begin a \<le> fi_end a \<Longrightarrow> fi_begin b \<le> fi_end b \<Longrightarrow>
   disjoint_intervals a b \<longleftrightarrow> fi_end a < fi_begin b \<or> fi_end b < fi_begin a"
  by (auto simp: disjoint_intervals_def Int_atLeastAtMost)

lemma overlap_loop_None:
  "sorted (map fi_begin xs) \<Longrightarrow> (\<forall>x\<in>set xs. fi_begin x \<le> fi_end x) \<Longrightarrow>
   (\<forall>x\<in>set xs. fi_begin p \<le> fi_begin x) \<Longrightarrow> fi_begin p \<le> fi_end p \<Longrightarrow>
   overlap_loop (Some p) xs = None \<longleftrightarrow> sorted_wrt disjoint_intervals (p # xs)"
proof (induction xs arbitrary: p)
  case Nil
  then show ?case by simp
next
  case (Cons x xs)
  have "overlap_loop (Some x) xs = None \<longleftrightarrow> sorted_wrt disjoint_intervals (x # xs)" using Cons by simp
  moreover have "disjoint_intervals p x \<longleftrightarrow> fi_end p < fi_begin x" using Cons.prems by (subst disjoint_intervals_iff) auto
  moreover have "disjoint_intervals p y" if "fi_end p < fi_begin x" "y \<in> set xs" for y
    using that Cons.prems by (subst disjoint_intervals_iff) fastforce+
  ultimately show ?case by auto
qed

lemma find_overlap_None:
  assumes "\<forall>x\<in>set xs. fi_begin x \<le> fi_end x"
  shows "find_overlap xs = None \<longleftrightarrow> sorted_wrt disjoint_intervals xs"
proof -
  have symp: "symp disjoint_intervals" by (auto simp: symp_def disjoint_intervals_def)
  have s: "sorted (map fi_begin (sort_key fi_begin xs))" "\<forall>x\<in>set (sort_key fi_begin xs). fi_begin x \<le> fi_end x"
    using assms by auto
  have "find_overlap xs = None \<longleftrightarrow> sorted_wrt disjoint_intervals (sort_key fi_begin xs)"
  proof (cases "sort_key fi_begin xs")
    case Nil
    then show ?thesis by (simp add: find_overlap_def)
  next
    case (Cons y ys)
    then show ?thesis using s overlap_loop_None [of ys y] by (simp add: find_overlap_def)
  qed
  then show ?thesis by (simp add: sorted_wrt_sort_key [OF symp])
qed

lemma validate_conflicting_bits_iff:
  assumes "\<forall>(f, c)\<in>set fcs. start_height c \<le> timeout_height c"
  shows "validate_conflicting_bits fcs \<longleftrightarrow>
    sorted_wrt (\<lambda>(f, c) (g, d). c_bit c = c_bit d \<longrightarrow> {start_height c..timeout_height c} \<inter> {start_height d..timeout_height d} = {}) fcs"
proof -
  let ?iv = "\<lambda>(f, c). \<lparr>fi_begin = start_height c, fi_end = timeout_height c, fi_feature = f\<rparr>"
  have "find_overlap (get_intervals_of_bit fcs i) = None \<longleftrightarrow>
      sorted_wrt (\<lambda>x y. c_bit (snd x) = i \<and> c_bit (snd y) = i \<longrightarrow> disjoint_intervals (?iv x) (?iv y)) fcs" for i
  proof -
    have "\<forall>x\<in>set (get_intervals_of_bit fcs i). fi_begin x \<le> fi_end x" using assms by (auto simp: get_intervals_of_bit_def)
    then show ?thesis
      by (simp add: find_overlap_None) (simp add: get_intervals_of_bit_def sorted_wrt_map sorted_wrt_filter_iff case_prod_unfold)
  qed
  then have "validate_conflicting_bits fcs \<longleftrightarrow> (\<forall>i\<in>set (map (c_bit \<circ> snd) fcs).
      sorted_wrt (\<lambda>x y. c_bit (snd x) = i \<and> c_bit (snd y) = i \<longrightarrow> disjoint_intervals (?iv x) (?iv y)) fcs)"
    by (simp add: validate_conflicting_bits_def get_intervals_by_bit_def list_all_iff)
  also have "\<dots> \<longleftrightarrow> sorted_wrt (\<lambda>x y. c_bit (snd x) = c_bit (snd y) \<longrightarrow> disjoint_intervals (?iv x) (?iv y)) fcs"
    using sorted_wrt_keys [of "c_bit \<circ> snd" fcs "\<lambda>x y. disjoint_intervals (?iv x) (?iv y)"] by simp
  finally show ?thesis by (simp add: disjoint_intervals_def case_prod_unfold)
qed

subsection \<open>The answers of the services\<close>

lemma feature_infos_ok:
  assumes "chain_ok env chain n" and "settings_ok (fe_features env)"
    and "n div nat (evaluation_interval (fe_features env)) + 1 < depth"
  shows "cache_ok env chain n s \<Longrightarrow> \<exists>s'. feature_infos_loop depth env (chain n) fcs s =
      Inr (map (\<lambda>(f, c). (f, c, chain_state env chain n f)) fcs, s') \<and> cache_ok env chain n s' \<and> support_step env chain n s s'"
proof (induction fcs arbitrary: s)
  case Nil
  then show ?case by simp
next
  case (Cons fc fcs)
  obtain f c where fc: "fc = (f, c)" by (cases fc)
  have "n div nat (evaluation_interval (fe_features env)) + of_bool (n mod nat (evaluation_interval (fe_features env)) \<noteq> 0) < depth"
    using assms(3) by (simp add: of_bool_def)
  from get_state_ok [OF assms(1,2) order_refl Cons.prems this, of f] obtain s1
    where s1: "get_state depth env (chain n) f s = Inr (chain_state env chain n f, s1)" "cache_ok env chain n s1" "support_step env chain n s s1"
    by blast
  from Cons.IH [OF s1(2)] s1(1) fc show ?case by (auto intro: support_step_trans [OF s1(3)])
qed

lemma missing_signal_ok:
  "(\<forall>(f, c, st)\<in>set infos. py_nth counts (c_bit c) = Inr (cnt c)) \<Longrightarrow>
   \<exists>r. missing_signal_loop fs counts rest infos = Inr r \<and>
     (r = BlockIsSignaling \<longleftrightarrow> (\<forall>(f, c, st)\<in>set infos. st = MUST_SIGNAL \<longrightarrow> get_threshold fs c - cnt c \<le> rest))"
proof (induction infos)
  case Nil
  then show ?case by simp
next
  case (Cons x infos)
  obtain f c st where x: "x = (f, c, st)" by (cases x)
  have "\<forall>(f, c, st)\<in>set infos. py_nth counts (c_bit c) = Inr (cnt c)" using Cons.prems by simp
  from Cons.IH [OF this] obtain r where "missing_signal_loop fs counts rest infos = Inr r"
    "r = BlockIsSignaling \<longleftrightarrow> (\<forall>(f, c, st)\<in>set infos. st = MUST_SIGNAL \<longrightarrow> get_threshold fs c - cnt c \<le> rest)" by blast
  then show ?case using Cons.prems x by simp
qed

lemma bits_fold:
  "bit (foldl (\<lambda>bits (f, c, on). bits OR push_bit (nat (c_bit c)) (of_bool on)) (a :: int) xs) i \<longleftrightarrow>
   bit a i \<or> (\<exists>(f, c, on)\<in>set xs. on \<and> nat (c_bit c) = i)"
proof (induction xs arbitrary: a)
  case Nil
  then show ?case by simp
next
  case (Cons x xs)
  obtain f c on where x: "x = (f, c, on)" by (cases x)
  have "bit (push_bit (nat (c_bit c)) (of_bool on) :: int) i \<longleftrightarrow> on \<and> nat (c_bit c) = i"
    by (cases on) (auto simp: bit_push_bit_iff bit_1_iff push_bit_of_1 bit_exp_iff)
  then show ?case using Cons.IH [of "a OR push_bit (nat (c_bit c)) (of_bool on)"] x by (simp add: bit_or_iff disj_assoc)
qed

lemma bits_fold_map:
  "bit (foldl (\<lambda>bits (f, c, on). bits OR push_bit (nat (c_bit c)) (of_bool on)) (0 :: int) (map (\<lambda>(f, c). (f, c, P f c)) xs)) i \<longleftrightarrow>
   (\<exists>(f, c)\<in>set xs. nat (c_bit c) = i \<and> P f c)"
  unfolding bits_fold by (induction xs) auto

section \<open>Properties\<close>

text \<open>
  C35. (refinement) On a chain whose storage and static metadata are consistent, with validated settings and a cache
  that agrees with the chain, the state the service computes for a block by recursion over boundary blocks, with
  the cache of states and the counts kept in the metadata, is the state obtained by counting the signals of whole
  intervals from the genesis on; it is computed within one call per interval, and the cache still agrees.
\<close>

theorem get_state_refines:
  assumes "chain_ok env chain n" and "settings_ok (fe_features env)" and "cache_ok env chain n s"
    and "n div nat (evaluation_interval (fe_features env)) + 1 < depth"
  shows "\<exists>s'. get_state depth env (chain n) f s = Inr (chain_state env chain n f, s') \<and> cache_ok env chain n s'"
proof -
  have "n div nat (evaluation_interval (fe_features env)) + of_bool (n mod nat (evaluation_interval (fe_features env)) \<noteq> 0) < depth"
    using assms(4) by (simp add: of_bool_def)
  from get_state_ok [OF assms(1,2) order_refl assms(3) this] show ?thesis by blast
qed

lemma get_state_value:
  assumes "chain_ok env chain n" and "settings_ok (fe_features env)" and "cache_ok env chain n s"
    and "n div nat (evaluation_interval (fe_features env)) + 1 < depth"
  obtains s' where "get_state depth env (chain n) f s = Inr (chain_state env chain n f, s')" "cache_ok env chain n s'"
proof -
  have "n div nat (evaluation_interval (fe_features env)) + of_bool (n mod nat (evaluation_interval (fe_features env)) \<noteq> 0) < depth"
    using assms(4) by (simp add: of_bool_def)
  from get_state_ok [OF assms(1,2) order_refl assms(3) this] that show thesis by blast
qed

lemma nat_div_mult_le: "0 < e \<Longrightarrow> int (n div nat e) * e \<le> int n"
  by (metis div_times_less_eq_dividend int_nat_eq less_imp_le mult.commute of_nat_le_iff of_nat_mult)

lemma multiple_le_boundary:
  assumes "0 < e" and "x mod e = 0" and "0 \<le> x" and "x \<le> int n"
  shows "x \<le> int (n div nat e) * e"
proof -
  have "x div e \<le> int n div e" using assms by (intro zdiv_mono1) auto
  then have "x div e * e \<le> int n div e * e" using assms(1) by (intro mult_right_mono) auto
  then show ?thesis using assms by (simp add: zdiv_int minus_mod_eq_div_mult [symmetric])
qed

text \<open>
  C36. (safety) A feature that does not lock in on timeout becomes active only after a whole interval, begun at or after its
  start height and closed before its timeout height, in which at least as many blocks as its threshold set its bit,
  and not before its minimum activation height.
\<close>

theorem active_feature_was_signaled:
  assumes "chain_ok env chain n" and "settings_ok (fe_features env)" and "cache_ok env chain n s"
    and "n div nat (evaluation_interval (fe_features env)) + 1 < depth"
    and "map_of (features (fe_features env)) f = Some c" and "\<not> lock_in_on_timeout c"
    and "get_state depth env (chain n) f s = Inr (ACTIVE, s')"
  shows "minimum_activation_height c \<le> int n \<and>
    (\<exists>k. start_height c \<le> int k * evaluation_interval (fe_features env) \<and>
       int (Suc k) * evaluation_interval (fe_features env) < timeout_height c \<and>
       int (Suc k) * evaluation_interval (fe_features env) \<le> int n \<and>
       get_threshold (fe_features env) c \<le> interval_count (nat (evaluation_interval (fe_features env))) chain (nat (c_bit c)) k)"
proof -
  let ?e = "evaluation_interval (fe_features env)" and ?t = "get_threshold (fe_features env) c"
  let ?cnt = "interval_count (nat ?e) chain (nat (c_bit c))"
  have e: "0 < ?e" by (rule settings_okD(1) [OF assms(2)])
  obtain s'' where "get_state depth env (chain n) f s = Inr (chain_state env chain n f, s'')" by (rule get_state_value [OF assms(1-4)])
  then have a: "interval_state ?e ?t c ?cnt (n div nat ?e) = ACTIVE" using assms(5,7) by (simp add: chain_state_def Let_def)
  then obtain k where k: "Suc k \<le> n div nat ?e" "?t \<le> ?cnt k" "int (Suc k) * ?e < timeout_height c"
      "interval_state ?e ?t c ?cnt k = STARTED"
    using interval_state_locked_signaled [OF assms(6)] by blast
  have "int (Suc k) * ?e \<le> int (n div nat ?e) * ?e" using k(1) e by (intro mult_right_mono) auto
  then have "int (Suc k) * ?e \<le> int n" using nat_div_mult_le [OF e, of n] by linarith
  moreover have "minimum_activation_height c \<le> int n"
    using interval_state_active_height [OF a e] nat_div_mult_le [OF e, of n] by linarith
  ultimately show ?thesis using k(2,3) interval_state_started_after [OF k(4) e] by blast
qed

text \<open>
  C37. (liveness) A feature that locks in on timeout is active in every block from one interval after its timeout height on (two
  intervals when it starts at the genesis), once the minimum activation height is reached, whatever the blocks
  of the chain signal.
\<close>

theorem lock_in_on_timeout_activates:
  assumes "chain_ok env chain n" and "settings_ok (fe_features env)" and "cache_ok env chain n s"
    and "n div nat (evaluation_interval (fe_features env)) + 1 < depth"
    and "map_of (features (fe_features env)) f = Some c" and "lock_in_on_timeout c"
    and "timeout_height c + (if start_height c = 0 then 2 else 1) * evaluation_interval (fe_features env) \<le> int n"
    and "minimum_activation_height c \<le> int n"
  shows "\<exists>s'. is_feature_active depth env (BlockVertex (chain n)) f s = Inr (True, s')"
proof -
  let ?e = "evaluation_interval (fe_features env)"
  let ?d = "if start_height c = 0 then 2 * ?e else ?e"
  have e: "0 < ?e" by (rule settings_okD(1) [OF assms(2)])
  have v: "to_validated ?e (max_signal_bits (fe_features env)) c = Inr c"
    by (rule settings_okD(6) [OF assms(2) map_of_SomeD [OF assms(5)]])
  then have h: "0 \<le> timeout_height c" "0 \<le> minimum_activation_height c" "timeout_height c mod ?e = 0" "minimum_activation_height c mod ?e = 0"
    by (auto simp: to_validated_ok)
  have "timeout_height c + ?d \<le> int (n div nat ?e) * ?e"
    using assms(7) h e by (intro multiple_le_boundary) (auto simp: mod_add_eq [symmetric] split: if_splits)
  moreover have "minimum_activation_height c \<le> int (n div nat ?e) * ?e"
    using assms(8) h e by (intro multiple_le_boundary) auto
  ultimately have "chain_state env chain n f = ACTIVE"
    using lock_in_activates [OF v assms(6) e] assms(5) by (simp add: chain_state_def Let_def)
  then obtain s' where "get_state depth env (chain n) f s = Inr (ACTIVE, s')" using get_state_value [OF assms(1-4), of f] by metis
  then show ?thesis by (simp add: is_feature_active_def get_feature_activation_block_def is_active_def)
qed

text \<open>
  C38. (safety) The verifier accepts a block of such a chain exactly when every feature in the state MUST_SIGNAL can still reach its
  threshold: the signals counted in the interval so far and the blocks the interval has left are at least the
  threshold. At the last block of an interval no blocks are left, so the threshold has been reached.
\<close>

theorem mandatory_signaling_enforced:
  assumes "chain_ok env chain n" and "settings_ok (fe_features env)" and "cache_ok env chain n s"
    and "n div nat (evaluation_interval (fe_features env)) + 1 < depth"
  shows "verify_mandatory_signaling (\<lambda>b. bindE (is_signaling_mandatory_features depth env b s) (\<lambda>(r, s). Inr r)) (chain n) =
    (if \<forall>(f, c)\<in>set (features (fe_features env)). chain_state env chain n f = MUST_SIGNAL \<longrightarrow>
       get_threshold (fe_features env) c \<le> signal_count (nat (evaluation_interval (fe_features env))) chain (nat (c_bit c)) n +
         (evaluation_interval (fe_features env) - int n mod evaluation_interval (fe_features env) - 1)
     then Inr () else Inl (TxValidationError BlockMustSignalError))"
proof -
  let ?e = "evaluation_interval (fe_features env)" and ?fcs = "features (fe_features env)"
  let ?infos = "map (\<lambda>(f, c). (f, c, chain_state env chain n f)) ?fcs"
  let ?cnt = "\<lambda>c. signal_count (nat ?e) chain (nat (c_bit c)) n" and ?cs = "st_bit_counts (fe_storage env) (block_hash (chain n))"
  have "\<forall>(f, c, st)\<in>set ?infos. py_nth ?cs (c_bit c) = Inr (?cnt c)" using chain_count_nth [OF assms(1,2)] by auto
  from missing_signal_ok [OF this, of "fe_features env" "?e - int n mod ?e - 1"]
  obtain r where r: "missing_signal_loop (fe_features env) ?cs (?e - int n mod ?e - 1) ?infos = Inr r"
    "r = BlockIsSignaling \<longleftrightarrow> (\<forall>(f, c)\<in>set ?fcs. chain_state env chain n f = MUST_SIGNAL \<longrightarrow>
       get_threshold (fe_features env) c \<le> ?cnt c + (?e - int n mod ?e - 1))"
    by (auto simp: case_prod_unfold algebra_simps)
  obtain s' where "feature_infos_loop depth env (chain n) ?fcs s = Inr (?infos, s')"
    using feature_infos_ok [OF assms(1,2,4,3)] by blast
  then have "bindE (is_signaling_mandatory_features depth env (chain n) s) (\<lambda>(r, s). Inr r) = Inr r"
    using r(1) chain_hash [OF assms(1) order_refl] chain_height [OF assms(1) order_refl]
    by (simp add: is_signaling_mandatory_features_def get_feature_infos_def get_feature_activation_block_def block_bit_counts_def Let_def)
  then show ?thesis using r(2) by (cases r) (simp_all add: verify_mandatory_signaling_def)
qed

text \<open>
  C39. (equivalence) The settings are accepted exactly when the interval, the number of bits and the default threshold are in range,
  every criteria is valid, and any two features with the same bit have disjoint intervals from the start height to the timeout
  height: comparing neighbours after sorting by the start height finds every overlap.
\<close>

theorem feature_settings_accepted:
  "make_feature_settings e m t fcs = Inr fs \<longleftrightarrow>
     fs = \<lparr>evaluation_interval = e, max_signal_bits = m, default_threshold = t, features = fcs\<rparr> \<and>
     0 < e \<and> 1 \<le> m \<and> m \<le> 8 \<and> 0 \<le> t \<and> t \<le> e \<and> (\<forall>(f, c)\<in>set fcs. to_validated e m c = Inr c) \<and>
     (\<forall>i<length fcs. \<forall>j<i. c_bit (snd (fcs ! i)) = c_bit (snd (fcs ! j)) \<longrightarrow>
        {start_height (snd (fcs ! i))..timeout_height (snd (fcs ! i))} \<inter>
        {start_height (snd (fcs ! j))..timeout_height (snd (fcs ! j))} = {})"
proof -
  have v: "validate_features e m fcs = Inr gcs \<longleftrightarrow> gcs = fcs \<and> (\<forall>(f, c)\<in>set fcs. to_validated e m c = Inr c)" for gcs
    unfolding validate_features_def by (rule validate_features_iff)
  show ?thesis
  proof (cases "0 < e \<and> (\<forall>(f, c)\<in>set fcs. to_validated e m c = Inr c)")
    case True
    then have "\<forall>(f, c)\<in>set fcs. start_height c \<le> timeout_height c" by (fastforce simp: to_validated_ok)
    from validate_conflicting_bits_iff [OF this]
    have "validate_conflicting_bits fcs \<longleftrightarrow> (\<forall>i<length fcs. \<forall>j<i. c_bit (snd (fcs ! i)) = c_bit (snd (fcs ! j)) \<longrightarrow>
        {start_height (snd (fcs ! i))..timeout_height (snd (fcs ! i))} \<inter>
        {start_height (snd (fcs ! j))..timeout_height (snd (fcs ! j))} = {})"
      unfolding sorted_wrt_iff_nth_less case_prod_unfold by (metis (no_types, lifting) Int_commute)
    moreover have "make_feature_settings e m t fcs = Inr fs \<longleftrightarrow>
      fs = \<lparr>evaluation_interval = e, max_signal_bits = m, default_threshold = t, features = fcs\<rparr> \<and>
      1 \<le> m \<and> m \<le> 8 \<and> 0 \<le> t \<and> t \<le> e \<and> validate_conflicting_bits fcs"
      using True v by (auto simp: make_feature_settings_def result_simps guardE_def split: if_splits)
    ultimately show ?thesis using True by simp
  next
    case False
    then show ?thesis using v by (auto simp: make_feature_settings_def result_simps guardE_def split: if_splits)
  qed
qed

text \<open>
  C40. (functional) The signal bits a mined block gets: when no more features are in a signaling state than there are
  bits, bit \<open>i\<close> is set exactly when some feature with that bit is in a signaling state and the node supports
  it, by default or by its configuration, and is not configured not to; otherwise the service fails. The
  configuration is the one the node started with, except for features that have reached MUST_SIGNAL, which it then supports.
\<close>

theorem generated_signal_bits:
  assumes "chain_ok env chain n" and "settings_ok (fe_features env)" and "cache_ok env chain n s"
    and "n div nat (evaluation_interval (fe_features env)) + 1 < depth"
  shows "\<exists>s'. cache_ok env chain n s' \<and> support_step env chain n s s' \<and>
    (let signaling = filter (\<lambda>(f, c). chain_state env chain n f \<in> {STARTED, MUST_SIGNAL, LOCKED_IN}) (features (fe_features env)) in
     if max_signal_bits (fe_features env) < int (length signaling)
     then generate_signal_bits depth env (chain n) s = Inl AssertionError
     else \<exists>bits. generate_signal_bits depth env (chain n) s = Inr (bits, s') \<and>
       (\<forall>i. bit bits i \<longleftrightarrow> (\<exists>(f, c)\<in>set signaling. nat (c_bit c) = i \<and>
          (signal_support_by_default c \<or> f \<in> support_features s') \<and> f \<notin> not_support_features s')))"
proof -
  let ?fcs = "features (fe_features env)"
  let ?sig = "filter (\<lambda>(f, c). chain_state env chain n f \<in> {STARTED, MUST_SIGNAL, LOCKED_IN}) ?fcs"
  obtain s' where s': "feature_infos_loop depth env (chain n) ?fcs s = Inr (map (\<lambda>(f, c). (f, c, chain_state env chain n f)) ?fcs, s')"
      "cache_ok env chain n s'" "support_step env chain n s s'"
    using feature_infos_ok [OF assms(1,2,4,3)] by blast
  define infos where "infos = map (\<lambda>(f, c). (f, c, chain_state env chain n f)) ?fcs"
  define sig where "sig = ?sig"
  have "map (\<lambda>(f, c, state). (f, c)) (filter (\<lambda>(f, c, state). state \<in> set get_signaling_states) infos) = sig"
    by (simp add: infos_def sig_def filter_map comp_def case_prod_unfold get_signaling_states_def)
  then have "get_signaling_features depth env (chain n) s =
      (if max_signal_bits (fe_features env) < int (length sig) then Inl AssertionError else Inr (sig, s'))"
    using s'(1) unfolding infos_def [symmetric]
    by (simp add: get_signaling_features_def get_feature_infos_def get_feature_activation_block_def guardE_def Let_def del: length_map)
  then show ?thesis
    unfolding sig_def [symmetric] generate_signal_bits_def calculate_feature_signals_def Let_def
    using s'(2,3) by (intro exI [of _ s']) (simp add: bits_fold_map)
qed

section \<open>A chain\<close>

text \<open>
  A chain with intervals of two blocks in which every block sets the bits 0 and 2: feature 1 has bit 0 and waits, locked in, for
  height 20; feature 2 has bit 0 from height 8 on; feature 3 has bit 1 and locks in on timeout; feature 4 has bit 2.
\<close>

definition signal_block :: "nat \<Rightarrow> block" where
  "signal_block i = demo_block (of_nat i)\<lparr>signal_bits := 5, parents := [[of_nat (i - 1)]]\<rparr>"

definition signal_storage :: chain_storage where
  "signal_storage =
     \<lparr>st_vertices = (\<lambda>h. Some (BlockVertex (signal_block (unat (hd h))))), st_height = (\<lambda>h. int (unat (hd h))), best_block_tips = [],
      st_min_height = (\<lambda>_. 0), st_bit_counts = (\<lambda>h. if even (unat (hd h)) then [1, 0, 1, 0] else [2, 0, 2, 0]),
      st_closest_ancestor_block = (\<lambda>_. [0]), st_voided = (\<lambda>_. False), st_fully_connected = (\<lambda>_. True),
      height_index = (\<lambda>i. Some [word_of_int i])\<rparr>"

definition signal_criteria :: "int \<Rightarrow> int \<Rightarrow> int \<Rightarrow> int \<Rightarrow> bool \<Rightarrow> criteria" where
  "signal_criteria i start timeout minimum lock_in =
     \<lparr>c_bit = i, start_height = start, timeout_height = timeout, c_threshold = None, minimum_activation_height = minimum,
      lock_in_on_timeout = lock_in, signal_support_by_default = (start = 2)\<rparr>"

definition signal_features :: "(feature \<times> criteria) list" where
  "signal_features = [(NOP_FEATURE_1, signal_criteria 0 2 6 20 False), (NOP_FEATURE_2, signal_criteria 0 8 12 0 False),
     (NOP_FEATURE_3, signal_criteria 1 2 6 0 True), (INCREASE_MAX_MERKLE_PATH_LENGTH, signal_criteria 2 2 6 0 False)]"

definition signal_env :: feature_env where
  "signal_env = \<lparr>fe_settings = mainnet_settings\<lparr>GENESIS_BLOCK_HASH := [0]\<rparr>,
     fe_features = \<lparr>evaluation_interval = 2, max_signal_bits = 4, default_threshold = 2, features = signal_features\<rparr>,
     fe_storage = signal_storage\<rparr>"

definition empty_cache :: feature_cache where
  "empty_cache = \<lparr>feature_states = (\<lambda>_ _. None), support_features = {}, not_support_features = {NOP_FEATURE_2}\<rparr>"

lemma signal_env_fields [simp]:
  "evaluation_interval (fe_features signal_env) = 2" "max_signal_bits (fe_features signal_env) = 4"
  "default_threshold (fe_features signal_env) = 2" "features (fe_features signal_env) = signal_features"
  "fe_storage signal_env = signal_storage"
  by (simp_all add: signal_env_def)

lemma signal_block_fields [simp]:
  "vhash (signal_block i) = Some [of_nat i]" "block_hash (signal_block i) = [of_nat i]" "signal_bits (signal_block i) = 5"
  "parents (signal_block i) = [[of_nat (i - 1)]]"
  by (simp_all add: signal_block_def demo_block_def block_hash_def)

lemma unat_small: "i < 256 \<Longrightarrow> unat (of_nat i :: byte) = i"
  by (simp add: unsigned_of_nat take_bit_nat_eq_self)

lemma uint_small: "i < 256 \<Longrightarrow> uint (of_nat i :: byte) = int i"
  using unat_small [of i] by (simp add: uint_nat del: of_nat_unat)

lemma signal_bit_list:
  "get_feature_activation_bit_list \<lparr>evaluation_interval = 2, max_signal_bits = 4, default_threshold = 2\<rparr> (signal_block i) = Inr [1, 0, 1, 0]"
proof -
  have "bits_of 5 5 = [1, 0, 1]" by code_simp
  then show ?thesis
    by (simp add: get_feature_activation_bit_list_def get_bit_list_def get_feature_activation_bitmask_def)
qed

lemma signal_genesis:
  assumes "i < 256"
  shows "is_genesis (fe_settings signal_env) (signal_block i) \<longleftrightarrow> i = 0"
proof -
  have "(of_nat i :: byte) = 0 \<longleftrightarrow> i = 0" using unat_small [OF assms] by auto
  then show ?thesis by (simp add: is_genesis_def get_all_genesis_hashes_def signal_env_def mainnet_settings_def)
qed

lemma signal_storage_fields:
  "i < 256 \<Longrightarrow> st_bit_counts signal_storage [of_nat i] = (if even i then [1, 0, 1, 0] else [2, 0, 2, 0])"
  "i < 256 \<Longrightarrow> st_height signal_storage [of_nat i] = int i"
  "i < 256 \<Longrightarrow> st_vertices signal_storage [of_nat i] = Some (BlockVertex (signal_block i))"
  "i < 256 \<Longrightarrow> get_block signal_storage [of_nat i] = Inr (signal_block i)"
  "st_fully_connected signal_storage h" "height_index signal_storage (int i) = Some [of_nat i]"
  by (simp_all add: signal_storage_def unat_small uint_small get_block_def get_vertex_def get_transaction_def cs_txs_def tx_storage.defs)

lemma signal_bit_counts:
  assumes "i < 256"
  shows "calculate_feature_activation_bit_counts \<lparr>evaluation_interval = 2, max_signal_bits = 4, default_threshold = 2\<rparr> signal_storage
      (signal_block i) (int i) = Inr (if even i then [1, 0, 1, 0] else [2, 0, 2, 0])"
proof (cases "even i")
  case True
  then have "int i mod 2 = 0" by presburger
  with True show ?thesis
    by (simp add: calculate_feature_activation_bit_counts_def get_previous_feature_activation_bit_counts_def signal_bit_list)
next
  case False
  then obtain j where "i = Suc j" "even j" by (cases i) auto
  moreover from False have "int i mod 2 = 1" by presburger
  ultimately show ?thesis
    using assms
    by (simp add: calculate_feature_activation_bit_counts_def get_previous_feature_activation_bit_counts_def signal_bit_list
        get_block_parent_hash_def py_nth_def signal_storage_fields)
qed

lemma signal_chain_ok: "n < 256 \<Longrightarrow> chain_ok signal_env signal_block n"
proof -
  assume n: "n < 256"
  have "interval_settings.truncate (fe_features signal_env) = \<lparr>evaluation_interval = 2, max_signal_bits = 4, default_threshold = 2\<rparr>"
    by (simp add: interval_settings.defs)
  then show ?thesis
    using n unfolding chain_ok_def
    by (auto simp: signal_genesis signal_storage_fields signal_bit_counts get_block_parent_hash_def py_nth_def simp del: of_nat_Suc)
qed

lemma signal_settings_ok: "settings_ok (fe_features signal_env)"
proof -
  have v: "list_all (\<lambda>(f, c). to_validated 2 4 c = Inr c) signal_features"
    by (simp add: signal_features_def signal_criteria_def to_validated_ok)
  have "validate_conflicting_bits signal_features"
    by (subst validate_conflicting_bits_iff) (simp_all add: signal_features_def signal_criteria_def)
  moreover have "validate_features 2 4 signal_features = Inr signal_features"
    using v by (simp add: validate_features_def validate_features_iff list_all_iff)
  ultimately show ?thesis by (simp add: settings_ok_def make_feature_settings_def signal_env_def)
qed

lemma signal_cache_ok: "cache_ok env chain n empty_cache"
  by (simp add: cache_ok_def empty_cache_def)

lemma signal_interval_count: "interval_count 2 signal_block i = (\<lambda>_. if bit (5 :: int) i then 2 else 0)"
  by (simp add: fun_eq_iff interval_count_def)

lemma signal_states:
  "chain_state signal_env signal_block 8 NOP_FEATURE_1 = LOCKED_IN" "chain_state signal_env signal_block 8 NOP_FEATURE_2 = STARTED"
  "chain_state signal_env signal_block 8 NOP_FEATURE_3 = ACTIVE" "chain_state signal_env signal_block 8 INCREASE_MAX_MERKLE_PATH_LENGTH = ACTIVE"
  "chain_state signal_env signal_block 5 NOP_FEATURE_1 = LOCKED_IN" "chain_state signal_env signal_block 5 NOP_FEATURE_2 = DEFINED"
  "chain_state signal_env signal_block 5 NOP_FEATURE_3 = MUST_SIGNAL" "chain_state signal_env signal_block 5 INCREASE_MAX_MERKLE_PATH_LENGTH = LOCKED_IN"
  by (simp_all add: chain_state_def signal_features_def signal_criteria_def signal_interval_count get_threshold_def)
    (simp_all add: eval_nat_numeral)

lemmas signal_chain = signal_chain_ok signal_settings_ok signal_cache_ok

theorem get_state_refines_witness:
  "\<exists>s'. get_state 10 signal_env (signal_block 8) NOP_FEATURE_2 empty_cache = Inr (STARTED, s') \<and> cache_ok signal_env signal_block 8 s'"
  using get_state_refines [OF signal_chain, of 8 10 NOP_FEATURE_2] by (simp add: signal_states)

theorem active_feature_was_signaled_witness:
  "\<exists>k. int (Suc k) * 2 < 6 \<and> 2 \<le> interval_count 2 signal_block 2 k"
proof -
  obtain s' where s': "get_state 10 signal_env (signal_block 8) INCREASE_MAX_MERKLE_PATH_LENGTH empty_cache = Inr (ACTIVE, s')"
    using get_state_value [OF signal_chain, of 8 10 INCREASE_MAX_MERKLE_PATH_LENGTH] by (auto simp: signal_states)
  show ?thesis
    using active_feature_was_signaled [OF signal_chain _ _ _ s', of "signal_criteria 2 2 6 0 False"]
    by (auto simp: signal_features_def signal_criteria_def get_threshold_def)
qed

theorem lock_in_on_timeout_activates_witness:
  "\<exists>s'. is_feature_active 10 signal_env (BlockVertex (signal_block 8)) NOP_FEATURE_3 empty_cache = Inr (True, s')"
  by (rule lock_in_on_timeout_activates [OF signal_chain, of _ _ _ "signal_criteria 1 2 6 0 True"])
    (simp_all add: signal_features_def signal_criteria_def)

theorem mandatory_signaling_enforced_witness:
  "verify_mandatory_signaling (\<lambda>b. bindE (is_signaling_mandatory_features 10 signal_env b empty_cache) (\<lambda>(r, s). Inr r)) (signal_block 5) =
     Inl (TxValidationError BlockMustSignalError)"
  using mandatory_signaling_enforced [OF signal_chain, of 5 10]
  by (simp add: signal_features_def signal_states signal_criteria_def get_threshold_def signal_count_def)

theorem feature_settings_accepted_witness:
  "make_feature_settings 2 4 2 signal_features = Inr (fe_features signal_env) \<and>
   (\<nexists>fs. make_feature_settings 2 4 2 [(NOP_FEATURE_1, signal_criteria 0 2 6 0 False), (NOP_FEATURE_2, signal_criteria 0 6 10 0 False)] = Inr fs)"
proof -
  have "\<forall>i<4. \<forall>j<i. c_bit (snd (signal_features ! i)) = c_bit (snd (signal_features ! j)) \<longrightarrow>
      {start_height (snd (signal_features ! i))..timeout_height (snd (signal_features ! i))} \<inter>
      {start_height (snd (signal_features ! j))..timeout_height (snd (signal_features ! j))} = {}"
    by (simp add: signal_features_def signal_criteria_def All_less_Suc numeral_eq_Suc)
  moreover have "list_all (\<lambda>(f, c). to_validated 2 4 c = Inr c) signal_features"
    by (simp add: signal_features_def signal_criteria_def to_validated_ok)
  moreover have "length signal_features = 4" by (simp add: signal_features_def)
  ultimately have "make_feature_settings 2 4 2 signal_features = Inr (fe_features signal_env)"
    unfolding feature_settings_accepted by (simp add: signal_env_def list_all_iff)
  then show ?thesis
    unfolding feature_settings_accepted by (simp add: signal_criteria_def All_less_Suc)
qed

theorem generated_signal_bits_witness:
  "settings_ok (fe_features signal_env) \<and> chain_state signal_env signal_block 8 NOP_FEATURE_2 = STARTED \<and>
   c_bit (signal_criteria 0 8 12 0 False) = 0 \<and> NOP_FEATURE_2 \<in> not_support_features empty_cache \<and>
   (\<exists>bits s'. generate_signal_bits 10 signal_env (signal_block 8) empty_cache = Inr (bits, s') \<and> bit bits 0 \<and> \<not> bit bits 1)"
proof -
  have sig: "filter (\<lambda>(f, c). chain_state signal_env signal_block 8 f \<in> {STARTED, MUST_SIGNAL, LOCKED_IN}) signal_features =
      [(NOP_FEATURE_1, signal_criteria 0 2 6 20 False), (NOP_FEATURE_2, signal_criteria 0 8 12 0 False)]"
    by (simp add: signal_features_def signal_states)
  from generated_signal_bits [OF signal_chain, of 8 10] obtain bits s' where
    *: "generate_signal_bits 10 signal_env (signal_block 8) empty_cache = Inr (bits, s')" "support_step signal_env signal_block 8 empty_cache s'"
      "\<forall>i. bit bits i \<longleftrightarrow> (\<exists>(f, c)\<in>set [(NOP_FEATURE_1, signal_criteria 0 2 6 20 False), (NOP_FEATURE_2, signal_criteria 0 8 12 0 False)].
         nat (c_bit c) = i \<and> (signal_support_by_default c \<or> f \<in> support_features s') \<and> f \<notin> not_support_features s')"
    unfolding Let_def signal_env_fields sig by auto
  then have "NOP_FEATURE_1 \<notin> not_support_features s'" by (auto simp: support_step_def empty_cache_def)
  then have "bit bits 0" "\<not> bit bits 1" using *(3) by (auto simp: signal_criteria_def)
  with *(1) show ?thesis using signal_settings_ok by (simp add: signal_states signal_criteria_def empty_cache_def)
qed

end
