(* ===== verification/Spec2Isabelle.thy ===== *)
theory Spec2Isabelle
  imports Compound_Encodings Vertex_Codec Script_Proofs Service_Proofs Feature_Proofs
begin

text \<open>
  A model of the full node in \<^verbatim>\<open>src/hathor\<close>: the code that decides which bytes are a vertex of the ledger, which vertices are
  valid, and which rules a chain activates. Vertices are blocks and transactions; they form a graph by their parents and by the
  outputs they spend.

  \<^bold>\<open>Conventions.\<close> A Python function is a function of the same name. A call that may raise returns \<open>exn + 'a\<close>, with the
  exception class on the left; \<open>bindE\<close> sequences such calls and \<open>guardE\<close> is a guarded raise. Objects are records, class
  hierarchies of vertices are datatypes, bytes are words of eight bits, strings are lists of code points, Python's
  integers are \<open>int\<close>. State that the code mutates is passed and returned. Third-party code is a parameter: digests, signatures
  and base 58 in the record \<open>crypto\<close>, string predicates in \<open>str_env\<close>, the operations on floats in
  \<open>weight_env\<close>, the contents of the database in the storage records. Loops are structural recursions where the code
  iterates over a list, functions with a termination proof where input is consumed, and recursions over a bound that the
  lemmas show to be enough elsewhere; where Python's own recursion depth is the limit, running out of it is
  \<open>RecursionError\<close>.

  \<^bold>\<open>Theories.\<close>
  \<^item> \<open>Prelude\<close>: exceptions, results, \<^verbatim>\<open>struct\<close>, \<^verbatim>\<open>int.to_bytes\<close>, UTF-8, and the simplification sets for results.
  \<^item> \<open>Serialization\<close>, \<open>Encodings\<close>, \<open>Compound_Encodings\<close>: \<^verbatim>\<open>serialization/\<close> and \<^verbatim>\<open>utils/leb128.py\<close>. The serializers with their
    limits on bytes, LEB128, fixed-width integers, booleans, bytes, UTF-8, output values, optionals, collections, mappings,
    tuples. The locales \<open>codec\<close> (what is written is read back), \<open>consuming\<close> (a reader never grows its input) and \<open>codec_pair\<close> are
    interpreted on every encoding; the round trips, the bound of the byte limit and the exact set of accepted output values
    follow from them.
  \<^item> \<open>Settings\<close>: the fields of \<^verbatim>\<open>conf/settings.py\<close> that are read, and the values of the main network.
  \<^item> \<open>Vertex\<close>, \<open>Vertex_Codec\<close>: \<^verbatim>\<open>transaction/base_transaction.py\<close>, \<^verbatim>\<open>transaction.py\<close>, \<^verbatim>\<open>token_creation_tx.py\<close>, \<^verbatim>\<open>block.py\<close> and
    \<^verbatim>\<open>headers/\<close>: the wire format, the hashes and the data a signature covers. The locale \<open>wire\<close> is interpreted on every field; the
    three kinds of vertex are parsed back from their bytes, equal hashes mean equal vertices up to collisions of the
    digest, and the signature hash covers everything but what it must leave out.
  \<^item> \<open>Crypto_Util\<close>: \<^verbatim>\<open>crypto/util.py\<close>, addresses.
  \<^item> \<open>Script_Ops\<close>, \<open>Script_Templates\<close>, \<open>Script_VM\<close>, \<open>Script_Proofs\<close>: \<^verbatim>\<open>transaction/scripts/\<close>. Parsing of scripts, the standard
    templates, every operation and the evaluator. Accepted spends of key hash and multi-signature outputs carry the
    signatures they should, honest spends are accepted, and a set of theorems shows scripts that cannot be spent or
    evaluations that the boundary between input data and output script does not protect.
  \<^item> \<open>Token_Amounts\<close>, \<open>Daa\<close>, \<open>Weights\<close>: \<^verbatim>\<open>transaction/util.py\<close> and \<^verbatim>\<open>daa.py\<close>: deposits in floating point, block rewards, the
    difficulty adjustment and the blocks it depends on.
  \<^item> \<open>Token_Info\<close>, \<open>Tx_Verification\<close>, \<open>Service_Proofs\<close>: \<^verbatim>\<open>nanocontracts/types.py\<close>, \<^verbatim>\<open>nanocontracts/balance_rules.py\<close>,
    \<^verbatim>\<open>reward_lock/\<close> and \<^verbatim>\<open>verification/\<close>: the balance of tokens, the verifiers and the service that composes them. An
    accepted transaction conserves tokens up to its authorities, spends existing outputs once with the right signatures, and a
    nano contract call is signed by its caller.
  \<^item> \<open>Static_Metadata\<close>: \<^verbatim>\<open>transaction/static_metadata.py\<close>: heights and minimum heights; rewards stay locked along the past of
    a block.
  \<^item> \<open>Feature_Activation\<close>, \<open>Feature_Proofs\<close>: \<^verbatim>\<open>feature_activation/\<close>: settings, the states of features along a chain,
    mandatory signaling. The recursive and cached computation refines counting the signals of whole intervals.

  \<^bold>\<open>Bounds.\<close> \<open>get_state\<close> takes the depth of calls that is left: one more than the number of intervals below the block is
  enough. \<open>ancestor_loop\<close> takes the difference of the heights. \<open>bits_of\<close> takes the number whose bits it lists.

  \<^bold>\<open>Not modelled.\<close> The network protocols, stratum, websocket and HTTP resources, the event queue, metrics and the command line are
  input and output over an external event loop. The runner of nano contracts executes user-provided Python code. RocksDB, its
  column families and the caches over it are the database the storage records stand for. Wallets manage keys for a
  user and take no part in validation. The simulator and the DAG builder are test support.
\<close>

end
